(* ===== verification/Rbl_Prelude.thy ===== *)
theory Rbl_Prelude
  imports Main "HOL-Library.Word"
begin

text \<open>
  Shared vocabulary of the development: results of operations that may fail, sequencing of
  such operations over an explicit state, and the generic facts on lists and words that the
  component theories use.

  A C++ operation that may throw, trip an assertion or run into undefined behaviour is a
  function whose value is a sum: \<open>Inl e\<close> for the failure \<open>e\<close>, \<open>Inr a\<close> for the returned
  value. An operation that also changes state returns the sum together with the state it
  leaves behind, also when it throws, because a C++ exception does not undo assignments.
\<close>

section \<open>Collections of rules\<close>

named_theorems flow_simps \<open>unfolding the sequencing of failing and stateful operations\<close>
named_theorems width_simps \<open>moving between machine words of different widths\<close>

section \<open>Sequencing\<close>

type_synonym ('f, 'a) res = "'f + 'a"
type_synonym ('f, 'a, 's) sres = "('f + 'a) \<times> 's"

text \<open>Sequencing of pure operations that may fail: the first failure wins.\<close>

definition ebind :: "('f, 'a) res \<Rightarrow> ('a \<Rightarrow> ('f, 'b) res) \<Rightarrow> ('f, 'b) res" where
  "ebind r k = (case r of Inl e \<Rightarrow> Inl e | Inr a \<Rightarrow> k a)"

text \<open>Sequencing of stateful operations: a failure stops the run and keeps its state.\<close>

definition sbind :: "('f, 'a, 's) sres \<Rightarrow> ('a \<Rightarrow> 's \<Rightarrow> ('f, 'b, 's) sres) \<Rightarrow> ('f, 'b, 's) sres" where
  "sbind r k = (case r of (Inl e, s) \<Rightarrow> (Inl e, s) | (Inr a, s) \<Rightarrow> k a s)"

lemma ebind_simps [simp, flow_simps]:
  "ebind (Inl e) k = Inl e"
  "ebind (Inr a) k = k a"
  by (simp_all add: ebind_def)

lemma sbind_simps [simp, flow_simps]:
  "sbind (Inl e, s) k = (Inl e, s)"
  "sbind (Inr a, s) k = k a s"
  by (simp_all add: sbind_def)

lemma ebind_eq_Inr_conv:
  "ebind r k = Inr b \<longleftrightarrow> (\<exists>a. r = Inr a \<and> k a = Inr b)"
  by (cases r) auto

lemma sbind_eq_Inr_conv:
  "sbind r k = (Inr b, t) \<longleftrightarrow> (\<exists>a s. r = (Inr a, s) \<and> k a s = (Inr b, t))"
  by (cases r; cases "fst r") (auto simp: sbind_def)

lemma sbind_assoc:
  "sbind (sbind r k) l = sbind r (\<lambda>a s. sbind (k a s) l)"
  by (cases r; cases "fst r") (auto simp: sbind_def)

section \<open>Words\<close>

text \<open>Signed integers are words, too, which \<open>sint\<close> reads.\<close>

type_synonym uint16 = "16 word"
type_synonym uint32 = "32 word"
type_synonym int16 = "16 word"
type_synonym byte = "8 word"

lemma unat_uint16_less [simp, width_simps]: "unat (w :: uint16) < 65536"
  using unsigned_less [of w] by simp

lemma unat_uint16_le [width_simps]: "unat (w :: uint16) \<le> 65535"
  using unat_uint16_less [of w] by linarith

lemma unat_ucast_16_32 [simp, width_simps]:
  "unat (ucast (w :: uint16) :: uint32) = unat w"
  using unat_uint16_less [of w] less_trans [of "unat w" 65536 "2 ^ 32"]
  by (simp add: unsigned_ucast_eq take_bit_nat_eq_self)

lemma unat_ucast_32_16 [width_simps]:
  "unat (ucast (w :: uint32) :: uint16) = unat w mod 65536"
  by (simp add: unsigned_ucast_eq take_bit_eq_mod)

lemma unat_succ_16_32 [simp, width_simps]:
  "unat ((ucast (w :: uint16) :: uint32) + 1) = Suc (unat w)"
proof -
  have "Suc (unat w) < 4294967296"
    using unat_uint16_less [of w] by linarith
  then show ?thesis by (simp add: unat_word_ariths)
qed

end
