(* ===== verification/Rbl_Errors.thy ===== *)
theory Rbl_Errors
  imports Rbl_Prelude
begin

text \<open>
  Error codes and exceptions (\<^verbatim>\<open>include/rpc/common/rpc_errors.h\<close>,
  \<^verbatim>\<open>src/rpc/common/rpc_error.cc\<close>), and the type of everything that can stop an operation.

  A \<open>boost::system::error_code\<close> is a value together with the category that gives the value
  its meaning; it converts to \<open>true\<close> exactly when its value is not zero, and \<open>clear()\<close>
  makes it zero in the system category.
\<close>

section \<open>Codes and categories\<close>

datatype e_code =
    RBL_RPC_SUCCESS
  | RBL_RPC_BACKEND_SEALED
  | RBL_RPC_BACKEND_INITIALIZATION_ERROR
  | RBL_RPC_BACKEND_IDENTIFIER_COLLISION
  | RBL_BACKEND_TEARDOWN_ERROR
  | RBL_BACKEND_INVOKE_NO_SERVICE_WITH_ORDINAL_ERROR
  | RBL_BACKEND_INVOKE_NO_REQUEST_WITH_ORDINAL_ERROR
  | RBL_BACKEND_INVOKE_CLIENT_NOT_SUBSCRIBED
  | RBL_BACKEND_INVOKE_REQUEST_STRING_PARSE_ERROR
  | RBL_BACKEND_INVOKE_RESPONSE_STRING_SERIALIZE_ERROR
  | RBL_BACKEND_CLIENT_TARGET_TYPE_MISMATCH
  | RBL_BACKEND_CLIENT_SOURCE_TYPE_MISMATCH
  | RBL_BACKEND_NOT_ESTABLISHED
  | RBL_BACKEND_ALLREADY_ESTABLISHED
  | RBL_BACKEND_SUBSCRIBE_NO_SERVICE_WITH_ORDINAL
  | RBL_BACKEND_ALLREADY_SUBSCRIBED
  | RBL_BACKEND_NOT_SUBSCRIBED
  | RBL_BACKEND_LIST_METHOD_NO_SERVICE_WITH_ORDINAL
  | RBL_BACKEND_NOT_ACCEPTING_REQUESTS
  | RBL_INVOKER_NOT_CONNECTED_TO_BACKEND

fun e_code_value :: "e_code \<Rightarrow> int" where
  "e_code_value RBL_RPC_SUCCESS = 0"
| "e_code_value RBL_RPC_BACKEND_SEALED = 1"
| "e_code_value RBL_RPC_BACKEND_INITIALIZATION_ERROR = 2"
| "e_code_value RBL_RPC_BACKEND_IDENTIFIER_COLLISION = 3"
| "e_code_value RBL_BACKEND_TEARDOWN_ERROR = 4"
| "e_code_value RBL_BACKEND_INVOKE_NO_SERVICE_WITH_ORDINAL_ERROR = 5"
| "e_code_value RBL_BACKEND_INVOKE_NO_REQUEST_WITH_ORDINAL_ERROR = 6"
| "e_code_value RBL_BACKEND_INVOKE_CLIENT_NOT_SUBSCRIBED = 7"
| "e_code_value RBL_BACKEND_INVOKE_REQUEST_STRING_PARSE_ERROR = 8"
| "e_code_value RBL_BACKEND_INVOKE_RESPONSE_STRING_SERIALIZE_ERROR = 9"
| "e_code_value RBL_BACKEND_CLIENT_TARGET_TYPE_MISMATCH = 10"
| "e_code_value RBL_BACKEND_CLIENT_SOURCE_TYPE_MISMATCH = 11"
| "e_code_value RBL_BACKEND_NOT_ESTABLISHED = 12"
| "e_code_value RBL_BACKEND_ALLREADY_ESTABLISHED = 13"
| "e_code_value RBL_BACKEND_SUBSCRIBE_NO_SERVICE_WITH_ORDINAL = 14"
| "e_code_value RBL_BACKEND_ALLREADY_SUBSCRIBED = 15"
| "e_code_value RBL_BACKEND_NOT_SUBSCRIBED = 16"
| "e_code_value RBL_BACKEND_LIST_METHOD_NO_SERVICE_WITH_ORDINAL = 17"
| "e_code_value RBL_BACKEND_NOT_ACCEPTING_REQUESTS = 18"
| "e_code_value RBL_INVOKER_NOT_CONNECTED_TO_BACKEND = 19"

text \<open>The two categories of the library; a service may report codes of a category of its own.\<close>

datatype error_category = system_category | rpc_backend_error | invoker_error | service_category string

record error_code =
  ec_value :: int
  ec_category :: error_category

definition ec_clear :: error_code where
  "ec_clear = \<lparr>ec_value = 0, ec_category = system_category\<rparr>"

definition ec_assign :: "e_code \<Rightarrow> error_category \<Rightarrow> error_code" where
  "ec_assign c cat = \<lparr>ec_value = e_code_value c, ec_category = cat\<rparr>"

definition ec_fails :: "error_code \<Rightarrow> bool" where
  "ec_fails ec \<longleftrightarrow> ec_value ec \<noteq> 0"

text \<open>\<open>error_category::name()\<close> and \<open>message()\<close> of the two categories.\<close>

fun category_name :: "error_category \<Rightarrow> string" where
  "category_name system_category = ''system''"
| "category_name rpc_backend_error = ''RPC Backend''"
| "category_name invoker_error = ''Invoker Error''"
| "category_name (service_category n) = n"

section \<open>What can stop an operation\<close>

text \<open>
  The standard exceptions the code throws, \<open>boost::system::system_error\<close>, its own exception classes with the
  \<open>boost::error_info\<close> values streamed into them (absent when the code throws the bare
  object), and four outcomes that are not exceptions: a failed \<open>BOOST_ASSERT\<close> (which
  stops the program), an operation the language leaves undefined (dereferencing a null or
  dangling pointer, indexing a vector out of range), a call that waits for another thread, and the end of the
  program by \<open>std::terminate\<close> when an exception leaves a thread.
\<close>

datatype exn =
    LengthError
  | InvalidArgument
  | OutOfRange
  | BackEndException "error_code option" "string option" "error_code option"
  | InvokerException "error_code option"
  | FrontEndException
  | TcpInvokerException
  | SystemError
  | AssertionFailed
  | UndefinedBehaviour
  | Blocked
  | Terminate

lemma ec_clear_fails [simp]: "\<not> ec_fails ec_clear"
  by (simp add: ec_fails_def ec_clear_def)

lemma e_code_value_eq_0_iff [simp]: "e_code_value c = 0 \<longleftrightarrow> c = RBL_RPC_SUCCESS"
  by (cases c) simp_all

lemma e_code_value_inj: "inj e_code_value"
proof (rule injI)
  fix a b assume "e_code_value a = e_code_value b"
  then show "a = b" by (cases a; cases b) simp_all
qed

lemma ec_fails_assign [simp]: "ec_fails (ec_assign c cat) \<longleftrightarrow> c \<noteq> RBL_RPC_SUCCESS"
  by (simp add: ec_fails_def ec_assign_def)

lemma ec_assign_inject [simp]: "ec_assign c cat = ec_assign d cat' \<longleftrightarrow> c = d \<and> cat = cat'"
  using e_code_value_inj by (auto simp: ec_assign_def inj_def)

lemma ec_assign_neq_clear [simp]: "c \<noteq> RBL_RPC_SUCCESS \<Longrightarrow> ec_assign c cat \<noteq> ec_clear"
  by (simp add: ec_assign_def ec_clear_def)

end
