(* ===== verification/Oid_Container.thy ===== *)
theory Oid_Container
  imports Rbl_Errors
begin

text \<open>
  The identifier container (\<^verbatim>\<open>include/common/oid_container.h\<close>,
  \<^verbatim>\<open>include/common/oid_container-inl.h\<close>, \<^verbatim>\<open>include/common/common.h\<close>): constrained strings,
  identifiers made of a name and a 16-bit ordinal, and a container of entries that is a
  vector indexed by ordinal together with an ordered set of the occupied slots indexed by name.

  A \<open>char\<close> array is the list of its determinate bytes: the default constructor writes the
  first byte only, \<open>strncpy\<close> writes all of them. A pointer to an entry of the vector is the
  number of its slot.
\<close>

section \<open>What the code uses of Boost\<close>

text \<open>
  The code calls \<open>boost::to_lower\<close> and the operations of \<open>boost::intrusive::set\<close>, which
  are not part of the repository: they are the fields of a record that the definitions take
  as their first argument. An intrusive set holds pointers to elements that live elsewhere,
  here the numbers of vector slots, and reads their keys through the comparison it is given.
\<close>

record 'ix boost =
  to_lower :: "string \<Rightarrow> string"
  set_empty :: "'ix"
  set_insert :: "(nat \<Rightarrow> nat \<Rightarrow> (exn, bool) res) \<Rightarrow> nat \<Rightarrow> 'ix \<Rightarrow> (exn, 'ix) res"
  set_find :: "(nat \<Rightarrow> (exn, bool) res) \<Rightarrow> (nat \<Rightarrow> (exn, bool) res) \<Rightarrow> 'ix \<Rightarrow> (exn, nat option) res"
  set_size :: "'ix \<Rightarrow> nat"

section \<open>OidConstrainedString\<close>

abbreviation NUL :: char where
  "NUL \<equiv> CHR 0x00"

text \<open>\<open>OidName\<close> is \<open>OidConstrainedString<char, 32>\<close>.\<close>

definition oid_name_length :: nat where
  "oid_name_length = 32"

datatype OidConstrainedString = OCS (str_of: "char list")

type_synonym OidName = OidConstrainedString

text \<open>
  The C library's \<open>strncpy\<close> into an array and \<open>strncmp\<close>; \<open>None\<close> stands for reading a
  byte that was never written or that lies past the array.
\<close>

definition strncpy :: "nat \<Rightarrow> string \<Rightarrow> char list" where
  "strncpy n s = take n (takeWhile (\<lambda>c. c \<noteq> NUL) s @ replicate n NUL)"

fun strncmp :: "nat \<Rightarrow> char list \<Rightarrow> char list \<Rightarrow> int option" where
  "strncmp 0 as bs = Some 0"
| "strncmp (Suc n) (a # as) (b # bs) =
     (if a \<noteq> b then Some (int (of_char a) - int (of_char b))
      else if a = NUL then Some 0
      else strncmp n as bs)"
| "strncmp (Suc n) as bs = None"

definition OidConstrainedString_default :: OidConstrainedString where
  "OidConstrainedString_default = OCS [NUL]"

definition construct_str :: "'ix boost \<Rightarrow> string \<Rightarrow> (exn, OidConstrainedString) res" where
  "construct_str L s =
     (if length s + 1 > oid_name_length then Inl LengthError
      else let str2 = to_lower L s in Inr (OCS (strncpy oid_name_length str2)))"

definition OidConstrainedString_string :: "'ix boost \<Rightarrow> string \<Rightarrow> (exn, OidConstrainedString) res" where
  "OidConstrainedString_string L s = construct_str L s"

text \<open>From a \<open>const char *\<close>: the argument is the memory it points to, read up to its first NUL.\<close>

definition OidConstrainedString_chars :: "'ix boost \<Rightarrow> string \<Rightarrow> (exn, OidConstrainedString) res" where
  "OidConstrainedString_chars L p = (let s = takeWhile (\<lambda>c. c \<noteq> NUL) p in construct_str L s)"

definition name_is_initialized :: "OidConstrainedString \<Rightarrow> bool" where
  "name_is_initialized n = (case str_of n of [] \<Rightarrow> False | c # cs \<Rightarrow> c \<noteq> NUL)"

definition name_c_str :: "OidConstrainedString \<Rightarrow> (exn, char list) res" where
  "name_c_str n = (if \<not> name_is_initialized n then Inl InvalidArgument else Inr (str_of n))"

definition name_compare :: "(int \<Rightarrow> bool) \<Rightarrow> OidConstrainedString \<Rightarrow> OidConstrainedString \<Rightarrow> (exn, bool) res" where
  "name_compare P n rhs =
     ebind (name_c_str rhs) (\<lambda>p.
       case strncmp oid_name_length (str_of n) p of
         None \<Rightarrow> Inl UndefinedBehaviour
       | Some r \<Rightarrow> Inr (P r))"

definition name_lt :: "OidConstrainedString \<Rightarrow> OidConstrainedString \<Rightarrow> (exn, bool) res" where
  "name_lt n rhs = name_compare (\<lambda>r. r < 0) n rhs"

definition name_eq :: "OidConstrainedString \<Rightarrow> OidConstrainedString \<Rightarrow> (exn, bool) res" where
  "name_eq n rhs = name_compare (\<lambda>r. r = 0) n rhs"

definition name_gt :: "OidConstrainedString \<Rightarrow> OidConstrainedString \<Rightarrow> (exn, bool) res" where
  "name_gt n rhs = name_compare (\<lambda>r. r > 0) n rhs"

section \<open>OidType\<close>

record OidType =
  oid_name :: OidName
  oid_ordinal :: uint16

definition OidType_default :: OidType where
  "OidType_default = \<lparr>oid_name = OidConstrainedString_default, oid_ordinal = 0\<rparr>"

definition OidType_MAX :: uint32 where
  "OidType_MAX = 65535"

definition Oid :: "'ix boost \<Rightarrow> string \<Rightarrow> uint32 \<Rightarrow> (exn, OidType) res" where
  "Oid L str_in ordinal_in =
     ebind (OidConstrainedString_string L str_in) (\<lambda>n.
       if ordinal_in > OidType_MAX then Inl OutOfRange
       else Inr \<lparr>oid_name = n, oid_ordinal = ucast ordinal_in\<rparr>)"

definition oid_eq :: "OidType \<Rightarrow> OidType \<Rightarrow> (exn, bool) res" where
  "oid_eq this rhs =
     ebind (name_eq (oid_name rhs) (oid_name this)) (\<lambda>b.
       Inr (b \<and> oid_ordinal rhs = oid_ordinal this))"

definition set_name :: "OidName \<Rightarrow> OidType \<Rightarrow> OidType" where
  "set_name n d = d\<lparr>oid_name := n\<rparr>"

definition set_ordinal :: "uint16 \<Rightarrow> OidType \<Rightarrow> OidType" where
  "set_ordinal k d = d\<lparr>oid_ordinal := k\<rparr>"


section \<open>OidContainerEntryType\<close>

record 'e OidContainerEntryType =
  ent_id :: OidType
  ent_entry :: 'e

text \<open>The default constructor value-initialises the payload; \<open>e0\<close> is that value.\<close>

definition entry_default :: "'e \<Rightarrow> 'e OidContainerEntryType" where
  "entry_default e0 = \<lparr>ent_id = OidType_default, ent_entry = e0\<rparr>"

definition entry_make :: "OidType \<Rightarrow> 'e \<Rightarrow> 'e OidContainerEntryType" where
  "entry_make d e = \<lparr>ent_id = d, ent_entry = e\<rparr>"

definition entry_is_initialized :: "'e OidContainerEntryType \<Rightarrow> bool" where
  "entry_is_initialized t = name_is_initialized (oid_name (ent_id t))"

definition entry_name :: "'e OidContainerEntryType \<Rightarrow> OidName" where
  "entry_name t = oid_name (ent_id t)"

definition entry_ordinal :: "'e OidContainerEntryType \<Rightarrow> uint16" where
  "entry_ordinal t = oid_ordinal (ent_id t)"

definition entry_lt :: "'e OidContainerEntryType \<Rightarrow> 'e OidContainerEntryType \<Rightarrow> (exn, bool) res" where
  "entry_lt t rhs = name_lt (oid_name (ent_id t)) (oid_name (ent_id rhs))"

definition entry_eq :: "'e OidContainerEntryType \<Rightarrow> 'e OidContainerEntryType \<Rightarrow> (exn, bool) res" where
  "entry_eq t rhs = name_eq (oid_name (ent_id t)) (oid_name (ent_id rhs))"

definition entry_gt :: "'e OidContainerEntryType \<Rightarrow> 'e OidContainerEntryType \<Rightarrow> (exn, bool) res" where
  "entry_gt t rhs = name_gt (oid_name (ent_id t)) (oid_name (ent_id rhs))"

text \<open>The conversion operator, for a conversion \<open>cast\<close> of the payload.\<close>

definition entry_convert :: "('e \<Rightarrow> 'f) \<Rightarrow> 'e OidContainerEntryType \<Rightarrow> 'f OidContainerEntryType" where
  "entry_convert cast t = entry_make (ent_id t) (cast (ent_entry t))"

definition set_identifier :: "OidType \<Rightarrow> 'e OidContainerEntryType \<Rightarrow> 'e OidContainerEntryType" where
  "set_identifier d t =
     t\<lparr>ent_id := set_ordinal (oid_ordinal d) (set_name (oid_name d) (ent_id t))\<rparr>"

definition set_entry :: "'e \<Rightarrow> 'e OidContainerEntryType \<Rightarrow> 'e OidContainerEntryType" where
  "set_entry e t = t\<lparr>ent_entry := e\<rparr>"

section \<open>OidContainer\<close>

datatype OP_RESPONSE =
    OP_NO_ERROR
  | OP_ORDINAL_USED
  | OP_NAME_USED
  | OP_ALLREADY_CONTAINS_ENTRY
  | OP_ORDINAL_OVERFLOW

record ('ix, 'e) OidContainer =
  entries :: "'e OidContainerEntryType list"
  name_index :: 'ix

definition OidContainer_empty :: "'ix boost \<Rightarrow> ('ix, 'e) OidContainer" where
  "OidContainer_empty L = \<lparr>entries = [], name_index = set_empty L\<rparr>"

text \<open>The key an element of the name index carries, read through its slot.\<close>

definition slot_name :: "('ix, 'e) OidContainer \<Rightarrow> nat \<Rightarrow> OidName" where
  "slot_name c i = entry_name (entries c ! i)"

text \<open>\<open>entry_type::operator<\<close> on slots, and the two calls of \<open>name_key_finder\<close>.\<close>

definition slot_lt :: "('ix, 'e) OidContainer \<Rightarrow> nat \<Rightarrow> nat \<Rightarrow> (exn, bool) res" where
  "slot_lt c i j = entry_lt (entries c ! i) (entries c ! j)"

definition name_key_finder_key_entry :: "('ix, 'e) OidContainer \<Rightarrow> OidName \<Rightarrow> nat \<Rightarrow> (exn, bool) res" where
  "name_key_finder_key_entry c name i = name_lt name (entry_name (entries c ! i))"

definition name_key_finder_entry_key :: "('ix, 'e) OidContainer \<Rightarrow> OidName \<Rightarrow> nat \<Rightarrow> (exn, bool) res" where
  "name_key_finder_entry_key c name i = name_lt (entry_name (entries c ! i)) name"

definition index_insert :: "'ix boost \<Rightarrow> ('ix, 'e) OidContainer \<Rightarrow> nat \<Rightarrow> (exn, unit, ('ix, 'e) OidContainer) sres" where
  "index_insert L c i =
     (case set_insert L (slot_lt c) i (name_index c) of
        Inl e \<Rightarrow> (Inl e, c)
      | Inr ix \<Rightarrow> (Inr (), c\<lparr>name_index := ix\<rparr>))"

definition index_find :: "'ix boost \<Rightarrow> ('ix, 'e) OidContainer \<Rightarrow> OidName \<Rightarrow> (exn, nat option) res" where
  "index_find L c name =
     set_find L (name_key_finder_key_entry c name) (name_key_finder_entry_key c name) (name_index c)"

text \<open>The loop of \<open>regen_name_index_\<close>, over the slots from the first to the last.\<close>

fun regen_slots :: "'ix boost \<Rightarrow> nat list \<Rightarrow> ('ix, 'e) OidContainer \<Rightarrow> (exn, unit, ('ix, 'e) OidContainer) sres" where
  "regen_slots L [] c = (Inr (), c)"
| "regen_slots L (i # is) c =
     (if entry_is_initialized (entries c ! i)
      then sbind (index_insert L c i) (\<lambda>_ c. regen_slots L is c)
      else regen_slots L is c)"

definition regen_name_index :: "'ix boost \<Rightarrow> ('ix, 'e) OidContainer \<Rightarrow> (exn, unit, ('ix, 'e) OidContainer) sres" where
  "regen_name_index L c = regen_slots L [0..<length (entries c)] c"

definition resize_if_needed :: "'ix boost \<Rightarrow> 'e \<Rightarrow> uint32 \<Rightarrow> ('ix, 'e) OidContainer
    \<Rightarrow> (exn, unit, ('ix, 'e) OidContainer) sres" where
  "resize_if_needed L e0 ordinal c =
     (let old_size = length (entries c) in
      if old_size < unat (ordinal + 1)
      then let c1 = c\<lparr>name_index := set_empty L\<rparr>;
               c2 = c1\<lparr>entries := entries c1 @ replicate (unat (ordinal + 1) - old_size) (entry_default e0)\<rparr>
           in if old_size \<noteq> 0 then regen_name_index L c2 else (Inr (), c2)
      else (Inr (), c))"

definition OidContainer_clear :: "'ix boost \<Rightarrow> ('ix, 'e) OidContainer \<Rightarrow> ('ix, 'e) OidContainer" where
  "OidContainer_clear L c = c\<lparr>name_index := set_empty L, entries := []\<rparr>"

definition OidContainer_copy :: "'ix boost \<Rightarrow> ('ix, 'e) OidContainer \<Rightarrow> (exn, unit, ('ix, 'e) OidContainer) sres" where
  "OidContainer_copy L rhs =
     regen_name_index L \<lparr>entries = entries rhs, name_index = set_empty L\<rparr>"

text \<open>Assignment; \<open>same\<close> says whether the two operands are one object.\<close>

definition OidContainer_assign :: "'ix boost \<Rightarrow> bool \<Rightarrow> ('ix, 'e) OidContainer \<Rightarrow> ('ix, 'e) OidContainer
    \<Rightarrow> (exn, unit, ('ix, 'e) OidContainer) sres" where
  "OidContainer_assign L same this oid =
     (if \<not> same
      then regen_name_index L (this\<lparr>name_index := set_empty L, entries := entries oid\<rparr>)
      else (Inr (), this))"

definition OidContainer_size :: "('ix, 'e) OidContainer \<Rightarrow> nat" where
  "OidContainer_size c = length (entries c)"

definition occupied_size :: "'ix boost \<Rightarrow> ('ix, 'e) OidContainer \<Rightarrow> nat" where
  "occupied_size L c = set_size L (name_index c)"

text \<open>The lookups return the slot of the entry they point to, \<open>None\<close> for a null pointer.\<close>

definition EntryAtordinal :: "('ix, 'e) OidContainer \<Rightarrow> uint32 \<Rightarrow> nat option" where
  "EntryAtordinal c ordinal =
     (if unat ordinal < length (entries c)
      then if entry_is_initialized (entries c ! unat ordinal) then Some (unat ordinal) else None
      else None)"

definition EntryWithName :: "'ix boost \<Rightarrow> ('ix, 'e) OidContainer \<Rightarrow> OidName \<Rightarrow> (exn, nat option) res" where
  "EntryWithName L c name_in = index_find L c name_in"

definition ContainsEither :: "'ix boost \<Rightarrow> ('ix, 'e) OidContainer \<Rightarrow> OidType \<Rightarrow> (exn, OP_RESPONSE) res" where
  "ContainsEither L c d =
     (if occupied_size L c = 0 then Inr OP_NO_ERROR
      else
        let ordinal_in_vector =
              (if OidContainer_size c < unat (oid_ordinal d) + 1 then False
               else entry_is_initialized (entries c ! unat (oid_ordinal d)))
        in ebind (index_find L c (oid_name d)) (\<lambda>it.
             let entry_name_used = (it \<noteq> None)
             in if ordinal_in_vector \<noteq> entry_name_used
                then if ordinal_in_vector then Inr OP_ORDINAL_USED else Inr OP_NAME_USED
                else if entry_name_used then Inr OP_ALLREADY_CONTAINS_ENTRY
                else Inr OP_NO_ERROR))"

text \<open>\<open>operator[]\<close> by name and by ordinal: the payload of the entry found.\<close>

definition at_name :: "'ix boost \<Rightarrow> ('ix, 'e) OidContainer \<Rightarrow> OidName \<Rightarrow> (exn, 'e option) res" where
  "at_name L c name =
     ebind (EntryWithName L c name) (\<lambda>p.
       Inr (case p of None \<Rightarrow> None | Some i \<Rightarrow> Some (ent_entry (entries c ! i))))"

definition at_ordinal :: "('ix, 'e) OidContainer \<Rightarrow> uint16 \<Rightarrow> 'e option" where
  "at_ordinal c ordinal =
     (case EntryAtordinal c (ucast ordinal) of
        None \<Rightarrow> None
      | Some i \<Rightarrow> Some (ent_entry (entries c ! i)))"

text \<open>Writing through a pointer to the payload of the entry in slot \<open>i\<close>.\<close>

definition store_entry :: "nat \<Rightarrow> 'e \<Rightarrow> ('ix, 'e) OidContainer \<Rightarrow> ('ix, 'e) OidContainer" where
  "store_entry i e c = c\<lparr>entries := (entries c)[i := set_entry e (entries c ! i)]\<rparr>"

definition SetEntry :: "'ix boost \<Rightarrow> 'e \<Rightarrow> 'e OidContainerEntryType \<Rightarrow> ('ix, 'e) OidContainer
    \<Rightarrow> (exn, OP_RESPONSE, ('ix, 'e) OidContainer) sres" where
  "SetEntry L e0 t c =
     sbind (resize_if_needed L e0 (ucast (entry_ordinal t)) c) (\<lambda>_ c.
       case ContainsEither L c (ent_id t) of
         Inl e \<Rightarrow> (Inl e, c)
       | Inr ret \<Rightarrow>
           if ret \<noteq> OP_NO_ERROR then (Inr ret, c)
           else let c1 = c\<lparr>entries := (entries c)[unat (entry_ordinal t) := t]\<rparr>
                in sbind (index_insert L c1 (unat (entry_ordinal t))) (\<lambda>_ c. (Inr OP_NO_ERROR, c)))"

definition SetEntry_id :: "'ix boost \<Rightarrow> 'e \<Rightarrow> OidType \<Rightarrow> 'e \<Rightarrow> ('ix, 'e) OidContainer
    \<Rightarrow> (exn, OP_RESPONSE, ('ix, 'e) OidContainer) sres" where
  "SetEntry_id L e0 d e c = SetEntry L e0 (entry_make d e) c"

text \<open>The loop of \<open>SlicingPopulate\<close>; the responses of \<open>SetEntry\<close> are dropped, as in the source.\<close>

fun slice_slots :: "'ix boost \<Rightarrow> ('e \<Rightarrow> 'f) \<Rightarrow> 'f \<Rightarrow> ('ix, 'e) OidContainer \<Rightarrow> nat list
    \<Rightarrow> ('ix, 'f) OidContainer \<Rightarrow> (exn, unit, ('ix, 'f) OidContainer) sres" where
  "slice_slots L cast e0 c [] target = (Inr (), target)"
| "slice_slots L cast e0 c (i # is) target =
     (case EntryAtordinal c (of_nat i) of
        None \<Rightarrow> slice_slots L cast e0 c is target
      | Some j \<Rightarrow>
          sbind (SetEntry L e0 (entry_convert cast (entries c ! j)) target) (\<lambda>_ target.
            slice_slots L cast e0 c is target))"

definition SlicingPopulate :: "'ix boost \<Rightarrow> ('e \<Rightarrow> 'f) \<Rightarrow> 'f \<Rightarrow> ('ix, 'e) OidContainer
    \<Rightarrow> ('ix, 'f) OidContainer \<Rightarrow> (exn, unit, ('ix, 'f) OidContainer) sres" where
  "SlicingPopulate L cast e0 c target =
     slice_slots L cast e0 c [0..<OidContainer_size c] (OidContainer_clear L target)"

end
