(* ===== verification/Oid_Names.thy ===== *)
theory Oid_Names
  imports Oid_Container
begin

text \<open>
  Facts about constrained strings and the contract of the Boost operations the container
  calls, with a reference implementation that meets the contract.
\<close>

section \<open>Well-formed names\<close>

text \<open>
  A good name is what the string constructor leaves behind for a non-empty string: a
  non-empty run of characters, terminated inside the array and padded with NUL bytes.
\<close>

definition good_name :: "OidName \<Rightarrow> bool" where
  "good_name n \<longleftrightarrow>
     (let p = takeWhile (\<lambda>c. c \<noteq> NUL) (str_of n)
      in p \<noteq> [] \<and> length p < oid_name_length \<and>
         str_of n = p @ replicate (oid_name_length - length p) NUL)"

lemma good_nameE:
  assumes "good_name n"
  obtains p where "p \<noteq> []" "length p < oid_name_length" "NUL \<notin> set p"
    "str_of n = p @ replicate (oid_name_length - length p) NUL"
proof -
  let ?p = "takeWhile (\<lambda>c. c \<noteq> NUL) (str_of n)"
  have "NUL \<notin> set ?p" by (auto dest: set_takeWhileD)
  with assms that [of ?p] show ?thesis by (auto simp: good_name_def Let_def)
qed

lemma good_name_initialized [simp, intro]: "good_name n \<Longrightarrow> name_is_initialized n"
proof (erule good_nameE)
  fix p assume "p \<noteq> []" "NUL \<notin> set p" "str_of n = p @ replicate (oid_name_length - length p) NUL"
  then show "name_is_initialized n"
    by (cases p) (auto simp: name_is_initialized_def)
qed

lemma good_name_length: "good_name n \<Longrightarrow> length (str_of n) = oid_name_length"
  by (erule good_nameE) simp

lemma strncmp_defined:
  "n \<le> length as \<Longrightarrow> n \<le> length bs \<Longrightarrow> \<exists>r. strncmp n as bs = Some r"
  by (induction n as bs rule: strncmp.induct) auto

lemma strncmp_refl: "n \<le> length as \<Longrightarrow> strncmp n as as = Some 0"
proof (induction n arbitrary: as)
  case (Suc n)
  then show ?case by (cases as) auto
qed simp

lemma of_char_diff_0: "int (of_char a) - int (of_char b) = 0 \<longleftrightarrow> a = b"
  by simp

lemma strncmp_swap: "strncmp n as bs = Some r \<Longrightarrow> strncmp n bs as = Some (- r)"
  by (induction n as bs rule: strncmp.induct) (auto split: if_splits)

lemma strncmp_0_prefix:
  "strncmp n as bs = Some 0 \<Longrightarrow> n \<le> length as \<Longrightarrow> n \<le> length bs \<Longrightarrow>
     takeWhile (\<lambda>c. c \<noteq> NUL) (take n as) = takeWhile (\<lambda>c. c \<noteq> NUL) (take n bs)"
  by (induction n as bs rule: strncmp.induct) (auto split: if_splits simp: of_char_diff_0)

lemma good_name_eqI:
  assumes "good_name a" "good_name b"
    and "takeWhile (\<lambda>c. c \<noteq> NUL) (str_of a) = takeWhile (\<lambda>c. c \<noteq> NUL) (str_of b)"
  shows "a = b"
proof -
  from assms have "str_of a = str_of b" unfolding good_name_def Let_def by metis
  then show ?thesis by (simp add: OidConstrainedString.expand)
qed

lemma strncmp_good_0:
  assumes "good_name a" "good_name b"
  shows "strncmp oid_name_length (str_of a) (str_of b) = Some 0 \<longleftrightarrow> a = b"
proof
  assume "strncmp oid_name_length (str_of a) (str_of b) = Some 0"
  from strncmp_0_prefix [OF this]
  have "takeWhile (\<lambda>c. c \<noteq> NUL) (str_of a) = takeWhile (\<lambda>c. c \<noteq> NUL) (str_of b)"
    using assms by (simp add: good_name_length)
  with assms show "a = b" by (rule good_name_eqI)
next
  assume "a = b"
  with assms show "strncmp oid_name_length (str_of a) (str_of b) = Some 0"
    by (simp add: strncmp_refl good_name_length)
qed

text \<open>On good names the comparisons never throw, and they are those of one strict order.\<close>

lemma name_compare_good:
  assumes "good_name a" "good_name b"
  obtains r where "\<And>P. name_compare P a b = Inr (P r)" "\<And>P. name_compare P b a = Inr (P (- r))"
    "r = 0 \<longleftrightarrow> a = b"
proof -
  from assms obtain r where r: "strncmp oid_name_length (str_of a) (str_of b) = Some r"
    using strncmp_defined [of oid_name_length "str_of a" "str_of b"] by (auto simp: good_name_length)
  have "name_compare P a b = Inr (P r)" "name_compare P b a = Inr (P (- r))" for P
    using r strncmp_swap [OF r] assms by (simp_all add: name_compare_def name_c_str_def)
  moreover from r strncmp_good_0 [OF assms] have "r = 0 \<longleftrightarrow> a = b" by simp
  ultimately show ?thesis using that by blast
qed

lemma name_lt_good:
  assumes "good_name a" "good_name b"
  obtains l g where "name_lt a b = Inr l" "name_lt b a = Inr g" "\<not> l \<and> \<not> g \<longleftrightarrow> a = b" "\<not> (l \<and> g)"
  using name_compare_good [OF assms] unfolding name_lt_def
  by (metis (mono_tags, lifting) add.inverse_neutral linorder_less_linear neg_less_0_iff_less order_less_asym)

lemma name_eq_good: "good_name a \<Longrightarrow> good_name b \<Longrightarrow> name_eq a b = Inr (a = b)"
  by (erule (1) name_compare_good) (simp add: name_eq_def)

section \<open>The contract of Boost's case conversion and intrusive set\<close>

text \<open>
  \<open>boost::to_lower\<close> converts a string character by character, never produces or removes a
  NUL, leaves what is lower case alone, and converting twice changes nothing more. For the intrusive set, \<open>elems\<close> gives the
  slots it links and \<open>ordered nm\<close> says that it was built by insertions that read the keys
  \<open>nm\<close>; that the keys of linked elements do not change is what the set requires of its user.
  The laws cover what the documentation promises when the comparison is a strict order that
  does not throw, so for good names only.
\<close>

definition lower_case :: string where
  "lower_case = ''abcdefghijklmnopqrstuvwxyz0123456789_''"

locale boost_library =
  fixes L :: "'ix boost"
    and elems :: "'ix \<Rightarrow> nat set"
    and ordered :: "(nat \<Rightarrow> OidName) \<Rightarrow> 'ix \<Rightarrow> bool"
  assumes to_lower_length: "length (to_lower L s) = length s"
    and to_lower_NUL: "takeWhile (\<lambda>c. c \<noteq> NUL) (to_lower L s) = to_lower L (takeWhile (\<lambda>c. c \<noteq> NUL) s)"
    and to_lower_idem: "to_lower L (to_lower L s) = to_lower L s"
    and to_lower_fix: "set s \<subseteq> set lower_case \<Longrightarrow> to_lower L s = s"
    and elems_empty: "elems (set_empty L) = {}"
    and ordered_empty: "ordered nm (set_empty L)"
    and ordered_cong: "ordered nm ix \<Longrightarrow> (\<And>j. j \<in> elems ix \<Longrightarrow> nm' j = nm j) \<Longrightarrow> ordered nm' ix"
    and set_finite: "ordered nm ix \<Longrightarrow> finite (elems ix)"
    and set_size: "ordered nm ix \<Longrightarrow> set_size L ix = card (elems ix)"
    and set_insert: "ordered nm ix \<Longrightarrow> (\<And>j. j \<in> insert i (elems ix) \<Longrightarrow> good_name (nm j)) \<Longrightarrow>
      (\<And>j. j \<in> elems ix \<Longrightarrow> nm j \<noteq> nm i) \<Longrightarrow>
      \<exists>ix'. set_insert L (\<lambda>a b. name_lt (nm a) (nm b)) i ix = Inr ix' \<and>
            elems ix' = insert i (elems ix) \<and> ordered nm ix'"
    and set_find: "ordered nm ix \<Longrightarrow> (\<And>j. j \<in> elems ix \<Longrightarrow> good_name (nm j)) \<Longrightarrow> good_name key \<Longrightarrow>
      inj_on nm (elems ix) \<Longrightarrow>
      \<exists>r. set_find L (\<lambda>j. name_lt key (nm j)) (\<lambda>j. name_lt (nm j) key) ix = Inr r \<and>
          (\<forall>j. r = Some j \<longleftrightarrow> j \<in> elems ix \<and> nm j = key)"

subsection \<open>Names made from strings\<close>

definition valid_name :: "string \<Rightarrow> bool" where
  "valid_name s \<longleftrightarrow> s \<noteq> [] \<and> NUL \<notin> set s \<and> length s < oid_name_length"

lemma valid_name_code:
  "valid_name s \<longleftrightarrow> s \<noteq> [] \<and> (\<forall>c \<in> set s. c \<noteq> NUL) \<and> length s < 32"
  by (auto simp: valid_name_def oid_name_length_def)

definition name_of :: "'ix boost \<Rightarrow> string \<Rightarrow> OidName" where
  "name_of L s = OCS (to_lower L s @ replicate (oid_name_length - length s) NUL)"

context boost_library
begin

lemma to_lower_valid:
  assumes "valid_name s"
  shows "NUL \<notin> set (to_lower L s)" "to_lower L s \<noteq> []" "valid_name (to_lower L s)"
proof -
  have "takeWhile (\<lambda>c. c \<noteq> NUL) s = s"
    using assms by (auto simp: valid_name_def takeWhile_eq_all_conv)
  with to_lower_NUL [of s] have "takeWhile (\<lambda>c. c \<noteq> NUL) (to_lower L s) = to_lower L s"
    by (simp only:)
  then have "\<forall>c \<in> set (to_lower L s). c \<noteq> NUL" by (simp only: takeWhile_eq_all_conv)
  then show nul: "NUL \<notin> set (to_lower L s)" by auto
  show ne: "to_lower L s \<noteq> []"
    using assms to_lower_length [of s] by (auto simp: valid_name_def)
  show "valid_name (to_lower L s)"
    using assms nul ne to_lower_length [of s] by (simp add: valid_name_def)
qed

lemma construct_str_valid:
  assumes "valid_name s"
  shows "construct_str L s = Inr (name_of L s)"
proof -
  have "takeWhile (\<lambda>c. c \<noteq> NUL) (to_lower L s) = to_lower L s"
    using to_lower_valid(1) [OF assms] by (simp add: takeWhile_eq_all_conv) (metis)
  then have "strncpy oid_name_length (to_lower L s) =
      to_lower L s @ replicate (oid_name_length - length s) NUL"
    unfolding strncpy_def using assms to_lower_length [of s]
    by (simp only: take_append) (simp add: valid_name_def min_def)
  then show ?thesis
    using assms by (simp add: construct_str_def name_of_def valid_name_def Let_def)
qed

lemma good_name_of: "valid_name s \<Longrightarrow> good_name (name_of L s)"
proof -
  assume v: "valid_name s"
  have "takeWhile (\<lambda>c. c \<noteq> NUL) (to_lower L s @ replicate n NUL) = to_lower L s" for n
    using to_lower_valid(1) [OF v] by (subst takeWhile_append2) (auto simp: takeWhile_replicate)
  then show ?thesis
    using v to_lower_length [of s] to_lower_valid(2) [OF v]
    by (simp add: good_name_def name_of_def valid_name_def Let_def)
qed

lemma name_of_eq_iff:
  assumes "valid_name s" "valid_name t"
  shows "name_of L s = name_of L t \<longleftrightarrow> to_lower L s = to_lower L t"
proof
  assume eq: "name_of L s = name_of L t"
  have tw: "takeWhile (\<lambda>c. c \<noteq> NUL) (str_of (name_of L u)) = to_lower L u" if "valid_name u" for u
    unfolding name_of_def OidConstrainedString.sel
    using to_lower_valid(1) [OF that] by (subst takeWhile_append2) (auto simp: takeWhile_replicate)
  from eq tw [OF assms(1)] tw [OF assms(2)] show "to_lower L s = to_lower L t" by simp
next
  assume eq: "to_lower L s = to_lower L t"
  then have "length s = length t" by (metis to_lower_length)
  with eq show "name_of L s = name_of L t" by (simp add: name_of_def)
qed

lemma Oid_valid:
  fixes k :: uint16
  assumes "valid_name s"
  shows "Oid L s (ucast k) = Inr \<lparr>oid_name = name_of L s, oid_ordinal = k\<rparr>"
proof -
  have "\<not> (ucast k :: uint32) > OidType_MAX"
    using unat_uint16_le [of k] by (simp add: OidType_MAX_def word_less_nat_alt)
  moreover have "ucast (ucast k :: uint32) = k"
    by (simp flip: unat_eq_nat_uint add: word_unat_eq_iff width_simps)
  ultimately show ?thesis
    using construct_str_valid [OF assms] by (simp add: Oid_def OidConstrainedString_string_def)
qed

end

section \<open>A reference implementation of the contract\<close>

text \<open>
  A set as the list of its elements, searched from the front with the two comparisons, and
  the case conversion of the C locale.
\<close>

definition ascii_lower :: "char \<Rightarrow> char" where
  "ascii_lower c =
     (if of_char CHR ''A'' \<le> (of_char c :: nat) \<and> (of_char c :: nat) \<le> of_char CHR ''Z''
      then char_of ((of_char c :: nat) + 32) else c)"

fun scan_equiv :: "(nat \<Rightarrow> (exn, bool) res) \<Rightarrow> (nat \<Rightarrow> (exn, bool) res) \<Rightarrow> nat list \<Rightarrow> (exn, nat option) res" where
  "scan_equiv kl lk [] = Inr None"
| "scan_equiv kl lk (j # js) =
     ebind (kl j) (\<lambda>a. ebind (lk j) (\<lambda>b.
       if \<not> a \<and> \<not> b then Inr (Some j) else scan_equiv kl lk js))"

definition list_insert :: "(nat \<Rightarrow> nat \<Rightarrow> (exn, bool) res) \<Rightarrow> nat \<Rightarrow> nat list \<Rightarrow> (exn, nat list) res" where
  "list_insert lt i ix =
     ebind (scan_equiv (\<lambda>j. lt i j) (\<lambda>j. lt j i) ix) (\<lambda>r.
       Inr (case r of None \<Rightarrow> ix @ [i] | Some j \<Rightarrow> ix))"

definition list_boost :: "nat list boost" where
  "list_boost =
     \<lparr>to_lower = map ascii_lower, set_empty = [], set_insert = list_insert,
      set_find = scan_equiv, set_size = length\<rparr>"

lemma scan_equiv_good:
  assumes "\<And>j. j \<in> set js \<Longrightarrow> good_name (nm j)" "good_name key"
  shows "scan_equiv (\<lambda>j. name_lt key (nm j)) (\<lambda>j. name_lt (nm j) key) js =
           Inr (find (\<lambda>j. nm j = key) js)"
  using assms
proof (induction js)
  case (Cons j js)
  then have "good_name key" "good_name (nm j)" by simp_all
  then obtain l g where "name_lt key (nm j) = Inr l" "name_lt (nm j) key = Inr g"
    "\<not> l \<and> \<not> g \<longleftrightarrow> key = nm j"
    by (rule name_lt_good)
  with Cons show ?case by auto
qed simp

lemma find_inj_on:
  "inj_on nm (set js) \<Longrightarrow> find (\<lambda>j. nm j = key) js = Some j \<longleftrightarrow> j \<in> set js \<and> nm j = key"
  by (induction js) (auto simp: inj_on_def)

lemma of_char_ascii_lower:
  "(of_char (ascii_lower c) :: nat) =
     (if 65 \<le> (of_char c :: nat) \<and> (of_char c :: nat) \<le> 90 then of_char c + 32 else of_char c)"
  by (simp add: ascii_lower_def)

lemma ascii_lower_NUL [simp]: "ascii_lower c = NUL \<longleftrightarrow> c = NUL"
proof -
  have "d = NUL \<longleftrightarrow> (of_char d :: nat) = 0" for d
  proof -
    have "(of_char d :: nat) = of_char NUL \<longleftrightarrow> d = NUL" by (rule of_char_eq_iff)
    then show ?thesis by simp
  qed
  then show ?thesis using of_char_ascii_lower [of c] by (simp split: if_splits)
qed

lemma ascii_lower_idem [simp]: "ascii_lower (ascii_lower c) = ascii_lower c"
proof -
  have "(of_char (ascii_lower (ascii_lower c)) :: nat) = of_char (ascii_lower c)"
    by (subst of_char_ascii_lower) (simp add: of_char_ascii_lower)
  then show ?thesis by (simp only: of_char_eq_iff)
qed

lemma ascii_lower_fix: "set s \<subseteq> set lower_case \<Longrightarrow> map ascii_lower s = s"
proof (induction s)
  case (Cons c s)
  then have "c \<in> set lower_case" by simp
  then have "ascii_lower c = c" by (auto simp: lower_case_def ascii_lower_def)
  with Cons show ?case by simp
qed simp

lemma list_boost_library:
  "boost_library list_boost set (\<lambda>nm ix. distinct ix)"
proof unfold_locales
  fix nm :: "nat \<Rightarrow> OidName" and ix i
  assume d: "distinct ix" and g: "\<And>j. j \<in> insert i (set ix) \<Longrightarrow> good_name (nm j)"
    and n: "\<And>j. j \<in> set ix \<Longrightarrow> nm j \<noteq> nm i"
  have "scan_equiv (\<lambda>j. name_lt (nm i) (nm j)) (\<lambda>j. name_lt (nm j) (nm i)) ix =
      Inr (find (\<lambda>j. nm j = nm i) ix)"
    using g by (intro scan_equiv_good) auto
  moreover from n have "find (\<lambda>j. nm j = nm i) ix = None" by (auto simp: find_None_iff)
  moreover from n have "i \<notin> set ix" by blast
  ultimately show "\<exists>ix'. set_insert list_boost (\<lambda>a b. name_lt (nm a) (nm b)) i ix = Inr ix' \<and>
      set ix' = insert i (set ix) \<and> distinct ix'"
    using d by (simp add: list_boost_def list_insert_def)
next
  fix nm :: "nat \<Rightarrow> OidName" and ix key
  assume "\<And>j. j \<in> set ix \<Longrightarrow> good_name (nm j)" "good_name key" "inj_on nm (set ix)"
  then show "\<exists>r. set_find list_boost (\<lambda>j. name_lt key (nm j)) (\<lambda>j. name_lt (nm j) key) ix = Inr r \<and>
      (\<forall>j. r = Some j \<longleftrightarrow> j \<in> set ix \<and> nm j = key)"
    by (simp add: list_boost_def scan_equiv_good find_inj_on)
qed (simp_all add: list_boost_def distinct_card takeWhile_map comp_def ascii_lower_fix)

interpretation lst: boost_library list_boost set "\<lambda>nm ix. distinct ix"
  by (rule list_boost_library)

end
