(* ===== verification/Oid_Container_Correct.thy ===== *)
theory Oid_Container_Correct
  imports Oid_Names
begin

text \<open>
  Correctness of the identifier container: its representation invariant, the abstract map it
  implements, and the refinement of every operation, for any Boost library that meets
  \<open>boost_library\<close>. The contract that the clients of the container rely on is the locale
  \<open>oid_table\<close>.
\<close>

section \<open>Invariant and abstraction\<close>

definition occupied :: "('ix, 'e) OidContainer \<Rightarrow> nat set" where
  "occupied c = {i. i < length (entries c) \<and> entry_is_initialized (entries c ! i)}"

text \<open>
  The vector: every occupied slot holds a good name and its own number as ordinal, and no two
  occupied slots share a name.
\<close>

definition slots_ok :: "('ix, 'e) OidContainer \<Rightarrow> bool" where
  "slots_ok c \<longleftrightarrow>
     (\<forall>i \<in> occupied c. good_name (slot_name c i) \<and> unat (entry_ordinal (entries c ! i)) = i) \<and>
     inj_on (slot_name c) (occupied c)"

text \<open>The container: the name index links exactly the occupied slots.\<close>

definition oid_inv :: "('ix \<Rightarrow> nat set) \<Rightarrow> ((nat \<Rightarrow> OidName) \<Rightarrow> 'ix \<Rightarrow> bool) \<Rightarrow> ('ix, 'e) OidContainer \<Rightarrow> bool" where
  "oid_inv elems ordered c \<longleftrightarrow>
     slots_ok c \<and> elems (name_index c) = occupied c \<and> ordered (slot_name c) (name_index c)"

text \<open>The abstract container: a partial map from ordinals to names and payloads.\<close>

definition oid_abs :: "('ix, 'e) OidContainer \<Rightarrow> nat \<rightharpoonup> OidName \<times> 'e" where
  "oid_abs c i = (if i \<in> occupied c then Some (slot_name c i, ent_entry (entries c ! i)) else None)"

definition spec_contains :: "(nat \<rightharpoonup> OidName \<times> 'e) \<Rightarrow> OidName \<Rightarrow> nat \<Rightarrow> OP_RESPONSE" where
  "spec_contains m n k =
     (case (k \<in> dom m, n \<in> fst ` ran m) of
        (True, False) \<Rightarrow> OP_ORDINAL_USED
      | (False, True) \<Rightarrow> OP_NAME_USED
      | (True, True) \<Rightarrow> OP_ALLREADY_CONTAINS_ENTRY
      | (False, False) \<Rightarrow> OP_NO_ERROR)"

definition spec_set :: "(nat \<rightharpoonup> OidName \<times> 'e) \<Rightarrow> OidName \<Rightarrow> nat \<Rightarrow> 'e \<Rightarrow> (nat \<rightharpoonup> OidName \<times> 'e)" where
  "spec_set m n k e = (if spec_contains m n k = OP_NO_ERROR then m(k \<mapsto> (n, e)) else m)"

lemma oid_abs_code [code]:
  "oid_abs c i =
     (if i < length (entries c) \<and> entry_is_initialized (entries c ! i)
      then Some (slot_name c i, ent_entry (entries c ! i)) else None)"
  by (simp add: oid_abs_def occupied_def)

lemma spec_contains_cases:
  "spec_contains m n k =
     (if k \<in> dom m then if n \<in> fst ` ran m then OP_ALLREADY_CONTAINS_ENTRY else OP_ORDINAL_USED
      else if n \<in> fst ` ran m then OP_NAME_USED else OP_NO_ERROR)"
  by (simp add: spec_contains_def)

lemma occupied_finite [simp]: "finite (occupied c)"
  by (simp add: occupied_def)

lemma occupied_name_index [simp]: "occupied (c\<lparr>name_index := ix\<rparr>) = occupied c"
  by (simp add: occupied_def)

lemma slot_name_name_index [simp]: "slot_name (c\<lparr>name_index := ix\<rparr>) = slot_name c"
  by (simp add: slot_name_def fun_eq_iff)

lemma slots_ok_name_index [simp]: "slots_ok (c\<lparr>name_index := ix\<rparr>) = slots_ok c"
  by (simp add: slots_ok_def)

lemma oid_abs_name_index [simp]: "oid_abs (c\<lparr>name_index := ix\<rparr>) = oid_abs c"
  by (simp add: oid_abs_def fun_eq_iff)

lemma dom_oid_abs [simp]: "dom (oid_abs c) = occupied c"
  by (auto simp: oid_abs_def dom_def)

lemma names_oid_abs: "fst ` ran (oid_abs c) = slot_name c ` occupied c"
  by (force simp: oid_abs_def ran_def image_def)

lemma slot_lt_names: "slot_lt c = (\<lambda>a b. name_lt (slot_name c a) (slot_name c b))"
  by (simp add: fun_eq_iff slot_lt_def entry_lt_def slot_name_def entry_name_def)

lemma index_find_names:
  "index_find L c key =
     set_find L (\<lambda>j. name_lt key (slot_name c j)) (\<lambda>j. name_lt (slot_name c j) key) (name_index c)"
proof -
  have "name_key_finder_key_entry c key = (\<lambda>j. name_lt key (slot_name c j))"
    "name_key_finder_entry_key c key = (\<lambda>j. name_lt (slot_name c j) key)"
    by (simp_all add: fun_eq_iff name_key_finder_key_entry_def name_key_finder_entry_key_def
        slot_name_def)
  then show ?thesis by (simp add: index_find_def)
qed

lemma entry_default_initialized [simp]: "\<not> entry_is_initialized (entry_default e0)"
  by (simp add: entry_is_initialized_def entry_default_def OidType_default_def
      OidConstrainedString_default_def name_is_initialized_def)

lemma good_entry_initialized: "good_name (entry_name t) \<Longrightarrow> entry_is_initialized t"
  by (simp add: entry_is_initialized_def entry_name_def)

text \<open>Appending default entries changes nothing but the size.\<close>

lemma nth_append_default:
  "i < length (entries c) + n \<Longrightarrow>
     (entries c @ replicate n (entry_default e0)) ! i =
       (if i < length (entries c) then entries c ! i else entry_default e0)"
  by (simp add: nth_append)

lemma occupied_append_default:
  "occupied (c\<lparr>entries := entries c @ replicate n (entry_default e0)\<rparr>) = occupied c"
  by (auto simp: occupied_def nth_append_default split: if_splits)

lemma slot_name_append_default:
  "i \<in> occupied c \<Longrightarrow> slot_name (c\<lparr>entries := entries c @ replicate n (entry_default e0)\<rparr>) i = slot_name c i"
  by (simp add: slot_name_def occupied_def nth_append)

lemma slots_ok_append_default:
  assumes "slots_ok c"
  shows "slots_ok (c\<lparr>entries := entries c @ replicate n (entry_default e0)\<rparr>)" (is "slots_ok ?c")
proof -
  have "entries ?c ! i = entries c ! i" if "i \<in> occupied c" for i
    using that by (simp add: occupied_def nth_append)
  moreover have "inj_on (slot_name ?c) (occupied c) \<longleftrightarrow> inj_on (slot_name c) (occupied c)"
    by (rule inj_on_cong) (rule slot_name_append_default)
  ultimately show ?thesis
    using assms by (auto simp: slots_ok_def occupied_append_default slot_name_append_default)
qed

lemma oid_abs_append_default:
  "oid_abs (c\<lparr>entries := entries c @ replicate n (entry_default e0)\<rparr>) = oid_abs c"
proof
  fix i
  show "oid_abs (c\<lparr>entries := entries c @ replicate n (entry_default e0)\<rparr>) i = oid_abs c i"
    unfolding oid_abs_def occupied_append_default
    by (simp add: slot_name_append_default) (simp add: occupied_def nth_append)
qed

text \<open>Writing an initialised entry into a slot of the vector.\<close>

lemma occupied_update:
  "k < length (entries c) \<Longrightarrow> entry_is_initialized t \<Longrightarrow>
     occupied (c\<lparr>entries := (entries c)[k := t]\<rparr>) = insert k (occupied c)"
  by (auto simp: occupied_def nth_list_update split: if_splits)

lemma slot_name_update:
  "k < length (entries c) \<Longrightarrow>
     slot_name (c\<lparr>entries := (entries c)[k := t]\<rparr>) = (slot_name c)(k := entry_name t)"
  by (auto simp: slot_name_def fun_eq_iff nth_list_update)

lemma slots_ok_update:
  assumes "slots_ok c" "k < length (entries c)" "k \<notin> occupied c" "good_name (entry_name t)"
    "unat (entry_ordinal t) = k" "entry_name t \<notin> slot_name c ` occupied c"
  shows "slots_ok (c\<lparr>entries := (entries c)[k := t]\<rparr>)"
proof -
  let ?c = "c\<lparr>entries := (entries c)[k := t]\<rparr>"
  have occ: "occupied ?c = insert k (occupied c)"
    using assms(2,4) by (simp add: occupied_update good_entry_initialized)
  have nm: "slot_name ?c k = entry_name t" "\<And>i. i \<in> occupied c \<Longrightarrow> slot_name ?c i = slot_name c i"
    using assms(2,3) by (auto simp: slot_name_update)
  have ord: "unat (entry_ordinal (entries ?c ! i)) = i" if "i \<in> occupied ?c" for i
    using that assms(1,2,3,5) unfolding occ by (cases "i = k") (auto simp: slots_ok_def)
  have "inj_on (slot_name ?c) (occupied c)"
    using assms(1) by (simp add: slots_ok_def nm cong: inj_on_cong)
  moreover have "slot_name ?c k \<notin> slot_name ?c ` occupied c"
    using assms(6) nm by force
  ultimately have "inj_on (slot_name ?c) (occupied ?c)"
    using assms(3) unfolding occ by (subst inj_on_insert) simp
  moreover have "good_name (slot_name ?c i)" if "i \<in> occupied ?c" for i
    using that assms(1,4) nm unfolding occ by (auto simp: slots_ok_def)
  ultimately show ?thesis using ord by (simp add: slots_ok_def)
qed

lemma oid_abs_update:
  "k < length (entries c) \<Longrightarrow> entry_is_initialized t \<Longrightarrow>
     oid_abs (c\<lparr>entries := (entries c)[k := t]\<rparr>) = (oid_abs c)(k \<mapsto> (entry_name t, ent_entry t))"
  by (auto simp: oid_abs_def fun_eq_iff occupied_update slot_name_update nth_list_update)


section \<open>Refinement, for any library that meets the contract\<close>

context boost_library
begin

lemma index_insert_ok:
  assumes "slots_ok c" "ordered (slot_name c) (name_index c)"
    and "elems (name_index c) \<subseteq> occupied c" "i \<in> occupied c" "i \<notin> elems (name_index c)"
  obtains ix where "index_insert L c i = (Inr (), c\<lparr>name_index := ix\<rparr>)"
    "elems ix = insert i (elems (name_index c))" "ordered (slot_name c) ix"
proof -
  from assms have "good_name (slot_name c j)" if "j \<in> insert i (elems (name_index c))" for j
    using that by (auto simp: slots_ok_def)
  moreover have "slot_name c j \<noteq> slot_name c i" if "j \<in> elems (name_index c)" for j
    using that assms by (metis inj_onD slots_ok_def subsetD)
  ultimately obtain ix where
    "set_insert L (\<lambda>a b. name_lt (slot_name c a) (slot_name c b)) i (name_index c) = Inr ix"
    "elems ix = insert i (elems (name_index c))" "ordered (slot_name c) ix"
    using set_insert [OF assms(2)] by blast
  then show ?thesis by (intro that [of ix]) (simp_all add: index_insert_def slot_lt_names)
qed

lemma regen_slots_ok:
  assumes "slots_ok c" "ordered (slot_name c) (name_index c)" "distinct is"
    and "elems (name_index c) \<subseteq> occupied c" "elems (name_index c) \<inter> set is = {}"
    and "set is \<subseteq> {..<length (entries c)}"
  shows "\<exists>ix. regen_slots L is c = (Inr (), c\<lparr>name_index := ix\<rparr>) \<and>
    elems ix = elems (name_index c) \<union> (occupied c \<inter> set is) \<and> ordered (slot_name c) ix"
  using assms
proof (induction "is" arbitrary: c)
  case Nil
  then show ?case by (intro exI [of _ "name_index c"]) simp
next
  case (Cons i "is")
  show ?case
  proof (cases "entry_is_initialized (entries c ! i)")
    case True
    with Cons.prems have i: "i \<in> occupied c" by (auto simp: occupied_def)
    with Cons.prems obtain ix where ix: "index_insert L c i = (Inr (), c\<lparr>name_index := ix\<rparr>)"
      "elems ix = insert i (elems (name_index c))" "ordered (slot_name c) ix"
      using index_insert_ok [of c i] by auto
    have "\<exists>ix'. regen_slots L is (c\<lparr>name_index := ix\<rparr>) = (Inr (), (c\<lparr>name_index := ix\<rparr>)\<lparr>name_index := ix'\<rparr>) \<and>
      elems ix' = elems ix \<union> (occupied c \<inter> set is) \<and> ordered (slot_name c) ix'"
      using Cons.IH [of "c\<lparr>name_index := ix\<rparr>"] Cons.prems ix i by auto
    with True ix i show ?thesis by auto
  next
    case False
    then have "i \<notin> occupied c" by (simp add: occupied_def)
    with False Cons.IH [of c] Cons.prems show ?thesis by auto
  qed
qed

lemma regen_name_index_ok:
  assumes "slots_ok c" "name_index c = set_empty L"
  obtains ix where "regen_name_index L c = (Inr (), c\<lparr>name_index := ix\<rparr>)"
    "oid_inv elems ordered (c\<lparr>name_index := ix\<rparr>)"
proof -
  have "occupied c \<inter> set [0..<length (entries c)] = occupied c"
    by (auto simp: occupied_def)
  with regen_slots_ok [of c "[0..<length (entries c)]"] assms obtain ix where
    "regen_slots L [0..<length (entries c)] c = (Inr (), c\<lparr>name_index := ix\<rparr>)"
    "elems ix = occupied c" "ordered (slot_name c) ix"
    by (auto simp: elems_empty ordered_empty atLeast0LessThan)
  with assms show ?thesis
    by (intro that [of ix]) (simp_all add: regen_name_index_def oid_inv_def)
qed

lemma resize_if_needed_ok:
  fixes k :: uint16
  assumes "oid_inv elems ordered c"
  obtains c' where "resize_if_needed L e0 (ucast k) c = (Inr (), c')" "oid_inv elems ordered c'"
    "entries c' = entries c @ replicate (Suc (unat k) - length (entries c)) (entry_default e0)"
    "oid_abs c' = oid_abs c"
proof (cases "length (entries c) < Suc (unat k)")
  case True
  let ?d = "c\<lparr>name_index := set_empty L\<rparr>"
  let ?c = "?d\<lparr>entries := entries ?d @ replicate (Suc (unat k) - length (entries c)) (entry_default e0)\<rparr>"
  have ok: "slots_ok ?c"
    using assms by (intro slots_ok_append_default) (simp add: oid_inv_def)
  have abs: "oid_abs (?c\<lparr>name_index := ix\<rparr>) = oid_abs c" "oid_abs ?c = oid_abs c" for ix
    by (simp_all only: oid_abs_append_default oid_abs_name_index)
  have eq: "resize_if_needed L e0 (ucast k) c =
    (if length (entries c) \<noteq> 0 then regen_name_index L ?c else (Inr (), ?c))"
    using True by (simp add: resize_if_needed_def Let_def)
  show ?thesis
  proof (cases "entries c = []")
    case True
    then have "occupied c = {}" by (simp add: occupied_def)
    then have "occupied ?c = {}" by (simp only: occupied_append_default occupied_name_index)
    with ok have "oid_inv elems ordered ?c"
      by (simp add: oid_inv_def elems_empty ordered_empty)
    with True eq abs show ?thesis by (intro that [of ?c]) simp_all
  next
    case False
    from ok obtain ix where "regen_name_index L ?c = (Inr (), ?c\<lparr>name_index := ix\<rparr>)"
      "oid_inv elems ordered (?c\<lparr>name_index := ix\<rparr>)"
      using regen_name_index_ok [of ?c] by auto
    with False eq abs show ?thesis by (intro that [of "?c\<lparr>name_index := ix\<rparr>"]) simp_all
  qed
next
  case False
  then show ?thesis using assms by (intro that [of c]) (simp_all add: resize_if_needed_def)
qed

lemma occupied_size_ok: "oid_inv elems ordered c \<Longrightarrow> occupied_size L c = card (occupied c)"
  unfolding oid_inv_def occupied_size_def by (metis set_size)

lemma index_find_ok:
  assumes "oid_inv elems ordered c" "good_name key"
  obtains r where "index_find L c key = Inr r"
    "\<And>j. r = Some j \<longleftrightarrow> j \<in> occupied c \<and> slot_name c j = key"
  using assms set_find [of "slot_name c" "name_index c" key]
  by (auto simp: oid_inv_def slots_ok_def index_find_names)

lemma ContainsEither_ok:
  assumes "oid_inv elems ordered c" "good_name (oid_name d)"
  shows "ContainsEither L c d =
    Inr (spec_contains (oid_abs c) (oid_name d) (unat (oid_ordinal d)))"
proof -
  from index_find_ok [OF assms] obtain r where r: "index_find L c (oid_name d) = Inr r"
    "\<And>j. r = Some j \<longleftrightarrow> j \<in> occupied c \<and> slot_name c j = oid_name d"
    by blast
  have used: "r \<noteq> None \<longleftrightarrow> oid_name d \<in> fst ` ran (oid_abs c)"
  proof (cases r)
    case None
    with r(2) have "\<forall>j \<in> occupied c. slot_name c j \<noteq> oid_name d" by auto
    with None show ?thesis by (auto simp: names_oid_abs)
  next
    case (Some j)
    with r(2) [of j] have "oid_name d \<in> slot_name c ` occupied c" by (metis imageI)
    with Some show ?thesis by (simp add: names_oid_abs)
  qed
  have vec: "(if OidContainer_size c < unat (oid_ordinal d) + 1 then False
      else entry_is_initialized (entries c ! unat (oid_ordinal d))) \<longleftrightarrow> unat (oid_ordinal d) \<in> dom (oid_abs c)"
    by (simp add: OidContainer_size_def occupied_def)
  show ?thesis
  proof (cases "occupied_size L c = 0")
    case True
    then have "occupied c = {}" by (simp add: occupied_size_ok [OF assms(1)])
    then have "oid_abs c = Map.empty" by (simp flip: dom_oid_abs)
    with True show ?thesis by (simp add: ContainsEither_def spec_contains_cases)
  next
    case False
    then show ?thesis
      unfolding ContainsEither_def vec r(1) used [symmetric] spec_contains_cases Let_def
      by simp
  qed
qed

lemma SetEntry_ok:
  assumes inv: "oid_inv elems ordered c" and good: "good_name (entry_name t)"
  obtains c' where
    "SetEntry L e0 t c =
       (Inr (spec_contains (oid_abs c) (entry_name t) (unat (entry_ordinal t))), c')"
    "oid_inv elems ordered c'"
    "oid_abs c' = spec_set (oid_abs c) (entry_name t) (unat (entry_ordinal t)) (ent_entry t)"
    "OidContainer_size c' = max (OidContainer_size c) (Suc (unat (entry_ordinal t)))"
proof -
  let ?k = "unat (entry_ordinal t)"
  from inv obtain c1 where c1: "resize_if_needed L e0 (ucast (entry_ordinal t)) c = (Inr (), c1)"
    "oid_inv elems ordered c1" "oid_abs c1 = oid_abs c"
    "entries c1 = entries c @ replicate (Suc ?k - length (entries c)) (entry_default e0)"
    by (rule resize_if_needed_ok)
  have len: "length (entries c1) = max (length (entries c)) (Suc ?k)"
    using c1(4) by simp
  have ce: "ContainsEither L c1 (ent_id t) = Inr (spec_contains (oid_abs c) (entry_name t) ?k)"
    using ContainsEither_ok [OF c1(2)] good c1(3) by (simp add: entry_name_def entry_ordinal_def)
  show ?thesis
  proof (cases "spec_contains (oid_abs c) (entry_name t) ?k = OP_NO_ERROR")
    case False
    then show ?thesis
      using c1 ce len by (intro that [of c1]) (simp_all add: SetEntry_def spec_set_def OidContainer_size_def)
  next
    case True
    let ?c2 = "c1\<lparr>entries := (entries c1)[?k := t]\<rparr>"
    from True have "?k \<notin> dom (oid_abs c1)" "entry_name t \<notin> fst ` ran (oid_abs c1)"
      unfolding c1(3) spec_contains_cases by (simp_all split: if_splits)
    then have free: "?k \<notin> occupied c1" "entry_name t \<notin> slot_name c1 ` occupied c1"
      by (simp_all only: dom_oid_abs names_oid_abs not_False_eq_True)
    have k: "?k < length (entries c1)" using len by simp
    have occ: "occupied ?c2 = insert ?k (occupied c1)"
      using k good by (simp add: occupied_update good_entry_initialized)
    have ok: "slots_ok ?c2"
      using c1(2) k free good by (intro slots_ok_update) (simp_all add: oid_inv_def)
    have "ordered (slot_name ?c2) (name_index ?c2)"
      using c1(2) free(1) k
      by (auto simp: oid_inv_def slot_name_update intro!: ordered_cong [of "slot_name c1"])
    with ok obtain ix where ix: "index_insert L ?c2 ?k = (Inr (), ?c2\<lparr>name_index := ix\<rparr>)"
      "elems ix = insert ?k (occupied c1)" "ordered (slot_name ?c2) ix"
      using index_insert_ok [of ?c2 ?k] c1(2) free(1) occ by (auto simp: oid_inv_def)
    have "oid_inv elems ordered (?c2\<lparr>name_index := ix\<rparr>)"
      using ok ix occ by (simp add: oid_inv_def)
    moreover have "oid_abs (?c2\<lparr>name_index := ix\<rparr>) = (oid_abs c)(?k \<mapsto> (entry_name t, ent_entry t))"
      using k good c1(3) oid_abs_update [of ?k c1 t] by (simp add: good_entry_initialized)
    ultimately show ?thesis
      using True c1(1) ce ix(1) len
      by (intro that [of "?c2\<lparr>name_index := ix\<rparr>"])
        (simp_all add: SetEntry_def spec_set_def OidContainer_size_def Let_def)
  qed
qed

lemma EntryWithName_ok:
  assumes "oid_inv elems ordered c" "good_name n"
  obtains r where "EntryWithName L c n = Inr r"
    "\<And>j. r = Some j \<longleftrightarrow> (\<exists>e. oid_abs c j = Some (n, e))"
proof -
  from index_find_ok [OF assms] obtain r where "index_find L c n = Inr r"
    "\<And>j. r = Some j \<longleftrightarrow> j \<in> occupied c \<and> slot_name c j = n"
    by blast
  then show ?thesis by (intro that [of r]) (auto simp: EntryWithName_def oid_abs_def)
qed

lemma OidContainer_copy_ok:
  assumes "slots_ok rhs"
  obtains c where "OidContainer_copy L rhs = (Inr (), c)" "oid_inv elems ordered c"
    "entries c = entries rhs" "oid_abs c = oid_abs rhs"
proof -
  let ?c = "\<lparr>entries = entries rhs, name_index = set_empty L\<rparr>"
  have eq: "?c = rhs\<lparr>name_index := set_empty L\<rparr>" by simp
  have "slots_ok ?c" using assms unfolding eq by simp
  then obtain ix where ix: "regen_name_index L ?c = (Inr (), ?c\<lparr>name_index := ix\<rparr>)"
    "oid_inv elems ordered (?c\<lparr>name_index := ix\<rparr>)"
    using regen_name_index_ok [of ?c] by auto
  have "oid_abs (?c\<lparr>name_index := ix\<rparr>) = oid_abs rhs"
    by (simp only: oid_abs_name_index eq)
  with ix show ?thesis by (intro that [of "?c\<lparr>name_index := ix\<rparr>"]) (simp_all add: OidContainer_copy_def)
qed

lemma OidContainer_empty_ok:
  "oid_inv elems ordered (OidContainer_empty L)" "oid_abs (OidContainer_empty L) = Map.empty"
  "OidContainer_size (OidContainer_empty L) = 0"
  by (simp_all add: oid_inv_def slots_ok_def occupied_def OidContainer_empty_def elems_empty
      ordered_empty oid_abs_def fun_eq_iff OidContainer_size_def)

lemma occupied_entry:
  assumes "oid_inv elems ordered c" "oid_abs c i = Some (n, e)"
  shows "good_name n" "entry_name (entries c ! i) = n" "unat (entry_ordinal (entries c ! i)) = i"
    "ent_entry (entries c ! i) = e" "i < OidContainer_size c"
  using assms by (auto simp: oid_inv_def slots_ok_def oid_abs_def occupied_def slot_name_def
      OidContainer_size_def split: if_splits)

lemma names_distinct:
  assumes "oid_inv elems ordered c" "oid_abs c i = Some (n, e)" "oid_abs c j = Some (n, e')"
  shows "i = j"
  using assms by (auto simp: oid_inv_def slots_ok_def oid_abs_def inj_on_def split: if_splits)

lemma store_entry_ok:
  assumes "oid_inv elems ordered c" "oid_abs c i = Some (n, e)"
  shows "oid_inv elems ordered (store_entry i e' c)"
    and "oid_abs (store_entry i e' c) = (oid_abs c)(i \<mapsto> (n, e'))"
    and "OidContainer_size (store_entry i e' c) = OidContainer_size c"
proof -
  let ?c = "store_entry i e' c"
  from assms(2) have i: "i < length (entries c)" "i \<in> occupied c" "slot_name c i = n"
    by (auto simp: oid_abs_def occupied_def split: if_splits)
  have same: "ent_id (entries ?c ! j) = ent_id (entries c ! j)" for j
    using i(1) by (cases "j = i") (simp_all add: store_entry_def set_entry_def)
  have len: "length (entries ?c) = length (entries c)" by (simp add: store_entry_def)
  have occ: "occupied ?c = occupied c"
    by (simp add: occupied_def len same entry_is_initialized_def)
  have nm: "slot_name ?c = slot_name c"
    by (simp add: fun_eq_iff slot_name_def entry_name_def same)
  have "slots_ok ?c \<longleftrightarrow> slots_ok c"
    by (simp add: slots_ok_def occ nm entry_ordinal_def same)
  moreover have "name_index ?c = name_index c" by (simp add: store_entry_def)
  ultimately show "oid_inv elems ordered ?c" using assms(1) by (simp add: oid_inv_def occ nm)
  have "ent_entry (entries ?c ! j) = (if j = i then e' else ent_entry (entries c ! j))" for j
    using i(1) by (simp add: store_entry_def set_entry_def)
  then show "oid_abs ?c = (oid_abs c)(i \<mapsto> (n, e'))"
    using i(2,3) by (simp add: fun_eq_iff oid_abs_def occ nm)
  show "OidContainer_size ?c = OidContainer_size c" by (simp add: OidContainer_size_def len)
qed

end

lemma EntryAtordinal_abs: "EntryAtordinal c k = (if unat k \<in> dom (oid_abs c) then Some (unat k) else None)"
  by (simp add: EntryAtordinal_def occupied_def)

lemma at_ordinal_abs: "at_ordinal c k = map_option snd (oid_abs c (unat k))"
  by (simp add: at_ordinal_def EntryAtordinal_abs oid_abs_def)

end
