(* ===== verification/Oid_Table.thy ===== *)
theory Oid_Table
  imports Oid_Container_Correct
begin

text \<open>
  The contract of the identifier container as its clients see it (the backend's service
  table, the dispatch tables of the generated services, the client's method maps), what the
  clients derive from it, and the properties of the container itself.
\<close>

section \<open>The contract\<close>

text \<open>Storing a list of entries one after the other, as the generated constructors do.\<close>

fun put_all :: "(OidType \<Rightarrow> 'e \<Rightarrow> 'c \<Rightarrow> (exn, OP_RESPONSE, 'c) sres) \<Rightarrow> (OidType \<times> 'e) list \<Rightarrow> 'c
    \<Rightarrow> (exn, unit, 'c) sres" where
  "put_all put [] c = (Inr (), c)"
| "put_all put ((d, e) # ds) c = sbind (put d e c) (\<lambda>_ c. put_all put ds c)"

text \<open>A table without holes: its entries are exactly those of the ordinals below \<open>n\<close>.\<close>

definition dense :: "('c \<Rightarrow> bool) \<Rightarrow> ('c \<Rightarrow> nat \<rightharpoonup> 'x) \<Rightarrow> ('c \<Rightarrow> nat) \<Rightarrow> nat \<Rightarrow> 'c \<Rightarrow> bool" where
  "dense invar tab sz n c \<longleftrightarrow> invar c \<and> dom (tab c) = {..<n} \<and> sz c = n"

locale oid_table =
  fixes put :: "OidType \<Rightarrow> 'e \<Rightarrow> 'c \<Rightarrow> (exn, OP_RESPONSE, 'c) sres"
    and tab :: "'c \<Rightarrow> nat \<rightharpoonup> OidName \<times> 'e"
    and sz :: "'c \<Rightarrow> nat"
    and invar :: "'c \<Rightarrow> bool"
  assumes put_spec: "invar c \<Longrightarrow> good_name (oid_name d) \<Longrightarrow>
    \<exists>c'. put d e c = (Inr (spec_contains (tab c) (oid_name d) (unat (oid_ordinal d))), c') \<and> invar c' \<and>
         tab c' = spec_set (tab c) (oid_name d) (unat (oid_ordinal d)) e \<and>
         sz c' = max (sz c) (Suc (unat (oid_ordinal d)))"
begin

lemma put_next:
  assumes "dense invar tab sz n c" "good_name (oid_name d)" "unat (oid_ordinal d) = n"
    "oid_name d \<notin> fst ` ran (tab c)"
  obtains c' where "put d e c = (Inr OP_NO_ERROR, c')" "dense invar tab sz (Suc n) c'"
    "tab c' = (tab c)(n \<mapsto> (oid_name d, e))"
proof -
  have free: "spec_contains (tab c) (oid_name d) n = OP_NO_ERROR"
    using assms by (simp add: spec_contains_cases dense_def)
  from assms obtain c' where "put d e c = (Inr OP_NO_ERROR, c')" "invar c'"
    "tab c' = (tab c)(n \<mapsto> (oid_name d, e))" "sz c' = Suc n"
    using put_spec [of c d e] free by (auto simp: spec_set_def dense_def)
  with assms show ?thesis
    by (intro that [of c']) (auto simp: dense_def lessThan_Suc)
qed

lemma put_used_name:
  assumes "dense invar tab sz n c" "good_name (oid_name d)" "unat (oid_ordinal d) = n"
    "oid_name d \<in> fst ` ran (tab c)"
  obtains c' where "put d e c = (Inr OP_NAME_USED, c')" "invar c'" "tab c' = tab c" "sz c' = Suc n"
  using put_spec [of c d e] assms
  by (auto simp: spec_contains_cases spec_set_def dense_def split: if_splits)

lemma ran_fun_upd_new: "m k = None \<Longrightarrow> fst ` ran (m(k \<mapsto> (a, b))) = insert a (fst ` ran m)"
  by simp

lemma put_all_dense:
  assumes "dense invar tab sz n c" "distinct (map (oid_name \<circ> fst) ds)"
    and "\<forall>i < length ds. good_name (oid_name (fst (ds ! i))) \<and> unat (oid_ordinal (fst (ds ! i))) = n + i"
    and "(oid_name \<circ> fst) ` set ds \<inter> fst ` ran (tab c) = {}"
  shows "\<exists>c'. put_all put ds c = (Inr (), c') \<and> dense invar tab sz (n + length ds) c' \<and>
    (\<forall>k < n. tab c' k = tab c k) \<and>
    (\<forall>i < length ds. tab c' (n + i) = Some (oid_name (fst (ds ! i)), snd (ds ! i)))"
  using assms
proof (induction ds arbitrary: c n)
  case Nil
  then show ?case by simp
next
  case (Cons x ds)
  obtain d e where x: "x = (d, e)" by (cases x)
  have d: "good_name (oid_name d)" "unat (oid_ordinal d) = n" "oid_name d \<notin> fst ` ran (tab c)"
    using Cons.prems(3) [rule_format, of 0] Cons.prems(4) x by auto
  with Cons.prems(1) obtain c1 where c1: "put d e c = (Inr OP_NO_ERROR, c1)" "dense invar tab sz (Suc n) c1"
    "tab c1 = (tab c)(n \<mapsto> (oid_name d, e))"
    by (rule put_next)
  have "n \<notin> dom (tab c)" using Cons.prems(1) by (simp add: dense_def)
  then have names: "fst ` ran (tab c1) = insert (oid_name d) (fst ` ran (tab c))"
    unfolding c1(3) by (intro ran_fun_upd_new) auto
  have "\<forall>i < length ds. good_name (oid_name (fst (ds ! i))) \<and> unat (oid_ordinal (fst (ds ! i))) = Suc n + i"
    using Cons.prems(3) by (metis Suc_less_eq add_Suc add_Suc_right length_Cons nth_Cons_Suc)
  moreover have "(oid_name \<circ> fst) ` set ds \<inter> fst ` ran (tab c1) = {}"
    using Cons.prems(2,4) x unfolding names by auto
  ultimately obtain c' where c': "put_all put ds c1 = (Inr (), c')" "dense invar tab sz (Suc n + length ds) c'"
    "\<forall>k < Suc n. tab c' k = tab c1 k"
    "\<forall>i < length ds. tab c' (Suc n + i) = Some (oid_name (fst (ds ! i)), snd (ds ! i))"
    using Cons.IH [OF c1(2)] Cons.prems(2) by auto
  have "tab c' (n + i) = Some (oid_name (fst ((x # ds) ! i)), snd ((x # ds) ! i))" if "i < Suc (length ds)" for i
  proof (cases i)
    case 0
    then show ?thesis using c'(3) c1(3) x by simp
  next
    case (Suc j)
    then show ?thesis using c'(4) that by simp
  qed
  moreover have "tab c' k = tab c k" if "k < n" for k
    using c'(3) c1(3) that by simp
  ultimately show ?case using c' c1(1) x by auto
qed

end

section \<open>The container keeps the contract\<close>

sublocale boost_library \<subseteq> oid: oid_table "SetEntry_id L e0" oid_abs OidContainer_size "oid_inv elems ordered"
  for e0
proof unfold_locales
  fix c :: "('ix, 'a) OidContainer" and d :: OidType and e :: 'a
  assume "oid_inv elems ordered c" "good_name (oid_name d)"
  then show "\<exists>c'. SetEntry_id L e0 d e c =
      (Inr (spec_contains (oid_abs c) (oid_name d) (unat (oid_ordinal d))), c') \<and> oid_inv elems ordered c' \<and>
      oid_abs c' = spec_set (oid_abs c) (oid_name d) (unat (oid_ordinal d)) e \<and>
      OidContainer_size c' = max (OidContainer_size c) (Suc (unat (oid_ordinal d)))"
    using SetEntry_ok [of c "entry_make d e" e0]
    unfolding SetEntry_id_def entry_make_def entry_name_def entry_ordinal_def
    by (metis OidContainerEntryType.select_convs)
qed

end
