(* ===== verification/Oid_Properties.thy ===== *)
theory Oid_Properties
  imports Oid_Table
begin

text \<open>
  The properties of the identifier container: storing refines the abstract partial map, the
  two lookups find what was stored, copies carry over every entry, and names compare without
  regard to case.
\<close>

section \<open>Slicing\<close>

lemma of_nat_uint32_small: "i < 65536 \<Longrightarrow> unat (of_nat i :: uint32) = i"
  by (simp add: unat_of_nat)

context boost_library
begin

lemma OidContainer_clear_ok:
  "oid_inv elems ordered (OidContainer_clear L c)" "oid_abs (OidContainer_clear L c) = Map.empty"
  by (simp_all add: OidContainer_clear_def oid_inv_def slots_ok_def occupied_def elems_empty
      ordered_empty oid_abs_def fun_eq_iff)

lemma slice_slots_ok:
  assumes "oid_inv elems ordered c" "oid_inv elems ordered t" "set is \<subseteq> {..<65536}"
    "distinct is" "dom (oid_abs t) \<inter> set is = {}" "oid_abs t \<subseteq>\<^sub>m map_option (apsnd cast) \<circ> oid_abs c"
  shows "\<exists>t'. slice_slots L cast e0 c is t = (Inr (), t') \<and> oid_inv elems ordered t' \<and>
    oid_abs t' = (\<lambda>i. if i \<in> set is then map_option (apsnd cast) (oid_abs c i) else oid_abs t i)"
  using assms
proof (induction "is" arbitrary: t)
  case (Cons i "is")
  from Cons.prems(3) have u: "unat (of_nat i :: uint32) = i" by (simp add: of_nat_uint32_small)
  show ?case
  proof (cases "oid_abs c i")
    case None
    then have "EntryAtordinal c (of_nat i) = None"
      using u by (simp add: EntryAtordinal_abs oid_abs_def split: if_splits)
    moreover have "i \<notin> set is" "oid_abs t i = None"
      using Cons.prems(4,5) by (auto simp: oid_abs_def)
    moreover obtain t' where "slice_slots L cast e0 c is t = (Inr (), t')" "oid_inv elems ordered t'"
      "oid_abs t' = (\<lambda>i. if i \<in> set is then map_option (apsnd cast) (oid_abs c i) else oid_abs t i)"
      using Cons.IH [OF Cons.prems(1,2)] Cons.prems(3-6) by auto
    ultimately show ?thesis using None by (auto simp: fun_eq_iff)
  next
    case (Some p)
    then obtain n e where ce: "oid_abs c i = Some (n, e)" by (cases p) auto
    note en = occupied_entry [OF Cons.prems(1) ce]
    have at: "EntryAtordinal c (of_nat i) = Some i"
      using u ce by (simp add: EntryAtordinal_abs oid_abs_def split: if_splits)
    let ?t = "entry_convert cast (entries c ! i)"
    have t: "entry_name ?t = n" "unat (entry_ordinal ?t) = i" "ent_entry ?t = cast e"
      using en by (simp_all add: entry_convert_def entry_make_def entry_name_def entry_ordinal_def)
    have "n \<notin> fst ` ran (oid_abs t)"
    proof
      assume "n \<in> fst ` ran (oid_abs t)"
      then obtain j f where j: "oid_abs t j = Some (n, f)" by (auto simp: ran_def)
      then have "(map_option (apsnd cast) \<circ> oid_abs c) j = Some (n, f)"
        using Cons.prems(6) unfolding map_le_def by (metis domI)
      then obtain e' where "oid_abs c j = Some (n, e')" by auto
      with names_distinct [OF Cons.prems(1) ce] j Cons.prems(5) show False
        by (auto simp: oid_abs_def)
    qed
    moreover have "i \<notin> dom (oid_abs t)" using Cons.prems(5) by auto
    ultimately have free: "spec_contains (oid_abs t) n i = OP_NO_ERROR"
      by (simp only: spec_contains_cases) simp
    from SetEntry_ok [of t ?t e0] Cons.prems(2) en(1) t free obtain t1 where
      t1: "SetEntry L e0 ?t t = (Inr OP_NO_ERROR, t1)" "oid_inv elems ordered t1"
        "oid_abs t1 = (oid_abs t)(i \<mapsto> (n, cast e))"
      by (metis spec_set_def)
    have sub: "dom (oid_abs t1) \<inter> set is = {}" "oid_abs t1 \<subseteq>\<^sub>m map_option (apsnd cast) \<circ> oid_abs c"
      using Cons.prems(4,5,6) ce unfolding t1(3) by (auto simp: map_le_def)
    have "set is \<subseteq> {..<65536}" "distinct is" using Cons.prems(3,4) by simp_all
    from Cons.IH [OF Cons.prems(1) t1(2) this sub] obtain t' where
      "slice_slots L cast e0 c is t1 = (Inr (), t')" "oid_inv elems ordered t'"
      "oid_abs t' = (\<lambda>i. if i \<in> set is then map_option (apsnd cast) (oid_abs c i) else oid_abs t1 i)"
      by blast
    then show ?thesis using at t1(1,3) ce by (auto simp: fun_eq_iff)
  qed
qed simp

lemma SlicingPopulate_ok:
  assumes "oid_inv elems ordered c" "OidContainer_size c \<le> 65536"
  shows "\<exists>t'. SlicingPopulate L cast e0 c t = (Inr (), t') \<and> oid_inv elems ordered t' \<and>
    oid_abs t' = map_option (apsnd cast) \<circ> oid_abs c"
proof -
  have "oid_abs c i = None" if "\<not> i < OidContainer_size c" for i
    using that by (simp add: oid_abs_def occupied_def OidContainer_size_def)
  with slice_slots_ok [of c "OidContainer_clear L t" "[0..<OidContainer_size c]" cast e0] assms
  show ?thesis unfolding SlicingPopulate_def
    by (fastforce simp: OidContainer_clear_ok fun_eq_iff map_le_def)
qed

lemma lookup_stored:
  assumes "oid_inv elems ordered c" "good_name (oid_name d)" "SetEntry_id L e0 d e c = (Inr OP_NO_ERROR, c')"
  shows "at_name L c' (oid_name d) = Inr (Some e)" "at_ordinal c' (oid_ordinal d) = Some e"
    "oid_inv elems ordered c'" "oid_abs c' = (oid_abs c)(unat (oid_ordinal d) \<mapsto> (oid_name d, e))"
proof -
  let ?k = "unat (oid_ordinal d)"
  from oid.put_spec [OF assms(1,2), of e0 e] assms(3)
  show c': "oid_inv elems ordered c'" "oid_abs c' = (oid_abs c)(?k \<mapsto> (oid_name d, e))"
    by (auto simp: spec_set_def)
  then show "at_ordinal c' (oid_ordinal d) = Some e" by (simp add: at_ordinal_abs)
  obtain r where r: "EntryWithName L c' (oid_name d) = Inr r"
    "\<And>j. r = Some j \<longleftrightarrow> (\<exists>e. oid_abs c' j = Some (oid_name d, e))"
    using c'(1) assms(2) by (rule EntryWithName_ok) blast
  have ck: "oid_abs c' ?k = Some (oid_name d, e)" using c'(2) by simp
  then have "r = Some ?k" using r(2) by blast
  then show "at_name L c' (oid_name d) = Inr (Some e)"
    using r(1) occupied_entry(4) [OF c'(1) ck] by (simp add: at_name_def)
qed

lemma Oid_too_long: "32 \<le> length s \<Longrightarrow> Oid L s k = Inl LengthError"
  by (simp add: Oid_def OidConstrainedString_string_def construct_str_def oid_name_length_def)

lemma Oid_range:
  assumes "valid_name s"
  shows "Oid L s k =
    (if unat k \<le> 65535 then Inr \<lparr>oid_name = name_of L s, oid_ordinal = ucast k\<rparr> else Inl OutOfRange)"
  using construct_str_valid [OF assms]
  by (simp add: Oid_def OidConstrainedString_string_def OidType_MAX_def word_less_nat_alt)

lemma oid_eq_names:
  assumes "valid_name s" "valid_name t" "unat k \<le> 65535" "unat l \<le> 65535"
  shows "oid_eq \<lparr>oid_name = name_of L s, oid_ordinal = ucast (k :: uint32)\<rparr>
      \<lparr>oid_name = name_of L t, oid_ordinal = ucast (l :: uint32)\<rparr> =
    Inr (to_lower L s = to_lower L t \<and> k = l)"
proof -
  have "(ucast l :: uint16) = ucast k \<longleftrightarrow> k = l"
    using assms(3,4) by (auto simp: word_unat_eq_iff width_simps)
  then show ?thesis
    using assms by (auto simp: oid_eq_def name_eq_good good_name_of name_of_eq_iff)
qed

end

section \<open>Properties\<close>

text \<open>
  C1: storing an entry refines the abstract container. On every well-formed container the
  call returns without an exception the response the abstract map prescribes (free, ordinal
  used, name used, both used), the map gains the entry exactly when the response is
  \<open>OP_NO_ERROR\<close> and is otherwise untouched, the representation invariant is kept, and the
  vector has grown to hold the ordinal whatever the response.
\<close>
theorem SetEntry_refines:
  assumes "boost_library L elems ordered" "oid_inv elems ordered c" "good_name (entry_name t)"
  shows "\<exists>c'. SetEntry L e0 t c =
      (Inr (spec_contains (oid_abs c) (entry_name t) (unat (entry_ordinal t))), c') \<and>
    oid_inv elems ordered c' \<and>
    oid_abs c' = spec_set (oid_abs c) (entry_name t) (unat (entry_ordinal t)) (ent_entry t) \<and>
    OidContainer_size c' = max (OidContainer_size c) (Suc (unat (entry_ordinal t)))"
  using boost_library.SetEntry_ok [OF assms] by metis

lemma lst_good_name: "valid_name s \<Longrightarrow> good_name (name_of list_boost s)"
  by (rule lst.good_name_of)

theorem SetEntry_refines_witness:
  "\<exists>c'. SetEntry list_boost (0 :: nat) (entry_make \<lparr>oid_name = name_of list_boost ''Clock'', oid_ordinal = 3\<rparr> 7)
      (OidContainer_empty list_boost) = (Inr OP_NO_ERROR, c') \<and>
    oid_abs c' = [3 \<mapsto> (name_of list_boost ''Clock'', 7)] \<and> OidContainer_size c' = 4"
  using SetEntry_refines [OF list_boost_library lst.OidContainer_empty_ok(1),
      of "entry_make \<lparr>oid_name = name_of list_boost ''Clock'', oid_ordinal = 3\<rparr> (7 :: nat)" 0]
  by (simp add: lst_good_name valid_name_code lst.OidContainer_empty_ok(2,3) spec_set_def
      spec_contains_cases entry_make_def entry_name_def entry_ordinal_def) blast

text \<open>
  C3: what was stored is found. After a store that reports success, \<open>operator[]\<close> by name and
  by ordinal both return the stored payload, and the container holds its earlier entries and
  the new one, nothing else.
\<close>
theorem stored_entry_is_found:
  assumes "boost_library L elems ordered" "oid_inv elems ordered c" "good_name (oid_name d)"
    "SetEntry_id L e0 d e c = (Inr OP_NO_ERROR, c')"
  shows "at_name L c' (oid_name d) = Inr (Some e) \<and> at_ordinal c' (oid_ordinal d) = Some e \<and>
    oid_abs c' = (oid_abs c)(unat (oid_ordinal d) \<mapsto> (oid_name d, e))"
  using boost_library.lookup_stored [OF assms] by simp

text \<open>A table with one entry, for the concrete instances below.\<close>

definition clock_id :: OidType where
  "clock_id = \<lparr>oid_name = name_of list_boost ''Clock'', oid_ordinal = 2\<rparr>"

definition clock_table :: "(nat list, nat) OidContainer" where
  "clock_table = snd (SetEntry_id list_boost 0 clock_id 7 (OidContainer_empty list_boost))"

lemma clock_table_stored: "SetEntry_id list_boost 0 clock_id 7 (OidContainer_empty list_boost) = (Inr OP_NO_ERROR, clock_table)"
proof -
  have "fst (SetEntry_id list_boost 0 clock_id (7 :: nat) (OidContainer_empty list_boost)) = Inr OP_NO_ERROR"
    by code_simp
  then show ?thesis unfolding clock_table_def by (metis prod.collapse)
qed

lemma clock_id_good: "good_name (oid_name clock_id)"
  by (simp add: clock_id_def lst_good_name valid_name_code)

lemma clock_table_ok:
  "oid_inv set (\<lambda>nm ix. distinct ix) clock_table"
  "oid_abs clock_table = [2 \<mapsto> (name_of list_boost ''Clock'', 7)]"
  "OidContainer_size clock_table = 3"
proof -
  show "oid_inv set (\<lambda>nm ix. distinct ix) clock_table"
    "oid_abs clock_table = [2 \<mapsto> (name_of list_boost ''Clock'', 7)]"
    using lst.lookup_stored(3,4) [OF lst.OidContainer_empty_ok(1) clock_id_good clock_table_stored]
    by (simp_all add: lst.OidContainer_empty_ok(2) clock_id_def)
  show "OidContainer_size clock_table = 3" by code_simp
qed

theorem stored_entry_is_found_witness:
  "at_name list_boost clock_table (name_of list_boost ''CLOCK'') = Inr (Some 7) \<and> at_ordinal clock_table 2 = Some 7"
proof -
  have "name_of list_boost ''CLOCK'' = oid_name clock_id" by code_simp
  then show ?thesis
    using stored_entry_is_found [OF list_boost_library lst.OidContainer_empty_ok(1) clock_id_good clock_table_stored]
    by (simp add: clock_id_def)
qed

text \<open>
  C4: the two indices agree. A lookup by name never throws on a well-formed container, and
  it points to slot \<open>k\<close> exactly when the lookup by ordinal finds an entry of that name there.
\<close>
theorem lookups_agree:
  assumes "boost_library L elems ordered" "oid_inv elems ordered c" "good_name n"
  shows "\<exists>r. EntryWithName L c n = Inr r \<and>
    (\<forall>k. r = Some (unat k) \<longleftrightarrow>
       EntryAtordinal c (ucast (k :: uint16)) = Some (unat k) \<and> entry_name (entries c ! unat k) = n)"
proof -
  obtain r where "EntryWithName L c n = Inr r" "\<And>j. r = Some j \<longleftrightarrow> (\<exists>e. oid_abs c j = Some (n, e))"
    using boost_library.EntryWithName_ok [OF assms] by blast
  then show ?thesis
    by (auto simp: EntryAtordinal_abs oid_abs_def slot_name_def)
qed

theorem lookups_agree_witness:
  "EntryWithName list_boost clock_table (name_of list_boost ''CLOCK'') = Inr (Some 2) \<and>
   EntryAtordinal clock_table 2 = Some 2"
proof -
  have "name_of list_boost ''CLOCK'' = name_of list_boost ''Clock''" by code_simp
  moreover have "EntryAtordinal clock_table 2 = Some 2" "entry_name (entries clock_table ! 2) = name_of list_boost ''Clock''"
    by code_simp+
  ultimately show ?thesis
    using lookups_agree [OF list_boost_library clock_table_ok(1), of "name_of list_boost ''CLOCK''"]
    by (auto simp: lst_good_name valid_name_code dest!: spec [of _ 2])
qed

text \<open>
  C5: copying and assigning keep every entry. Both rebuild the name index for the copied
  vector: whatever the target held before, it represents the same map as the source afterwards
  and is well formed; assigning a container to itself changes nothing.
\<close>
theorem copy_and_assign:
  assumes "boost_library L elems ordered" "oid_inv elems ordered rhs"
  shows "\<exists>c c'. OidContainer_copy L rhs = (Inr (), c) \<and> oid_inv elems ordered c \<and> oid_abs c = oid_abs rhs \<and>
    OidContainer_assign L False old rhs = (Inr (), c') \<and> oid_inv elems ordered c' \<and> oid_abs c' = oid_abs rhs \<and>
    OidContainer_assign L True rhs rhs = (Inr (), rhs)"
proof -
  have slots: "slots_ok rhs" using assms(2) by (simp add: oid_inv_def)
  obtain c where c: "OidContainer_copy L rhs = (Inr (), c)" "oid_inv elems ordered c" "oid_abs c = oid_abs rhs"
    using boost_library.OidContainer_copy_ok [OF assms(1) slots] by metis
  moreover have "OidContainer_assign L False old rhs = OidContainer_copy L rhs"
    by (cases old) (simp add: OidContainer_assign_def OidContainer_copy_def)
  moreover have "OidContainer_assign L True rhs rhs = (Inr (), rhs)"
    by (simp add: OidContainer_assign_def)
  ultimately show ?thesis by auto
qed

theorem copy_and_assign_witness:
  "\<exists>c. OidContainer_copy list_boost clock_table = (Inr (), c) \<and> oid_abs c = [2 \<mapsto> (name_of list_boost ''Clock'', 7)]"
  using copy_and_assign [OF list_boost_library clock_table_ok(1)] by (auto simp: clock_table_ok(2))

text \<open>
  C6: \<open>SlicingPopulate\<close> makes the target the image of the container under the conversion:
  the same ordinals and names, each payload converted, and nothing left of what the target
  held before; the dropped responses of \<open>SetEntry\<close> are all successes.
\<close>
theorem SlicingPopulate_image:
  assumes "boost_library L elems ordered" "oid_inv elems ordered c" "OidContainer_size c \<le> 65536"
  shows "\<exists>t'. SlicingPopulate L cast e0 c t = (Inr (), t') \<and> oid_inv elems ordered t' \<and>
    oid_abs t' = map_option (apsnd cast) \<circ> oid_abs c"
  using assms by (rule boost_library.SlicingPopulate_ok)

theorem SlicingPopulate_image_witness:
  "\<exists>t'. SlicingPopulate list_boost Suc 0 clock_table clock_table = (Inr (), t') \<and>
     oid_abs t' 2 = Some (name_of list_boost ''Clock'', 8)"
  using SlicingPopulate_image [OF list_boost_library clock_table_ok(1), of Suc 0 clock_table]
  by (auto simp: clock_table_ok(2,3))

text \<open>
  C7: identifiers. A string longer than the array holds is refused, a 32-bit ordinal that does
  not fit 16 bits is refused, and of the rest two identifiers are equal exactly when their
  ordinals are and their names agree when case is ignored, so nothing is lost by narrowing.
\<close>
theorem identifiers_ignore_case:
  assumes "boost_library L elems ordered" "valid_name s" "valid_name t"
  shows "(32 \<le> length s' \<longrightarrow> Oid L s' k = Inl LengthError) \<and>
    (65535 < unat k \<longrightarrow> Oid L s k = Inl OutOfRange) \<and>
    (unat k \<le> 65535 \<longrightarrow> unat l \<le> 65535 \<longrightarrow>
       ebind (Oid L s k) (\<lambda>d. ebind (Oid L t l) (oid_eq d)) = Inr (to_lower L s = to_lower L t \<and> k = l))"
  using boost_library.Oid_range [OF assms(1)] boost_library.Oid_too_long [OF assms(1), of s' k] assms(2,3)
  by (simp add: boost_library.oid_eq_names [OF assms(1)])

theorem identifiers_ignore_case_witness:
  "Oid list_boost (replicate 32 CHR ''x'') 0 = Inl LengthError \<and> Oid list_boost ''Clock'' 65536 = Inl OutOfRange \<and>
   ebind (Oid list_boost ''Clock'' 1) (\<lambda>d. ebind (Oid list_boost ''CLOCK'' 1) (oid_eq d)) = Inr True"
proof -
  have lower: "to_lower list_boost ''Clock'' = to_lower list_boost ''CLOCK''" by code_simp
  note at = identifiers_ignore_case [OF list_boost_library, of "''Clock''" "''CLOCK''" "replicate 32 CHR ''x''"]
  show ?thesis using at [of 0 1] at [of 65536 1] at [of 1 1] by (simp add: valid_name_code lower)
qed

section \<open>Programs over one container\<close>

text \<open>
  What client code can do with a container: each step is one public operation, with the flag that says whether it
  threw. Names come from the constructor of \<open>Oid\<close>; payloads are written through an entry that a lookup returned.
\<close>

inductive oid_step :: "'ix boost \<Rightarrow> ('ix, 'e) OidContainer \<Rightarrow> bool \<Rightarrow> ('ix, 'e) OidContainer \<Rightarrow> bool" for L where
  put: "valid_name s \<Longrightarrow> Oid L s k = Inr d \<Longrightarrow> SetEntry_id L e0 d e c = (r, c') \<Longrightarrow> oid_step L c (isl r) c'"
| clear: "oid_step L c False (OidContainer_clear L c)"
| copy: "OidContainer_copy L c = (r, c') \<Longrightarrow> oid_step L c (isl r) c'"
| assign: "OidContainer_assign L False old c = (r, c') \<Longrightarrow> oid_step L c (isl r) c'"
| slice: "SlicingPopulate L cast e0 c target = (r, c') \<Longrightarrow> oid_step L c (isl r) c'"
| write_ordinal: "EntryAtordinal c k = Some p \<Longrightarrow> oid_step L c False (store_entry p e c)"
| write_name: "valid_name s \<Longrightarrow> EntryWithName L c (name_of L s) = Inr (Some p) \<Longrightarrow> oid_step L c False (store_entry p e c)"

inductive oid_reachable :: "'ix boost \<Rightarrow> ('ix, 'e) OidContainer \<Rightarrow> bool" for L where
  new: "oid_reachable L (OidContainer_empty L)"
| more: "oid_reachable L c \<Longrightarrow> oid_step L c t c' \<Longrightarrow> oid_reachable L c'"

inductive_cases oid_stepE: "oid_step L c t c'"

definition oid_typed :: "('ix \<Rightarrow> nat set) \<Rightarrow> ((nat \<Rightarrow> OidName) \<Rightarrow> 'ix \<Rightarrow> bool) \<Rightarrow> ('ix, 'e) OidContainer \<Rightarrow> bool" where
  "oid_typed elems ordered c \<longleftrightarrow> oid_inv elems ordered c \<and> OidContainer_size c \<le> 65536"

context boost_library
begin

lemma SetEntry_typed:
  assumes "oid_typed elems ordered c" "good_name (entry_name t)" "SetEntry L e0 t c = (r, c')"
  shows "\<not> isl r" "oid_typed elems ordered c'"
proof -
  have inv: "oid_inv elems ordered c" and sz: "OidContainer_size c \<le> 65536" using assms(1) by (simp_all add: oid_typed_def)
  obtain c1 where c1: "SetEntry L e0 t c = (Inr (spec_contains (oid_abs c) (entry_name t) (unat (entry_ordinal t))), c1)"
    "oid_inv elems ordered c1" "OidContainer_size c1 = max (OidContainer_size c) (Suc (unat (entry_ordinal t)))"
    by (rule SetEntry_ok [OF inv assms(2), of e0])
  have "unat (entry_ordinal t) < 65536" using unsigned_less [of "entry_ordinal t"] by simp
  then have "OidContainer_size c1 \<le> 65536" using sz unfolding c1(3) max.bounded_iff Suc_le_eq by (rule conjI [rotated])
  then show "\<not> isl r" "oid_typed elems ordered c'" using c1(1,2) assms(3) by (auto simp: oid_typed_def)
qed

lemma slice_slots_typed:
  assumes "oid_inv elems ordered c" "oid_typed elems ordered t" "slice_slots L cast e0 c js t = (r, t')"
  shows "\<not> isl r \<and> oid_typed elems ordered t'"
  using assms(2,3)
proof (induction js arbitrary: t)
  case (Cons j js)
  show ?case
  proof (cases "EntryAtordinal c (of_nat j)")
    case None
    then show ?thesis using Cons by simp
  next
    case (Some p)
    then have "p \<in> dom (oid_abs c)" by (auto simp: EntryAtordinal_abs split: if_splits)
    then obtain n e where "oid_abs c p = Some (n, e)" unfolding dom_def by auto
    note en = occupied_entry(1,2) [OF assms(1) this]
    let ?t = "entry_convert cast (entries c ! p)"
    have good: "good_name (entry_name ?t)" using en by (simp add: entry_convert_def entry_make_def entry_name_def)
    obtain q t1 where t1: "SetEntry L e0 ?t t = (q, t1)" by (cases "SetEntry L e0 ?t t")
    note ty = SetEntry_typed [OF Cons.prems(1) good t1]
    then obtain a where "q = Inr a" by (cases q) auto
    with Some t1 Cons.prems(2) have "slice_slots L cast e0 c js t1 = (r, t')" by simp
    then show ?thesis by (rule Cons.IH [OF ty(2)])
  qed
qed auto

lemma clear_typed: "oid_typed elems ordered (OidContainer_clear L c)"
  using OidContainer_clear_ok(1) by (simp add: oid_typed_def) (simp add: OidContainer_clear_def OidContainer_size_def)

lemma copy_typed:
  assumes "oid_typed elems ordered c" "OidContainer_copy L c = (r, c')"
  shows "\<not> isl r \<and> oid_typed elems ordered c'"
proof -
  have "slots_ok c" using assms(1) by (simp add: oid_typed_def oid_inv_def)
  then obtain c1 where "OidContainer_copy L c = (Inr (), c1)" "oid_inv elems ordered c1" "entries c1 = entries c"
    by (rule OidContainer_copy_ok)
  then show ?thesis using assms by (simp add: oid_typed_def OidContainer_size_def)
qed

lemma store_typed:
  assumes "oid_typed elems ordered c" "p \<in> dom (oid_abs c)"
  shows "oid_typed elems ordered (store_entry p e c)"
  using assms store_entry_ok [of c p] by (fastforce simp: oid_typed_def simp del: dom_oid_abs)

lemma oid_step_typed:
  assumes "oid_step L c t c'" "oid_typed elems ordered c"
  shows "\<not> t \<and> oid_typed elems ordered c'"
  using assms(1)
proof cases
  case (put s k d e0 e r)
  have "d = \<lparr>oid_name = name_of L s, oid_ordinal = ucast k\<rparr>" using put(2,3) Oid_range [OF put(2), of k] by (simp split: if_splits)
  then have "good_name (entry_name (entry_make d e))" using good_name_of [OF put(2)] by (simp add: entry_make_def entry_name_def)
  then show ?thesis using SetEntry_typed [OF assms(2) _ put(4) [unfolded SetEntry_id_def]] put(1) by simp
next
  case clear
  then show ?thesis using clear_typed by simp
next
  case (copy r)
  then show ?thesis using copy_typed [OF assms(2)] by simp
next
  case (assign old r)
  moreover have "OidContainer_assign L False old c = OidContainer_copy L c"
    by (cases old) (simp add: OidContainer_assign_def OidContainer_copy_def)
  ultimately show ?thesis using copy_typed [OF assms(2)] by simp
next
  case (slice cast e0 target r)
  have inv: "oid_inv elems ordered c" using assms(2) by (simp add: oid_typed_def)
  show ?thesis using slice_slots_typed [OF inv clear_typed slice(2) [unfolded SlicingPopulate_def]] slice(1) by simp
next
  case (write_ordinal k p e)
  then have "p \<in> dom (oid_abs c)" by (auto simp: EntryAtordinal_abs split: if_splits)
  then show ?thesis using store_typed [OF assms(2)] write_ordinal(1,2) by simp
next
  case (write_name s p e)
  have inv: "oid_inv elems ordered c" using assms(2) by (simp add: oid_typed_def)
  have "\<exists>e. oid_abs c p = Some (name_of L s, e)"
  proof (rule EntryWithName_ok [OF inv good_name_of [OF write_name(3)]])
    fix r
    assume r: "EntryWithName L c (name_of L s) = Inr r" "\<And>j. r = Some j \<longleftrightarrow> (\<exists>e. oid_abs c j = Some (name_of L s, e))"
    from r(1) write_name(4) have "r = Some p" by simp
    then show ?thesis using r(2) by blast
  qed
  then have "p \<in> dom (oid_abs c)" by (auto simp del: dom_oid_abs)
  then show ?thesis using store_typed [OF assms(2)] write_name(1,2) by simp
qed

lemma oid_reachable_typed: "oid_reachable L c \<Longrightarrow> oid_typed elems ordered c"
proof (induction rule: oid_reachable.induct)
  case new
  then show ?case by (simp add: oid_typed_def OidContainer_empty_ok)
qed (use oid_step_typed in blast)

end

text \<open>
  C2: Soundness of the container: whatever sequence of public operations client code applies to a new container, with names
  that the constructor of \<open>Oid\<close> takes, the container stays well-formed and within 65536 slots - its index holds exactly the initialised slots,
  no two of them have the same name, and each is at the place of its ordinal - and no operation throws, fails
  an assertion or leaves the bounds of the vector.
\<close>
theorem container_type_sound:
  assumes "boost_library L elems ordered" "oid_reachable L c"
  shows "oid_inv elems ordered c \<and> OidContainer_size c \<le> 65536 \<and> (\<forall>t c'. oid_step L c t c' \<longrightarrow> \<not> t)"
  using boost_library.oid_reachable_typed [OF assms] boost_library.oid_step_typed [OF assms(1)] by (auto simp: oid_typed_def)

theorem container_type_sound_witness:
  "oid_inv set (\<lambda>nm ix. distinct ix) (store_entry 2 8 clock_table) \<and> OidContainer_size (store_entry 2 8 clock_table) \<le> 65536"
proof -
  have "oid_step list_boost (OidContainer_empty list_boost) (isl (Inr OP_NO_ERROR :: (exn, OP_RESPONSE) res)) clock_table"
  proof (rule oid_step.put [OF _ _ clock_table_stored])
    show "valid_name ''Clock''" by (simp add: valid_name_code)
    then show "Oid list_boost ''Clock'' 2 = Inr clock_id" by (simp add: lst.Oid_range clock_id_def)
  qed
  then have "oid_reachable list_boost clock_table" by (rule oid_reachable.more [OF oid_reachable.new])
  moreover have "EntryAtordinal clock_table 2 = Some 2" by (simp add: EntryAtordinal_abs clock_table_ok(2) del: dom_oid_abs)
  ultimately have "oid_reachable list_boost (store_entry 2 8 clock_table)"
    by (intro oid_reachable.more [OF _ oid_step.write_ordinal])
  from container_type_sound [OF list_boost_library this] show ?thesis by simp
qed

end
