(* ===== verification/Basic_Protocol_Messages.thy ===== *)
theory Basic_Protocol_Messages
  imports Rbl_Errors
begin

text \<open>
  The messages of \<^verbatim>\<open>src/rpc/proto/BasicProtocol.proto\<close> and what the code uses of the
  protobuf runtime.

  The generated message classes remember which fields were set. A field is optional here
  where the code can leave it unset and look at it or try to serialise it afterwards: in the
  envelope messages, whose parse result the server ignores, and in the responses, which a
  handler fills in. In the requests, which a handler sees only after a successful parse, a
  required field is a plain value. A getter of an unset field returns the field's default.

  Encoding and decoding belong to the protobuf library: they are the fields of a record that
  the definitions take as an argument. \<open>None\<close> is the value of an encoder that reports
  failure. The server looks at the result of parsing a request
  (\<open>parse\<close>); the client ignores whether parsing a response succeeded, so what it uses of it is the
  message that \<open>ParseFromString\<close> leaves behind in either case (\<open>read\<close>).
\<close>

datatype SourceConnectionType = SOURCE_GENERATOR | SOURCE_RELAY

datatype DestinationConnectionType = TARGET_RELAY | TARGET_MARSHALL

datatype ClientResponseErrorType =
    REQUEST_SUCCESS
  | REQUEST_BACKEND_NOT_ACCEPTING_REQUESTS
  | REQUEST_CLIENT_NOT_ESTABLISHED
  | REQUEST_NO_SERVICE_WITH_ORDINAL
  | REQUEST_NO_FUNCTION_WITH_ORDINAL
  | REQUEST_NOT_SUBSCRIBED
  | REQUEST_STRING_PARSE_ERROR
  | REQUEST_STRING_SERIALIZE_ERROR

datatype HelloErrorType =
    NO_HELLO_ERRORS
  | DESTINATION_EXPECTATION_MISMATCH
  | SOURCE_EXPECTATION_MISMATCH
  | CLIENT_ALLREADY_ESTABLISHED

datatype ServiceSubscribeErrorType =
    NO_SUBSCRIBE_SERVICE_ERROR
  | SERVICE_ORDINAL_NOT_IN_USE
  | SERVICE_ALLREADY_SUBSCRIBED
  | NO_SUBSCRIPTION_FOR_SERVICE

datatype ListMethodErrorType = NO_LIST_METHOD_ERROR | NO_SERVICE_WITH_ORDINAL

text \<open>The envelope of every call.\<close>

record ClientRequest =
  cr_service_ordinal :: "uint32 option"
  cr_request_ordinal :: "uint32 option"
  cr_request_string :: "string option"

record ClientResponse =
  cs_response_string :: "string option"
  cs_error :: "ClientResponseErrorType option"

definition ClientRequest_Clear :: ClientRequest where
  "ClientRequest_Clear = \<lparr>cr_service_ordinal = None, cr_request_ordinal = None, cr_request_string = None\<rparr>"

definition ClientResponse_Clear :: ClientResponse where
  "ClientResponse_Clear = \<lparr>cs_response_string = None, cs_error = None\<rparr>"

definition field_or :: "'a \<Rightarrow> 'a option \<Rightarrow> 'a" where
  "field_or d x = (case x of None \<Rightarrow> d | Some v \<Rightarrow> v)"

abbreviation service_ordinal :: "ClientRequest \<Rightarrow> uint32" where
  "service_ordinal r \<equiv> field_or 0 (cr_service_ordinal r)"

abbreviation request_ordinal :: "ClientRequest \<Rightarrow> uint32" where
  "request_ordinal r \<equiv> field_or 0 (cr_request_ordinal r)"

abbreviation request_string :: "ClientRequest \<Rightarrow> string" where
  "request_string r \<equiv> field_or [] (cr_request_string r)"

abbreviation response_error :: "ClientResponse \<Rightarrow> ClientResponseErrorType" where
  "response_error r \<equiv> field_or REQUEST_SUCCESS (cs_error r)"

abbreviation response_string :: "ClientResponse \<Rightarrow> string" where
  "response_string r \<equiv> field_or [] (cs_response_string r)"

text \<open>The requests and responses of the basic protocol.\<close>

record HelloRequest =
  hq_source_type :: SourceConnectionType
  hq_expected_target :: DestinationConnectionType
  hq_node_name :: string

record HelloResponse =
  hs_error_type :: "HelloErrorType option"

record ServiceEntry =
  se_service_ordinal :: uint32
  se_service_name :: string

record ListServicesResponse =
  ls_services :: "ServiceEntry list"

record SubscribeServiceRequest =
  sq_service_ordinal :: uint32
  sq_subscribe_request_string :: "string option"

record SubscribeServiceResponse =
  ss_error :: "ServiceSubscribeErrorType option"
  ss_subscribe_result_string :: "string option"

record UnsubscribeServiceRequest =
  uq_service_ordinal :: uint32

record UnsubscribeServiceResponse =
  us_error :: "ServiceSubscribeErrorType option"

record ListMethodsRequest =
  lq_service_ordinal :: uint32

record MethodEntry =
  me_service_ordinal :: uint32
  me_service_name :: string

record ListMethodsResponse =
  lm_error :: "ListMethodErrorType option"
  lm_methods :: "MethodEntry list"

text \<open>Freshly constructed responses, as a dispatch function declares them.\<close>

definition HelloResponse_new :: HelloResponse where
  "HelloResponse_new = \<lparr>hs_error_type = None\<rparr>"

definition ListServicesResponse_new :: ListServicesResponse where
  "ListServicesResponse_new = \<lparr>ls_services = []\<rparr>"

definition SubscribeServiceResponse_new :: SubscribeServiceResponse where
  "SubscribeServiceResponse_new = \<lparr>ss_error = None, ss_subscribe_result_string = None\<rparr>"

definition UnsubscribeServiceResponse_new :: UnsubscribeServiceResponse where
  "UnsubscribeServiceResponse_new = \<lparr>us_error = None\<rparr>"

definition ListMethodsResponse_new :: ListMethodsResponse where
  "ListMethodsResponse_new = \<lparr>lm_error = None, lm_methods = []\<rparr>"

section \<open>What the code uses of protobuf\<close>

record protobuf =
  parse_HelloRequest :: "string \<Rightarrow> HelloRequest option"
  ser_HelloRequest :: "HelloRequest \<Rightarrow> string"
  read_HelloResponse :: "string \<Rightarrow> HelloResponse"
  ser_HelloResponse :: "HelloResponse \<Rightarrow> string option"
  parse_ListServicesRequest :: "string \<Rightarrow> unit option"
  ser_ListServicesRequest :: "unit \<Rightarrow> string"
  read_ListServicesResponse :: "string \<Rightarrow> ListServicesResponse"
  ser_ListServicesResponse :: "ListServicesResponse \<Rightarrow> string option"
  parse_SubscribeServiceRequest :: "string \<Rightarrow> SubscribeServiceRequest option"
  ser_SubscribeServiceRequest :: "SubscribeServiceRequest \<Rightarrow> string"
  read_SubscribeServiceResponse :: "string \<Rightarrow> SubscribeServiceResponse"
  ser_SubscribeServiceResponse :: "SubscribeServiceResponse \<Rightarrow> string option"
  parse_UnsubscribeServiceRequest :: "string \<Rightarrow> UnsubscribeServiceRequest option"
  ser_UnsubscribeServiceRequest :: "UnsubscribeServiceRequest \<Rightarrow> string"
  read_UnsubscribeServiceResponse :: "string \<Rightarrow> UnsubscribeServiceResponse"
  ser_UnsubscribeServiceResponse :: "UnsubscribeServiceResponse \<Rightarrow> string option"
  parse_ListMethodsRequest :: "string \<Rightarrow> ListMethodsRequest option"
  ser_ListMethodsRequest :: "ListMethodsRequest \<Rightarrow> string"
  read_ListMethodsResponse :: "string \<Rightarrow> ListMethodsResponse"
  ser_ListMethodsResponse :: "ListMethodsResponse \<Rightarrow> string option"

lemma field_or_simps [simp]: "field_or d None = d" "field_or d (Some v) = v"
  by (simp_all add: field_or_def)

end
