(* ===== verification/Client_Data.thy ===== *)
theory Client_Data
  imports Basic_Protocol_Messages
begin

text \<open>
  Per-client state (\<^verbatim>\<open>include/rpc/backend/ClientData.h\<close>): the I/O buffer, the client data
  with its request, response, error code and flags, and the set of connected clients.

  A \<open>ClientData *\<close> is a client number. The set of connected clients holds weak pointers,
  which compare by the object they were made from, so it is a set of client numbers; its
  mutex makes each operation atomic.
\<close>

type_synonym cid = nat

section \<open>Buffer\<close>

definition RBL_RPC_CONF_INITIAL_BUFFER_SIZE :: nat where
  "RBL_RPC_CONF_INITIAL_BUFFER_SIZE = 128"

text \<open>
  The bytes that were written since the array was allocated sit in \<open>buf\<close>, from its start;
  \<open>new uint8_t[n]\<close> leaves all bytes indeterminate.
\<close>

record Buffer =
  buf_size :: nat
  buf :: "byte list"

definition Buffer_new :: Buffer where
  "Buffer_new = \<lparr>buf_size = RBL_RPC_CONF_INITIAL_BUFFER_SIZE, buf = []\<rparr>"

definition Buffer_resize :: "nat \<Rightarrow> Buffer \<Rightarrow> Buffer" where
  "Buffer_resize new_size b = b\<lparr>buf := [], buf_size := new_size\<rparr>"

section \<open>ClientData\<close>

record ClientData =
  cd_request :: ClientRequest
  cd_response :: ClientResponse
  cd_name :: string
  cd_ec :: error_code
  cd_flags :: uint32
  cd_rpc_active :: bool
  cd_should_disconect :: bool
  cd_client_established :: bool

definition ClientData_new :: ClientData where
  "ClientData_new =
     \<lparr>cd_request = ClientRequest_Clear, cd_response = ClientResponse_Clear, cd_name = [],
      cd_ec = ec_clear, cd_flags = 0, cd_rpc_active = False, cd_should_disconect = False,
      cd_client_established = False\<rparr>"

definition start_rpc :: "ClientData \<Rightarrow> (exn, ClientData) res" where
  "start_rpc cd =
     (if cd_rpc_active cd then Inl AssertionFailed else Inr (cd\<lparr>cd_rpc_active := True\<rparr>))"

definition end_rpc :: "ClientData \<Rightarrow> (exn, ClientData) res" where
  "end_rpc cd =
     (if \<not> cd_rpc_active cd then Inl AssertionFailed else Inr (cd\<lparr>cd_rpc_active := False\<rparr>))"

definition request_disconect :: "ClientData \<Rightarrow> ClientData" where
  "request_disconect cd = cd\<lparr>cd_should_disconect := True\<rparr>"

definition establish_client :: "ClientData \<Rightarrow> (exn, ClientData) res" where
  "establish_client cd =
     (if cd_client_established cd then Inl AssertionFailed
      else Inr (cd\<lparr>cd_client_established := True\<rparr>))"

text \<open>\<open>cd.error_code().assign(c, rpc_backend_error)\<close> and \<open>cd.response().set_error(e)\<close>.\<close>

definition cd_assign_error :: "e_code \<Rightarrow> ClientData \<Rightarrow> ClientData" where
  "cd_assign_error c cd = cd\<lparr>cd_ec := ec_assign c rpc_backend_error\<rparr>"

definition cd_set_response_error :: "ClientResponseErrorType \<Rightarrow> ClientData \<Rightarrow> ClientData" where
  "cd_set_response_error e cd = cd\<lparr>cd_response := (cd_response cd)\<lparr>cs_error := Some e\<rparr>\<rparr>"

definition cd_set_response_string :: "string \<Rightarrow> ClientData \<Rightarrow> ClientData" where
  "cd_set_response_string s cd = cd\<lparr>cd_response := (cd_response cd)\<lparr>cs_response_string := Some s\<rparr>\<rparr>"

section \<open>ConnectedClientsSet\<close>

type_synonym ConnectedClientsSet = "cid set"

definition clients_insert :: "cid \<Rightarrow> ConnectedClientsSet \<Rightarrow> bool \<times> ConnectedClientsSet" where
  "clients_insert x s = (x \<notin> s, insert x s)"

text \<open>The number of erased elements, and the set that is left.\<close>

definition clients_erase :: "cid \<Rightarrow> ConnectedClientsSet \<Rightarrow> nat \<times> ConnectedClientsSet" where
  "clients_erase x s = (if x \<in> s then 1 else 0, s - {x})"

definition clients_size :: "ConnectedClientsSet \<Rightarrow> nat" where
  "clients_size s = card s"

lemma start_end_rpc:
  "start_rpc cd = Inr cd' \<Longrightarrow> end_rpc cd' = Inr cd"
  by (auto simp: start_rpc_def end_rpc_def split: if_splits)

lemma cd_updates [simp]:
  "cd_rpc_active (cd_assign_error c cd) = cd_rpc_active cd"
  "cd_rpc_active (cd_set_response_error e cd) = cd_rpc_active cd"
  "cd_rpc_active (cd_set_response_string s cd) = cd_rpc_active cd"
  "cd_rpc_active (request_disconect cd) = cd_rpc_active cd"
  "cd_client_established (cd_assign_error c cd) = cd_client_established cd"
  "cd_client_established (cd_set_response_error e cd) = cd_client_established cd"
  "cd_client_established (cd_set_response_string s cd) = cd_client_established cd"
  "cd_client_established (request_disconect cd) = cd_client_established cd"
  "cd_request (cd_assign_error c cd) = cd_request cd"
  "cd_request (cd_set_response_error e cd) = cd_request cd"
  "cd_request (cd_set_response_string s cd) = cd_request cd"
  "cd_request (request_disconect cd) = cd_request cd"
  "cd_should_disconect (cd_assign_error c cd) = cd_should_disconect cd"
  "cd_should_disconect (cd_set_response_error e cd) = cd_should_disconect cd"
  "cd_should_disconect (cd_set_response_string s cd) = cd_should_disconect cd"
  "cd_should_disconect (request_disconect cd)"
  "cd_ec (cd_assign_error c cd) = ec_assign c rpc_backend_error"
  "cd_ec (cd_set_response_error e cd) = cd_ec cd"
  "cd_ec (cd_set_response_string s cd) = cd_ec cd"
  "cd_ec (request_disconect cd) = cd_ec cd"
  "cd_response (cd_assign_error c cd) = cd_response cd"
  "cd_response (cd_set_response_error e cd) = (cd_response cd)\<lparr>cs_error := Some e\<rparr>"
  "cd_response (cd_set_response_string s cd) = (cd_response cd)\<lparr>cs_response_string := Some s\<rparr>"
  "cd_response (request_disconect cd) = cd_response cd"
  "cd_name (cd_assign_error c cd) = cd_name cd"
  "cd_name (cd_set_response_error e cd) = cd_name cd"
  "cd_name (cd_set_response_string s cd) = cd_name cd"
  "cd_name (request_disconect cd) = cd_name cd"
  "cd_flags (cd_assign_error c cd) = cd_flags cd"
  "cd_flags (cd_set_response_error e cd) = cd_flags cd"
  "cd_flags (cd_set_response_string s cd) = cd_flags cd"
  "cd_flags (request_disconect cd) = cd_flags cd"
  by (simp_all add: cd_assign_error_def cd_set_response_error_def cd_set_response_string_def
      request_disconect_def)

end
