(* ===== verification/Client_Service_Cookies.thy ===== *)
theory Client_Service_Cookies
  imports Client_Data "HOL-Library.AList"
begin

text \<open>
  The cookies the backend keeps for every pair of a service and a client
  (\<^verbatim>\<open>include/rpc/backend/ClientServiceCookies.h\<close>,
  \<^verbatim>\<open>src/rpc/server/ClientServiceCookies.cc\<close>).

  \<open>'ck\<close> is the type of the service's own cookie data behind \<open>ClientCookieBase *\<close>, with
  \<open>None\<close> for the null pointer. A \<open>std::map<ClientData *, ClientCookie>\<close> is an association
  list without repeated keys; the vector holds a pointer to such a map per service, \<open>None\<close>
  until the service is activated. A \<open>ClientCookie *\<close> into the store is the pair of service
  ordinal and client it was obtained for: references into a \<open>std::map\<close> stay valid until
  their element is erased. The mutex of the store makes each operation atomic.
\<close>

section \<open>ClientCookie\<close>

record 'ck ClientCookie =
  m_cookie_base :: "'ck option"
  m_subscribed :: bool

definition ClientCookie_new :: "'ck ClientCookie" where
  "ClientCookie_new = \<lparr>m_cookie_base = None, m_subscribed = False\<rparr>"

definition is_subscribed :: "'ck ClientCookie \<Rightarrow> bool" where
  "is_subscribed c = m_subscribed c"

definition cookie_subscribe :: "'ck ClientCookie \<Rightarrow> 'ck ClientCookie" where
  "cookie_subscribe c = c\<lparr>m_subscribed := True\<rparr>"

text \<open>\<open>t\<close> is the value the default constructor of the cookie type makes.\<close>

definition create_cookie :: "'ck \<Rightarrow> 'ck ClientCookie \<Rightarrow> (exn, 'ck ClientCookie) res" where
  "create_cookie t c =
     (if m_cookie_base c \<noteq> None then Inl AssertionFailed else Inr (c\<lparr>m_cookie_base := Some t\<rparr>))"

definition retrieve_cookie :: "'ck ClientCookie \<Rightarrow> (exn, 'ck) res" where
  "retrieve_cookie c = (case m_cookie_base c of None \<Rightarrow> Inl AssertionFailed | Some t \<Rightarrow> Inr t)"

definition destroy_cookie :: "'ck ClientCookie \<Rightarrow> 'ck ClientCookie" where
  "destroy_cookie c = (if m_cookie_base c \<noteq> None then c\<lparr>m_cookie_base := None\<rparr> else c)"

section \<open>ClientServiceCookies\<close>

type_synonym 'ck cookie_map = "(cid \<times> 'ck ClientCookie) list"

type_synonym 'ck ClientServiceCookies = "'ck cookie_map option list"

datatype OP_ERROR_CODE = SUCCESS | COOKIE_ABSENT

text \<open>\<open>size() - 1\<close> in 64-bit unsigned arithmetic.\<close>

definition size_minus_1 :: "nat \<Rightarrow> nat" where
  "size_minus_1 n = (if n = 0 then 2 ^ 64 - 1 else n - 1)"

definition set_size_cookies :: "nat \<Rightarrow> 'ck ClientServiceCookies \<Rightarrow> (exn, 'ck ClientServiceCookies) res" where
  "set_size_cookies sz v =
     (if length v \<noteq> 0 then Inl AssertionFailed else Inr (replicate sz None))"

text \<open>
  The prologue shared by the operations on one service: the range assertion, the indexing
  of the vector (undefined outside it) and the assertion that the service is active.
\<close>

definition cookie_map_at :: "uint16 \<Rightarrow> 'ck ClientServiceCookies \<Rightarrow> (exn, 'ck cookie_map) res" where
  "cookie_map_at k v =
     (if unat k > size_minus_1 (length v) then Inl AssertionFailed
      else if \<not> unat k < length v then Inl UndefinedBehaviour
      else case v ! unat k of None \<Rightarrow> Inl AssertionFailed | Some cm \<Rightarrow> Inr cm)"

definition delete_cookie :: "uint16 \<Rightarrow> cid \<Rightarrow> 'ck ClientServiceCookies
    \<Rightarrow> (exn, OP_ERROR_CODE \<times> 'ck ClientServiceCookies) res" where
  "delete_cookie k x v =
     ebind (cookie_map_at k v) (\<lambda>cm.
       let r = (if x \<in> fst ` set cm then 1 else 0 :: nat);
           v' = v[unat k := Some (AList.delete x cm)]
       in if r = 0 then Inr (COOKIE_ABSENT, v') else Inr (SUCCESS, v'))"

definition cookie_count :: "uint16 \<Rightarrow> 'ck ClientServiceCookies \<Rightarrow> (exn, OP_ERROR_CODE \<times> nat) res" where
  "cookie_count k v = ebind (cookie_map_at k v) (\<lambda>cm. Inr (SUCCESS, length cm))"

definition activate_service_with_ordinal :: "uint16 \<Rightarrow> 'ck ClientServiceCookies
    \<Rightarrow> (exn, 'ck ClientServiceCookies) res" where
  "activate_service_with_ordinal k v =
     (if \<not> length v > unat k then Inl AssertionFailed
      else if v ! unat k \<noteq> None then Inl AssertionFailed
      else Inr (v[unat k := Some []]))"

definition create_or_retrieve_cookie :: "uint16 \<Rightarrow> cid \<Rightarrow> 'ck ClientServiceCookies
    \<Rightarrow> (exn, 'ck ClientCookie \<times> 'ck ClientServiceCookies) res" where
  "create_or_retrieve_cookie k x v =
     ebind (cookie_map_at k v) (\<lambda>cm.
       case map_of cm x of
         None \<Rightarrow> Inr (ClientCookie_new, v[unat k := Some (AList.update x ClientCookie_new cm)])
       | Some c \<Rightarrow> Inr (c, v))"

definition contains_cookie :: "uint16 \<Rightarrow> cid \<Rightarrow> 'ck ClientServiceCookies \<Rightarrow> (exn, OP_ERROR_CODE) res" where
  "contains_cookie k x v =
     ebind (cookie_map_at k v) (\<lambda>cm.
       case map_of cm x of None \<Rightarrow> Inr COOKIE_ABSENT | Some c \<Rightarrow> Inr SUCCESS)"

text \<open>
  Access through a \<open>ClientCookie *\<close>: reading and writing the element it points to is
  undefined once that element was erased.
\<close>

definition cookie_read :: "uint16 \<Rightarrow> cid \<Rightarrow> 'ck ClientServiceCookies \<Rightarrow> (exn, 'ck ClientCookie) res" where
  "cookie_read k x v =
     (if \<not> unat k < length v then Inl UndefinedBehaviour
      else case v ! unat k of
             None \<Rightarrow> Inl UndefinedBehaviour
           | Some cm \<Rightarrow> (case map_of cm x of None \<Rightarrow> Inl UndefinedBehaviour | Some c \<Rightarrow> Inr c))"

definition cookie_write :: "uint16 \<Rightarrow> cid \<Rightarrow> 'ck ClientCookie \<Rightarrow> 'ck ClientServiceCookies
    \<Rightarrow> (exn, 'ck ClientServiceCookies) res" where
  "cookie_write k x c v =
     (if \<not> unat k < length v then Inl UndefinedBehaviour
      else case v ! unat k of
             None \<Rightarrow> Inl UndefinedBehaviour
           | Some cm \<Rightarrow>
               (case map_of cm x of
                  None \<Rightarrow> Inl UndefinedBehaviour
                | Some _ \<Rightarrow> Inr (v[unat k := Some (AList.update x c cm)])))"

section \<open>Invariant and abstraction\<close>

text \<open>The store of \<open>n\<close> active services, and the map from service and client to cookie it implements.\<close>

definition cookies_ok :: "nat \<Rightarrow> 'ck ClientServiceCookies \<Rightarrow> bool" where
  "cookies_ok n v \<longleftrightarrow>
     length v = n \<and> (\<forall>m \<in> set v. case m of None \<Rightarrow> False | Some cm \<Rightarrow> distinct (map fst cm))"

definition cookies_abs :: "'ck ClientServiceCookies \<Rightarrow> nat \<times> cid \<rightharpoonup> 'ck ClientCookie" where
  "cookies_abs v p =
     (if fst p < length v
      then (case v ! fst p of None \<Rightarrow> None | Some cm \<Rightarrow> map_of cm (snd p))
      else None)"

lemma cookies_okE:
  assumes "cookies_ok n v" "k < n"
  obtains cm where "v ! k = Some cm" "distinct (map fst cm)"
proof -
  have "v ! k \<in> set v" using assms by (simp add: cookies_ok_def)
  with assms(1) that show ?thesis
    by (auto simp: cookies_ok_def split: option.splits)
qed

lemma cookies_ok_update:
  "cookies_ok n v \<Longrightarrow> distinct (map fst cm) \<Longrightarrow> cookies_ok n (v[k := Some cm])"
  unfolding cookies_ok_def by (auto dest!: set_update_subset_insert [THEN subsetD])

lemma cookie_map_at_ok:
  assumes "cookies_ok n v" "unat k < n"
  obtains cm where "cookie_map_at k v = Inr cm" "v ! unat k = Some cm" "distinct (map fst cm)"
    "\<And>x. map_of cm x = cookies_abs v (unat k, x)"
proof -
  from assms obtain cm where cm: "v ! unat k = Some cm" "distinct (map fst cm)"
    by (rule cookies_okE)
  have len: "length v = n" using assms by (simp add: cookies_ok_def)
  show ?thesis
    using assms(2) cm len by (intro that [of cm]) (simp_all add: cookie_map_at_def size_minus_1_def cookies_abs_def)
qed

lemma cookies_abs_upd:
  "k < length v \<Longrightarrow> v ! k = Some cm \<Longrightarrow>
     cookies_abs (v[k := Some cm']) (j, y) = (if j = k then map_of cm' y else cookies_abs v (j, y))"
  by (auto simp: cookies_abs_def nth_list_update)

lemma cookies_abs_AList_update:
  assumes "k < length v" "v ! k = Some cm"
  shows "cookies_abs (v[k := Some (AList.update x c cm)]) = (cookies_abs v)((k, x) \<mapsto> c)"
proof
  fix p :: "nat \<times> cid"
  obtain j y where p: "p = (j, y)" by (cases p)
  show "cookies_abs (v[k := Some (AList.update x c cm)]) p = ((cookies_abs v)((k, x) \<mapsto> c)) p"
    unfolding p cookies_abs_upd [OF assms]
    using assms by (simp add: update_conv' cookies_abs_def)
qed

section \<open>The contract of the cookie store\<close>

text \<open>
  What the backend relies on: obtaining a cookie returns the stored one or a fresh one and
  stores it, writing through the pointer replaces it, deleting forgets it, and no operation
  touches another pair of service and client.
\<close>

locale cookie_store =
  fixes obt :: "uint16 \<Rightarrow> cid \<Rightarrow> 'v \<Rightarrow> (exn, 'c \<times> 'v) res"
    and wr :: "uint16 \<Rightarrow> cid \<Rightarrow> 'c \<Rightarrow> 'v \<Rightarrow> (exn, 'v) res"
    and del :: "uint16 \<Rightarrow> cid \<Rightarrow> 'v \<Rightarrow> (exn, OP_ERROR_CODE \<times> 'v) res"
    and rd :: "uint16 \<Rightarrow> cid \<Rightarrow> 'v \<Rightarrow> (exn, 'c) res"
    and fresh :: 'c
    and ok :: "nat \<Rightarrow> 'v \<Rightarrow> bool"
    and abs :: "'v \<Rightarrow> nat \<times> cid \<rightharpoonup> 'c"
  assumes obt_spec: "ok n v \<Longrightarrow> unat k < n \<Longrightarrow>
      \<exists>v'. obt k x v = Inr (case abs v (unat k, x) of None \<Rightarrow> fresh | Some c \<Rightarrow> c, v') \<and> ok n v' \<and>
        abs v' = (abs v)((unat k, x) \<mapsto> (case abs v (unat k, x) of None \<Rightarrow> fresh | Some c \<Rightarrow> c))"
    and wr_spec: "ok n v \<Longrightarrow> unat k < n \<Longrightarrow> abs v (unat k, x) = Some c0 \<Longrightarrow>
      \<exists>v'. wr k x c v = Inr v' \<and> ok n v' \<and> abs v' = (abs v)((unat k, x) \<mapsto> c)"
    and del_spec: "ok n v \<Longrightarrow> unat k < n \<Longrightarrow>
      \<exists>v'. del k x v = Inr (if abs v (unat k, x) = None then COOKIE_ABSENT else SUCCESS, v') \<and> ok n v' \<and>
        abs v' = (abs v)((unat k, x) := None)"
    and rd_spec: "ok n v \<Longrightarrow> unat k < n \<Longrightarrow>
      rd k x v = (case abs v (unat k, x) of None \<Rightarrow> Inl UndefinedBehaviour | Some c \<Rightarrow> Inr c)"
begin

lemma obt_then_read:
  assumes "ok n v" "unat k < n" "obt k x v = Inr (c, v')"
  shows "rd k x v' = Inr c" "ok n v'" "\<And>j y. (j, y) \<noteq> (unat k, x) \<Longrightarrow> abs v' (j, y) = abs v (j, y)"
proof -
  from obt_spec [OF assms(1,2), of x] assms(3)
  have *: "ok n v'" "abs v' = (abs v)((unat k, x) \<mapsto> c)"
    by auto
  then show "rd k x v' = Inr c" "ok n v'" using rd_spec [OF *(1) assms(2)] by simp_all
  show "abs v' (j, y) = abs v (j, y)" if "(j, y) \<noteq> (unat k, x)" for j y
    using *(2) that by (metis fun_upd_other)
qed

lemma obt_write_obt:
  assumes "ok n v" "unat k < n" "obt k x v = Inr (c, v1)" "wr k x c' v1 = Inr v2"
  shows "\<exists>v3. obt k x v2 = Inr (c', v3) \<and> ok n v3"
proof -
  have v1: "ok n v1" "abs v1 (unat k, x) = Some c"
    using obt_spec [OF assms(1,2), of x] assms(3) by auto
  with wr_spec [OF v1(1) assms(2) v1(2), of c'] assms(4)
  have v2: "ok n v2" "abs v2 (unat k, x) = Some c'" by auto
  with obt_spec [OF v2(1) assms(2), of x] show ?thesis by auto
qed

lemma del_then_fresh:
  assumes "ok n v" "unat k < n" "del k x v = Inr (r, v')"
  shows "\<exists>v3. obt k x v' = Inr (fresh, v3) \<and> ok n v3"
proof -
  have v': "ok n v'" "abs v' (unat k, x) = None"
    using del_spec [OF assms(1,2), of x] assms(3) by auto
  with obt_spec [OF v'(1) assms(2), of x] show ?thesis by auto
qed

end

interpretation ck: cookie_store create_or_retrieve_cookie cookie_write delete_cookie cookie_read
  ClientCookie_new cookies_ok cookies_abs
proof unfold_locales
  fix n and v :: "'a ClientServiceCookies" and k :: uint16 and x
  assume ok: "cookies_ok n v" and k: "unat k < n"
  then have len: "unat k < length v" by (simp add: cookies_ok_def)
  from ok k obtain cm where cm: "cookie_map_at k v = Inr cm" "v ! unat k = Some cm" "distinct (map fst cm)"
    "\<And>x. map_of cm x = cookies_abs v (unat k, x)"
    by (rule cookie_map_at_ok) blast
  have upd: "cookies_ok n (v[unat k := Some (AList.update x c cm)])" for c
    using ok cm(3) by (intro cookies_ok_update distinct_update)
  note abs_upd = cookies_abs_AList_update [OF len cm(2)]
  show "\<exists>v'. create_or_retrieve_cookie k x v =
      Inr (case cookies_abs v (unat k, x) of None \<Rightarrow> ClientCookie_new | Some c \<Rightarrow> c, v') \<and> cookies_ok n v' \<and>
      cookies_abs v' = (cookies_abs v)((unat k, x) \<mapsto>
        (case cookies_abs v (unat k, x) of None \<Rightarrow> ClientCookie_new | Some c \<Rightarrow> c))"
    using cm ok upd abs_upd
    by (cases "cookies_abs v (unat k, x)") (auto simp: create_or_retrieve_cookie_def fun_upd_idem)
  show "\<exists>v'. cookie_write k x c v = Inr v' \<and> cookies_ok n v' \<and>
      cookies_abs v' = (cookies_abs v)((unat k, x) \<mapsto> c)" if "cookies_abs v (unat k, x) = Some c0" for c c0
    using that cm len upd abs_upd by (simp add: cookie_write_def)
  show "cookie_read k x v =
      (case cookies_abs v (unat k, x) of None \<Rightarrow> Inl UndefinedBehaviour | Some c \<Rightarrow> Inr c)"
    using cm len by (simp add: cookie_read_def)
  have "cookies_ok n (v[unat k := Some (AList.delete x cm)])"
    using ok cm(3) by (intro cookies_ok_update distinct_delete)
  moreover have "cookies_abs (v[unat k := Some (AList.delete x cm)]) = (cookies_abs v)((unat k, x) := None)"
    using cookies_abs_upd [OF len cm(2)] cm(4) by (auto simp: fun_eq_iff delete_conv')
  moreover have "x \<in> fst ` set cm \<longleftrightarrow> cookies_abs v (unat k, x) \<noteq> None"
    using cm(4) [of x] by (metis map_of_eq_None_iff)
  ultimately show "\<exists>v'. delete_cookie k x v =
      Inr (if cookies_abs v (unat k, x) = None then COOKIE_ABSENT else SUCCESS, v') \<and> cookies_ok n v' \<and>
      cookies_abs v' = (cookies_abs v)((unat k, x) := None)"
    using cm(1) by (auto simp: delete_cookie_def Let_def)
qed

end
