(* ===== verification/Service_Base.thy ===== *)
theory Service_Base
  imports Oid_Table Client_Service_Cookies
begin

text \<open>
  Services (\<^verbatim>\<open>include/rpc/backend/ServiceBase.h\<close>) and the server classes that the protobuf
  plugin writes for them (\<^verbatim>\<open>src/rpc/codegen/proto_rbl_rpc_generator.cc\<close>): the class
  \<open>$SERV_NAME$<T_IMPL>\<close> with its dispatch table and the free dispatch functions, as the
  \<open>Print\<close> statements of the generator spell them out.

  The implementation class \<open>T_IMPL\<close> of a service is supplied by the program that links
  against the library: it is a record of functions on a state of its own, which receive the
  cookie, the client data and the decoded message as the generated code passes them and
  return what they leave behind. \<open>BasicProtocolImpl\<close>, the implementation inside the library,
  works on the backend and is modelled with it.
\<close>

section \<open>Implementations and services\<close>

record ('st, 'ck, 'm) UserImpl =
  u_state :: 'st
  u_init :: "'st \<Rightarrow> error_code \<Rightarrow> 'st \<times> error_code"
  u_teardown :: "'st \<Rightarrow> error_code \<Rightarrow> 'st \<times> error_code"
  u_subscribe :: "'st \<Rightarrow> 'ck ClientCookie \<Rightarrow> ClientData \<Rightarrow> string option \<Rightarrow> string
    \<Rightarrow> 'st \<times> 'ck ClientCookie \<times> ClientData \<times> string"
  u_unsubscribe :: "'st \<Rightarrow> 'ck ClientCookie \<Rightarrow> ClientData \<Rightarrow> 'st \<times> 'ck ClientCookie \<times> ClientData"
  u_call :: "nat \<Rightarrow> 'st \<Rightarrow> 'ck ClientCookie \<Rightarrow> ClientData \<Rightarrow> 'm \<Rightarrow> 'st \<times> 'ck ClientCookie \<times> ClientData \<times> 'm"
  u_parse :: "nat \<Rightarrow> string \<Rightarrow> 'm option"
  u_serialize :: "nat \<Rightarrow> 'm \<Rightarrow> string option"

datatype ('st, 'ck, 'm) Impl = BasicProtocolImpl | Linked "('st, 'ck, 'm) UserImpl"

text \<open>
  What the generator reads of a protobuf \<open>ServiceDescriptor\<close>: the service's name and the
  names of its methods. A pointer to the dispatch function of a method is the method's number.
\<close>

record ServiceDescriptor =
  sd_name :: string
  sd_methods :: "string list"

record ('ix, 'st, 'ck, 'm) Service =
  svc_name :: string
  svc_dispatch_table :: "('ix, nat option) OidContainer"
  svc_impl :: "('st, 'ck, 'm) Impl"

section \<open>The generated server class\<close>

text \<open>
  The body of the generated constructors: one \<open>SetEntry(common::Oid("name", i), e)\<close> per
  method, whose response is dropped. The construction of the \<open>Oid\<close> may throw.
\<close>

fun fill_table :: "'ix boost \<Rightarrow> 'e \<Rightarrow> nat \<Rightarrow> (string \<times> 'e) list \<Rightarrow> ('ix, 'e) OidContainer
    \<Rightarrow> (exn, unit, ('ix, 'e) OidContainer) sres" where
  "fill_table L e0 i [] c = (Inr (), c)"
| "fill_table L e0 i ((name, e) # ms) c =
     (case Oid L name (of_nat i) of
        Inl x \<Rightarrow> (Inl x, c)
      | Inr d \<Rightarrow> sbind (SetEntry_id L e0 d e c) (\<lambda>_ c. fill_table L e0 (Suc i) ms c))"

definition create_constructor :: "'ix boost \<Rightarrow> ServiceDescriptor \<Rightarrow> ('st, 'ck, 'm) Impl
    \<Rightarrow> (exn, ('ix, 'st, 'ck, 'm) Service) res" where
  "create_constructor L sd impl =
     (case fill_table L None 0 (zip (sd_methods sd) (map Some [0..<length (sd_methods sd)]))
             (OidContainer_empty L) of
        (Inl x, c) \<Rightarrow> Inl x
      | (Inr _, c) \<Rightarrow> Inr \<lparr>svc_name = sd_name sd, svc_dispatch_table = c, svc_impl = impl\<rparr>)"

definition contains_function_at_ordinal :: "('ix, 'st, 'ck, 'm) Service \<Rightarrow> uint16 \<Rightarrow> bool" where
  "contains_function_at_ordinal s ordinal \<longleftrightarrow> \<not> (at_ordinal (svc_dispatch_table s) ordinal = None)"

text \<open>
  A generated dispatch function, for the given parser of the input type, implementation
  call and serialiser of the output type; \<open>'w\<close> is the state the implementation works on.
\<close>

definition generated_dispatch_function :: "(string \<Rightarrow> 'i option)
    \<Rightarrow> ('i \<Rightarrow> ClientData \<Rightarrow> 'w \<Rightarrow> (exn, 'o \<times> ClientData, 'w) sres) \<Rightarrow> ('o \<Rightarrow> string option)
    \<Rightarrow> ClientData \<Rightarrow> 'w \<Rightarrow> (exn, ClientData, 'w) sres" where
  "generated_dispatch_function parse call ser cd w =
     (case parse (request_string (cd_request cd)) of
        None \<Rightarrow>
          (Inr (cd_set_response_error REQUEST_STRING_PARSE_ERROR
             (cd_assign_error RBL_BACKEND_INVOKE_REQUEST_STRING_PARSE_ERROR cd)), w)
      | Some m_in \<Rightarrow>
          sbind (call m_in cd w) (\<lambda>(m_out, cd) w.
            case ser m_out of
              None \<Rightarrow>
                (Inr (cd_set_response_error REQUEST_STRING_SERIALIZE_ERROR
                   (cd_assign_error RBL_BACKEND_INVOKE_RESPONSE_STRING_SERIALIZE_ERROR
                     (cd_set_response_string [] cd))), w)
            | Some s \<Rightarrow> (Inr (cd_set_response_string s cd), w)))"

text \<open>The call of method \<open>n\<close> of a linked implementation, on its state and the client's cookie.\<close>

definition linked_call :: "nat \<Rightarrow> 'm \<Rightarrow> ClientData \<Rightarrow> ('st, 'ck, 'm) UserImpl \<times> 'ck ClientCookie
    \<Rightarrow> (exn, 'm \<times> ClientData, ('st, 'ck, 'm) UserImpl \<times> 'ck ClientCookie) sres" where
  "linked_call n m_in cd w =
     (case w of (u, cc) \<Rightarrow>
        case u_call u n (u_state u) cc cd m_in of
          (st, cc, cd, m_out) \<Rightarrow> (Inr (m_out, cd), (u\<lparr>u_state := st\<rparr>, cc)))"

definition linked_dispatch :: "nat \<Rightarrow> ClientData \<Rightarrow> ('st, 'ck, 'm) UserImpl \<times> 'ck ClientCookie
    \<Rightarrow> (exn, ClientData, ('st, 'ck, 'm) UserImpl \<times> 'ck ClientCookie) sres" where
  "linked_dispatch n cd w =
     generated_dispatch_function (u_parse (fst w) n) (linked_call n) (u_serialize (fst w) n) cd w"

text \<open>What \<open>BasicProtocolImpl\<close> does in them: it clears the code, and nothing else.\<close>

abbreviation bp_init :: "error_code \<Rightarrow> error_code" where
  "bp_init ec \<equiv> ec_clear"

abbreviation bp_teardown :: "error_code \<Rightarrow> error_code" where
  "bp_teardown ec \<equiv> ec_clear"

abbreviation bp_subscribe :: "'ck ClientCookie \<Rightarrow> ClientData \<Rightarrow> string option \<Rightarrow> string \<Rightarrow> 'ck ClientCookie \<times> ClientData \<times> string" where
  "bp_subscribe cc cd req res \<equiv> (cc, cd, res)"

abbreviation bp_unsubscribe :: "'ck ClientCookie \<Rightarrow> ClientData \<Rightarrow> 'ck ClientCookie \<times> ClientData" where
  "bp_unsubscribe cc cd \<equiv> (cc, cd)"

text \<open>The remaining virtual functions of the generated class.\<close>

definition service_init :: "('ix, 'st, 'ck, 'm) Service \<Rightarrow> error_code \<Rightarrow> ('ix, 'st, 'ck, 'm) Service \<times> error_code" where
  "service_init s ec =
     (case svc_impl s of
        BasicProtocolImpl \<Rightarrow> (s, bp_init ec)
      | Linked u \<Rightarrow>
          (case u_init u (u_state u) ec of (st, ec) \<Rightarrow> (s\<lparr>svc_impl := Linked (u\<lparr>u_state := st\<rparr>)\<rparr>, ec)))"

definition service_teardown :: "('ix, 'st, 'ck, 'm) Service \<Rightarrow> error_code \<Rightarrow> ('ix, 'st, 'ck, 'm) Service \<times> error_code" where
  "service_teardown s ec =
     (case svc_impl s of
        BasicProtocolImpl \<Rightarrow> (s, bp_teardown ec)
      | Linked u \<Rightarrow>
          (case u_teardown u (u_state u) ec of (st, ec) \<Rightarrow> (s\<lparr>svc_impl := Linked (u\<lparr>u_state := st\<rparr>)\<rparr>, ec)))"

definition service_subscribe :: "('ix, 'st, 'ck, 'm) Service \<Rightarrow> 'ck ClientCookie \<Rightarrow> ClientData
    \<Rightarrow> string option \<Rightarrow> string \<Rightarrow> ('ix, 'st, 'ck, 'm) Service \<times> 'ck ClientCookie \<times> ClientData \<times> string" where
  "service_subscribe s cc cd req res =
     (case svc_impl s of
        BasicProtocolImpl \<Rightarrow> (s, bp_subscribe cc cd req res)
      | Linked u \<Rightarrow>
          (case u_subscribe u (u_state u) cc cd req res of
             (st, cc, cd, res) \<Rightarrow> (s\<lparr>svc_impl := Linked (u\<lparr>u_state := st\<rparr>)\<rparr>, cc, cd, res)))"

definition service_unsubscribe :: "('ix, 'st, 'ck, 'm) Service \<Rightarrow> 'ck ClientCookie \<Rightarrow> ClientData
    \<Rightarrow> ('ix, 'st, 'ck, 'm) Service \<times> 'ck ClientCookie \<times> ClientData" where
  "service_unsubscribe s cc cd =
     (case svc_impl s of
        BasicProtocolImpl \<Rightarrow> (s, bp_unsubscribe cc cd)
      | Linked u \<Rightarrow>
          (case u_unsubscribe u (u_state u) cc cd of
             (st, cc, cd) \<Rightarrow> (s\<lparr>svc_impl := Linked (u\<lparr>u_state := st\<rparr>)\<rparr>, cc, cd)))"

section \<open>Listing the methods\<close>

text \<open>A \<open>std::string\<close> made from \<open>name().c_str()\<close>: the bytes up to the terminating NUL.\<close>

definition name_string :: "OidName \<Rightarrow> (exn, string) res" where
  "name_string n =
     ebind (name_c_str n) (\<lambda>p.
       if NUL \<in> set p then Inr (takeWhile (\<lambda>c. c \<noteq> NUL) p) else Inl UndefinedBehaviour)"

fun method_entries :: "('ix, nat option) OidContainer \<Rightarrow> nat list \<Rightarrow> MethodEntry list
    \<Rightarrow> (exn, MethodEntry list) res" where
  "method_entries t [] acc = Inr acc"
| "method_entries t (i # is) acc =
     (case EntryAtordinal t (of_nat i) of
        None \<Rightarrow> Inl AssertionFailed
      | Some p \<Rightarrow>
          ebind (name_string (entry_name (entries t ! p))) (\<lambda>n.
            method_entries t is
              (acc @ [\<lparr>me_service_ordinal = ucast (entry_ordinal (entries t ! p)), me_service_name = n\<rparr>])))"

definition ff_produce_method_list :: "('ix, nat option) OidContainer \<Rightarrow> ListMethodsResponse
    \<Rightarrow> (exn, ListMethodsResponse) res" where
  "ff_produce_method_list t lmr =
     ebind (method_entries t [0..<OidContainer_size t] (lm_methods lmr)) (\<lambda>ms.
       Inr (lmr\<lparr>lm_methods := ms\<rparr>))"

definition produce_method_list :: "('ix, 'st, 'ck, 'm) Service \<Rightarrow> ListMethodsResponse
    \<Rightarrow> (exn, ListMethodsResponse) res" where
  "produce_method_list s lmr = ff_produce_method_list (svc_dispatch_table s) lmr"

end
