(* ===== verification/Service_Facts.thy ===== *)
theory Service_Facts
  imports Service_Base
begin

text \<open>
  Facts about the generated classes: the constructors fill a table without holes, so
  \<open>contains_function_at_ordinal\<close> and the method list are exactly those of the descriptor,
  and the dispatch functions report parse and serialisation failures.
\<close>

lemma of_nat_uint32_ucast:
  "i < 65536 \<Longrightarrow> (of_nat i :: uint32) = ucast (of_nat i :: uint16)"
  by (simp add: word_unat_eq_iff unat_of_nat)

lemma unat_of_nat_uint16 [simp, width_simps]: "i < 65536 \<Longrightarrow> unat (of_nat i :: uint16) = i"
  by (simp add: unat_of_nat)

lemma unat_of_nat_uint32 [width_simps]: "i < 65536 \<Longrightarrow> unat (of_nat i :: uint32) = i"
  by (simp add: unat_of_nat)

section \<open>Tables filled by a constructor\<close>

definition method_ids :: "'ix boost \<Rightarrow> nat \<Rightarrow> (string \<times> 'e) list \<Rightarrow> (OidType \<times> 'e) list" where
  "method_ids L i ms =
     map (\<lambda>(j, (name, e)). (\<lparr>oid_name = name_of L name, oid_ordinal = of_nat j\<rparr>, e)) (enumerate i ms)"

lemma method_ids_nth:
  "k < length ms \<Longrightarrow> method_ids L i ms ! k =
     (\<lparr>oid_name = name_of L (fst (ms ! k)), oid_ordinal = of_nat (i + k)\<rparr>, snd (ms ! k))"
  by (simp add: method_ids_def nth_enumerate_eq case_prod_beta)

lemma method_ids_simps [simp]:
  "method_ids L i [] = []"
  "length (method_ids L i ms) = length ms"
  "method_ids L i ((n, e) # ms) =
     (\<lparr>oid_name = name_of L n, oid_ordinal = of_nat i\<rparr>, e) # method_ids L (Suc i) ms"
  by (simp_all add: method_ids_def)

lemma method_ids_names: "map (oid_name \<circ> fst) (method_ids L i ms) = map (name_of L \<circ> fst) ms"
  by (induction ms arbitrary: i) (auto simp: method_ids_def)

context boost_library
begin

lemma fill_table_put_all:
  assumes "\<forall>m \<in> set ms. valid_name (fst m)" "i + length ms \<le> 65536"
  shows "fill_table L e0 i ms c = put_all (SetEntry_id L e0) (method_ids L i ms) c"
  using assms
proof (induction ms arbitrary: i c)
  case (Cons m ms)
  obtain name e where m: "m = (name, e)" by (cases m)
  with Cons.prems have "Oid L name (of_nat i) = Inr \<lparr>oid_name = name_of L name, oid_ordinal = of_nat i\<rparr>"
    using Oid_valid [of name "of_nat i"] by (simp add: of_nat_uint32_ucast)
  moreover have "fill_table L e0 (Suc i) ms = put_all (SetEntry_id L e0) (method_ids L (Suc i) ms)"
    by (rule ext) (use Cons in simp)
  ultimately show ?case using m by simp
qed simp

lemma distinct_name_of:
  assumes "\<forall>m \<in> set ms. valid_name (fst m)" "distinct (map (to_lower L \<circ> fst) ms)"
  shows "distinct (map (name_of L \<circ> fst) ms)"
  using assms by (auto simp: distinct_map inj_on_def name_of_eq_iff)

lemma fill_table_dense:
  assumes "\<forall>m \<in> set ms. valid_name (fst m)" "distinct (map (to_lower L \<circ> fst) ms)" "length ms \<le> 65536"
  obtains c where "fill_table L e0 0 ms (OidContainer_empty L) = (Inr (), c)"
    "dense (oid_inv elems ordered) oid_abs OidContainer_size (length ms) c"
    "\<And>i. i < length ms \<Longrightarrow> oid_abs c i = Some (name_of L (fst (ms ! i)), snd (ms ! i))"
proof -
  let ?ds = "method_ids L 0 ms"
  have "dense (oid_inv elems ordered) oid_abs OidContainer_size 0 (OidContainer_empty L)"
    by (simp add: dense_def OidContainer_empty_ok)
  moreover have "distinct (map (oid_name \<circ> fst) ?ds)"
    unfolding method_ids_names using assms(1,2) by (rule distinct_name_of)
  moreover have "\<forall>i < length ?ds. good_name (oid_name (fst (?ds ! i))) \<and> unat (oid_ordinal (fst (?ds ! i))) = 0 + i"
    using assms by (simp add: method_ids_nth good_name_of)
  ultimately obtain c where "put_all (SetEntry_id L e0) ?ds (OidContainer_empty L) = (Inr (), c)"
    "dense (oid_inv elems ordered) oid_abs OidContainer_size (length ms) c"
    "\<forall>i < length ms. oid_abs c i = Some (oid_name (fst (?ds ! i)), snd (?ds ! i))"
    using oid.put_all_dense [of 0 "OidContainer_empty L" ?ds e0] by (auto simp: OidContainer_empty_ok)
  then show ?thesis
    using assms by (intro that [of c]) (simp_all add: fill_table_put_all method_ids_nth)
qed

end

section \<open>The generated server class\<close>

text \<open>A descriptor the generator can handle: its method names fit and differ in lower case.\<close>

definition descriptor_ok :: "'ix boost \<Rightarrow> ServiceDescriptor \<Rightarrow> bool" where
  "descriptor_ok L sd \<longleftrightarrow>
     (\<forall>m \<in> set (sd_methods sd). valid_name m) \<and> distinct (map (to_lower L) (sd_methods sd)) \<and>
     length (sd_methods sd) \<le> 65536"

text \<open>A service whose table holds its methods, each at its own number.\<close>

definition service_ok :: "('ix \<Rightarrow> nat set) \<Rightarrow> ((nat \<Rightarrow> OidName) \<Rightarrow> 'ix \<Rightarrow> bool) \<Rightarrow> nat
    \<Rightarrow> ('ix, 'st, 'ck, 'm) Service \<Rightarrow> bool" where
  "service_ok elems ordered n s \<longleftrightarrow>
     dense (oid_inv elems ordered) oid_abs OidContainer_size n (svc_dispatch_table s) \<and>
     (\<forall>i < n. map_option snd (oid_abs (svc_dispatch_table s) i) = Some (Some i)) \<and> n \<le> 65536"

lemma service_ok_cong:
  "svc_dispatch_table s' = svc_dispatch_table s \<Longrightarrow> service_ok elems ordered n s' = service_ok elems ordered n s"
  by (simp add: service_ok_def)

lemma service_ok_at_ordinal:
  assumes "service_ok elems ordered n s"
  shows "at_ordinal (svc_dispatch_table s) k = (if unat k < n then Some (Some (unat k)) else None)"
proof (cases "unat k < n")
  case True
  then show ?thesis using assms by (simp add: service_ok_def at_ordinal_abs)
next
  case False
  then have "unat k \<notin> dom (oid_abs (svc_dispatch_table s))"
    using assms unfolding service_ok_def dense_def by simp
  then have "oid_abs (svc_dispatch_table s) (unat k) = None" by blast
  with False show ?thesis by (simp add: at_ordinal_abs)
qed

lemma service_ok_contains:
  "service_ok elems ordered n s \<Longrightarrow> contains_function_at_ordinal s k \<longleftrightarrow> unat k < n"
  by (simp add: contains_function_at_ordinal_def service_ok_at_ordinal)

context boost_library
begin

lemma create_constructor_ok:
  assumes "descriptor_ok L sd"
  obtains s where "create_constructor L sd impl = Inr s" "svc_name s = sd_name sd" "svc_impl s = impl"
    "service_ok elems ordered (length (sd_methods sd)) s"
    "\<And>i. i < length (sd_methods sd) \<Longrightarrow> oid_abs (svc_dispatch_table s) i = Some (name_of L (sd_methods sd ! i), Some i)"
proof -
  let ?ms = "zip (sd_methods sd) (map Some [0..<length (sd_methods sd)])"
  have fst_ms: "map fst ?ms = sd_methods sd" by simp
  have len: "length ?ms = length (sd_methods sd)" by simp
  have "\<forall>m \<in> set ?ms. valid_name (fst m)"
    using assms unfolding descriptor_ok_def by (auto dest: set_zip_leftD)
  moreover have "distinct (map (to_lower L \<circ> fst) ?ms)"
    using assms unfolding map_map [symmetric] fst_ms descriptor_ok_def by simp
  moreover have "length ?ms \<le> 65536" using assms by (simp add: descriptor_ok_def)
  ultimately obtain c where c: "fill_table L None 0 ?ms (OidContainer_empty L) = (Inr (), c)"
    "dense (oid_inv elems ordered) oid_abs OidContainer_size (length ?ms) c"
    "\<And>i. i < length ?ms \<Longrightarrow> oid_abs c i = Some (name_of L (fst (?ms ! i)), snd (?ms ! i))"
    by (rule fill_table_dense [where ?e0.0 = None]) blast
  have tab: "oid_abs c i = Some (name_of L (sd_methods sd ! i), Some i)" if "i < length (sd_methods sd)" for i
    using c(3) [of i] that by simp
  show ?thesis
    by (rule that [of "\<lparr>svc_name = sd_name sd, svc_dispatch_table = c, svc_impl = impl\<rparr>"])
      (use c(1,2) assms tab in \<open>simp_all add: create_constructor_def service_ok_def descriptor_ok_def\<close>)
qed

end

section \<open>Listing a table\<close>

lemma name_string_good:
  assumes "good_name n"
  shows "name_string n = Inr (takeWhile (\<lambda>c. c \<noteq> NUL) (str_of n))"
proof -
  obtain p where "length p < oid_name_length" "str_of n = p @ replicate (oid_name_length - length p) NUL"
    using assms by (rule good_nameE)
  then have "NUL \<in> set (str_of n)" by simp
  with assms show ?thesis by (simp add: name_string_def name_c_str_def)
qed

context boost_library
begin

lemma takeWhile_name_of: "valid_name s \<Longrightarrow> takeWhile (\<lambda>c. c \<noteq> NUL) (str_of (name_of L s)) = to_lower L s"
  unfolding name_of_def OidConstrainedString.sel
  using to_lower_valid(1) by (subst takeWhile_append2) (auto simp: takeWhile_replicate)

lemma name_string_name_of: "valid_name s \<Longrightarrow> name_string (name_of L s) = Inr (to_lower L s)"
  by (simp add: name_string_good good_name_of takeWhile_name_of)

end

end
