(* ===== verification/Synchronised_State.thy ===== *)
theory Synchronised_State
  imports Rbl_Errors
begin

text \<open>
  The part of the backend's state that several threads share
  (\<open>SynchronisedBackEndState\<close> and \<open>SynchronisedSignalConnection\<close> of
  \<^verbatim>\<open>include/rpc/backend/BackEndBase.h\<close>). Every operation but the two accessors of the
  shutdown state holds the recursive mutex, so each is one atomic step.

  The signal \<open>f_disc_invoker_sig\<close> is the list of its connected slots in the order of
  connection. A slot is bound to one manager object, which connects once, in its
  constructor, so a manager number names its slot and its connection.
\<close>

type_synonym mid = nat

datatype BackEndShutdownState =
    BACKEND_ACTIVE
  | BACKEND_SHUTDOWN_INITIATED
  | BACKEND_SHUTDOWN_WAITING_ON_ACTIVE_RPC_END
  | BACKEND_SHUTDOWN_WAITING_ON_MANAGER_DISCONECTIONS
  | BACKEND_SHUTDOWN_COMPLETE

fun shutdown_rank :: "BackEndShutdownState \<Rightarrow> nat" where
  "shutdown_rank BACKEND_ACTIVE = 0"
| "shutdown_rank BACKEND_SHUTDOWN_INITIATED = 1"
| "shutdown_rank BACKEND_SHUTDOWN_WAITING_ON_ACTIVE_RPC_END = 2"
| "shutdown_rank BACKEND_SHUTDOWN_WAITING_ON_MANAGER_DISCONECTIONS = 3"
| "shutdown_rank BACKEND_SHUTDOWN_COMPLETE = 4"

lemma shutdown_rank_inj: "shutdown_rank a = shutdown_rank b \<Longrightarrow> a = b"
  by (cases a; cases b) simp_all

text \<open>The enumeration is ordered by its values, which is the order of the shutdown phases.\<close>

instantiation BackEndShutdownState :: linorder
begin

definition less_eq_BackEndShutdownState :: "BackEndShutdownState \<Rightarrow> BackEndShutdownState \<Rightarrow> bool" where
  "less_eq_BackEndShutdownState a b \<longleftrightarrow> shutdown_rank a \<le> shutdown_rank b"

definition less_BackEndShutdownState :: "BackEndShutdownState \<Rightarrow> BackEndShutdownState \<Rightarrow> bool" where
  "less_BackEndShutdownState a b \<longleftrightarrow> shutdown_rank a < shutdown_rank b"

instance
  by standard (auto simp: less_eq_BackEndShutdownState_def less_BackEndShutdownState_def
      intro: shutdown_rank_inj)

end

section \<open>SynchronisedBackEndState\<close>

record SynchronisedBackEndState =
  m_accepting_requests :: bool
  m_active_rpc_count :: int
  f_disc_invoker_sig :: "mid list"
  m_shutdown_state :: BackEndShutdownState

definition SynchronisedBackEndState_new :: SynchronisedBackEndState where
  "SynchronisedBackEndState_new =
     \<lparr>m_accepting_requests = False, m_active_rpc_count = 0, f_disc_invoker_sig = [],
      m_shutdown_state = BACKEND_ACTIVE\<rparr>"

definition start_a_request :: "SynchronisedBackEndState \<Rightarrow> bool \<times> SynchronisedBackEndState" where
  "start_a_request s =
     (if m_accepting_requests s
      then (True, s\<lparr>m_active_rpc_count := m_active_rpc_count s + 1\<rparr>)
      else (False, s))"

definition rpc_count :: "SynchronisedBackEndState \<Rightarrow> int" where
  "rpc_count s = m_active_rpc_count s"

definition end_a_request :: "SynchronisedBackEndState \<Rightarrow> SynchronisedBackEndState" where
  "end_a_request s = s\<lparr>m_active_rpc_count := m_active_rpc_count s - 1\<rparr>"

definition begin_accepting_requests :: "SynchronisedBackEndState \<Rightarrow> SynchronisedBackEndState" where
  "begin_accepting_requests s = s\<lparr>m_accepting_requests := True\<rparr>"

definition stop_accepting_requests :: "SynchronisedBackEndState \<Rightarrow> SynchronisedBackEndState" where
  "stop_accepting_requests s = s\<lparr>m_accepting_requests := False\<rparr>"

definition is_accepting_requests :: "SynchronisedBackEndState \<Rightarrow> bool" where
  "is_accepting_requests s = m_accepting_requests s"

text \<open>The signal: connecting a slot, counting slots, and the state of one connection.\<close>

definition sig_connect :: "mid \<Rightarrow> SynchronisedBackEndState \<Rightarrow> SynchronisedBackEndState" where
  "sig_connect m s = s\<lparr>f_disc_invoker_sig := f_disc_invoker_sig s @ [m]\<rparr>"

definition manager_count :: "SynchronisedBackEndState \<Rightarrow> nat" where
  "manager_count s = length (f_disc_invoker_sig s)"

definition connection_is_connected :: "mid \<Rightarrow> SynchronisedBackEndState \<Rightarrow> bool" where
  "connection_is_connected m s \<longleftrightarrow> m \<in> set (f_disc_invoker_sig s)"

definition connection_disconnect :: "mid \<Rightarrow> SynchronisedBackEndState \<Rightarrow> bool \<times> SynchronisedBackEndState" where
  "connection_disconnect m s =
     (if m \<in> set (f_disc_invoker_sig s)
      then (True, s\<lparr>f_disc_invoker_sig := removeAll m (f_disc_invoker_sig s)\<rparr>)
      else (False, s))"

definition check_and_initiate_shutdown :: "SynchronisedBackEndState \<Rightarrow> bool \<times> SynchronisedBackEndState" where
  "check_and_initiate_shutdown s =
     (if m_shutdown_state s = BACKEND_ACTIVE
      then (True, s\<lparr>m_shutdown_state := BACKEND_SHUTDOWN_INITIATED\<rparr>)
      else (False, s))"

definition set_shutdown_state :: "BackEndShutdownState \<Rightarrow> SynchronisedBackEndState \<Rightarrow> SynchronisedBackEndState" where
  "set_shutdown_state st s = s\<lparr>m_shutdown_state := st\<rparr>"

definition shutdown_state :: "SynchronisedBackEndState \<Rightarrow> BackEndShutdownState" where
  "shutdown_state s = m_shutdown_state s"

lemmas sync_defs = start_a_request_def rpc_count_def end_a_request_def begin_accepting_requests_def
  stop_accepting_requests_def is_accepting_requests_def sig_connect_def manager_count_def
  connection_is_connected_def connection_disconnect_def check_and_initiate_shutdown_def
  set_shutdown_state_def shutdown_state_def

lemma start_then_end:
  "start_a_request s = (True, s') \<Longrightarrow> end_a_request s' = s"
  by (auto simp: sync_defs split: if_splits)

text \<open>Of any number of callers, one initiates the shutdown.\<close>

lemma initiate_once:
  "check_and_initiate_shutdown s = (b, s') \<Longrightarrow> \<exists>s''. check_and_initiate_shutdown s' = (False, s'')"
  by (auto simp: sync_defs split: if_splits)

end
