(* ===== verification/Back_End.thy ===== *)
theory Back_End
  imports Service_Base Synchronised_State
begin

text \<open>
  The backend (\<^verbatim>\<open>include/rpc/backend/BackEndBase.h\<close>, \<^verbatim>\<open>src/rpc/server/BackEndBase.cc\<close>):
  registration and start, invocation, the basic protocol it serves itself, connecting and
  disconnecting clients, and the shutdown.

  A service object lives in the slot of the service table that owns it (\<open>None\<close> there is a
  null \<open>shared_ptr\<close>); \<open>ServiceBase *\<close> is the ordinal of that slot. The I/O service is the list
  of the clients whose invoker was posted and has not run yet, the flag whether it still has
  work, and whether it stopped.
\<close>

section \<open>State\<close>

type_synonym ('ix, 'st, 'ck, 'm) t_services = "('ix, ('ix, 'st, 'ck, 'm) Service option) OidContainer"

record ('ix, 'st, 'ck, 'm) BackEnd =
  m_source_type :: SourceConnectionType
  m_backend_type :: DestinationConnectionType
  m_pool_size :: int
  m_thread_group :: nat
  m_ec :: error_code
  m_client_service_cookies :: "'ck ClientServiceCookies"
  m_connected_clients :: ConnectedClientsSet
  m_synchronised_state :: SynchronisedBackEndState
  m_services :: "('ix, 'st, 'ck, 'm) t_services"
  m_service_count :: uint16
  m_is_sealed :: bool
  m_io_posted :: "cid list"
  m_io_stopped :: bool
  m_work :: bool

text \<open>The part of \<open>InvokerBase\<close> that the backend works on.\<close>

record InvokerBase =
  inv_client_data :: ClientData
  inv_client_cookie :: "uint16 option"
  inv_service :: "uint16 option"

definition InvokerBase_new :: InvokerBase where
  "InvokerBase_new = \<lparr>inv_client_data = ClientData_new, inv_client_cookie = None, inv_service = None\<rparr>"

definition backend_error :: "e_code \<Rightarrow> exn" where
  "backend_error c = BackEndException (Some (ec_assign c rpc_backend_error)) None None"

definition upd_sync :: "(SynchronisedBackEndState \<Rightarrow> SynchronisedBackEndState)
    \<Rightarrow> ('ix, 'st, 'ck, 'm) BackEnd \<Rightarrow> ('ix, 'st, 'ck, 'm) BackEnd" where
  "upd_sync f b = b\<lparr>m_synchronised_state := f (m_synchronised_state b)\<rparr>"

section \<open>Registration and start\<close>

definition register_and_init_service :: "'ix boost \<Rightarrow> ('ix, 'st, 'ck, 'm) Service
    \<Rightarrow> ('ix, 'st, 'ck, 'm) BackEnd \<Rightarrow> (exn, unit, ('ix, 'st, 'ck, 'm) BackEnd) sres" where
  "register_and_init_service L s b =
     (if \<not> m_is_sealed b then
        (case Oid L (svc_name s) (ucast (m_service_count b)) of
           Inl x \<Rightarrow> (Inl x, b)
         | Inr d \<Rightarrow>
             (case SetEntry_id L None d (Some s) (m_services b) of
                (Inl x, c) \<Rightarrow> (Inl x, b\<lparr>m_services := c\<rparr>)
              | (Inr ret, c) \<Rightarrow>
                  let b = b\<lparr>m_services := c\<rparr> in
                  if ret = OP_NO_ERROR then
                    (case service_init s (m_ec b) of
                       (s', ec) \<Rightarrow>
                         let b = b\<lparr>m_services := store_entry (unat (m_service_count b)) (Some s') (m_services b),
                                   m_ec := ec\<rparr> in
                         if ec_fails ec then
                           (Inl (BackEndException
                              (Some (ec_assign RBL_RPC_BACKEND_INITIALIZATION_ERROR rpc_backend_error))
                              (Some (svc_name s)) (Some ec)), b)
                         else (Inr (), b\<lparr>m_service_count := m_service_count b + 1\<rparr>))
                  else (Inl (backend_error RBL_RPC_BACKEND_IDENTIFIER_COLLISION), b)))
      else (Inl (backend_error RBL_RPC_BACKEND_SEALED), b))"

text \<open>The service descriptor of the basic protocol, from \<open>BasicProtocol.proto\<close>.\<close>

definition basic_protocol_descriptor :: ServiceDescriptor where
  "basic_protocol_descriptor =
     \<lparr>sd_name = ''basic_protocol'',
      sd_methods = [''hello'', ''list_services'', ''rpc_subscribe_service'',
                    ''rpc_unsubscribe_service'', ''list_methods'']\<rparr>"

definition BackEnd_members :: "'ix boost \<Rightarrow> SourceConnectionType \<Rightarrow> DestinationConnectionType
    \<Rightarrow> ('ix, 'st, 'ck, 'm) BackEnd" where
  "BackEnd_members L source_type backend_type =
     \<lparr>m_source_type = source_type, m_backend_type = backend_type, m_pool_size = 0,
      m_thread_group = 0, m_ec = ec_clear, m_client_service_cookies = [], m_connected_clients = {},
      m_synchronised_state = SynchronisedBackEndState_new, m_services = OidContainer_empty L,
      m_service_count = 0, m_is_sealed = False, m_io_posted = [], m_io_stopped = False,
      m_work = True\<rparr>"

definition BackEnd_new :: "'ix boost \<Rightarrow> SourceConnectionType \<Rightarrow> DestinationConnectionType
    \<Rightarrow> (exn, unit, ('ix, 'st, 'ck, 'm) BackEnd) sres" where
  "BackEnd_new L source_type backend_type =
     (let b = BackEnd_members L source_type backend_type in
      case create_constructor L basic_protocol_descriptor BasicProtocolImpl of
        Inl x \<Rightarrow> (Inl x, b)
      | Inr bp \<Rightarrow> register_and_init_service L bp b)"

definition pool_size :: "int \<Rightarrow> ('ix, 'st, 'ck, 'm) BackEnd \<Rightarrow> ('ix, 'st, 'ck, 'm) BackEnd" where
  "pool_size n b = b\<lparr>m_pool_size := n\<rparr>"

definition pause_requests :: "('ix, 'st, 'ck, 'm) BackEnd \<Rightarrow> ('ix, 'st, 'ck, 'm) BackEnd" where
  "pause_requests b = upd_sync stop_accepting_requests b"

definition resume_requests :: "('ix, 'st, 'ck, 'm) BackEnd \<Rightarrow> ('ix, 'st, 'ck, 'm) BackEnd" where
  "resume_requests b = upd_sync begin_accepting_requests b"

definition is_useable :: "('ix, 'st, 'ck, 'm) BackEnd \<Rightarrow> bool" where
  "is_useable b = m_is_sealed b"

fun activate_services :: "nat list \<Rightarrow> 'ck ClientServiceCookies \<Rightarrow> (exn, 'ck ClientServiceCookies) res" where
  "activate_services [] v = Inr v"
| "activate_services (i # is) v =
     ebind (activate_service_with_ordinal (of_nat i) v) (\<lambda>v. activate_services is v)"

definition BackEnd_start :: "'ix boost \<Rightarrow> ('ix, 'st, 'ck, 'm) BackEnd
    \<Rightarrow> (exn, unit, ('ix, 'st, 'ck, 'm) BackEnd) sres" where
  "BackEnd_start L b =
     (if \<not> m_pool_size b > 0 then (Inl AssertionFailed, b)
      else if m_is_sealed b then (Inl (backend_error RBL_RPC_BACKEND_SEALED), b)
      else let b = b\<lparr>m_is_sealed := True\<rparr> in
        if OidContainer_size (m_services b) \<noteq> occupied_size L (m_services b) then (Inl AssertionFailed, b)
        else
          case ebind (set_size_cookies (occupied_size L (m_services b)) (m_client_service_cookies b))
                 (activate_services [0..<occupied_size L (m_services b)]) of
            Inl x \<Rightarrow> (Inl x, b)
          | Inr v \<Rightarrow>
              (Inr (), upd_sync begin_accepting_requests
                 (b\<lparr>m_client_service_cookies := v, m_thread_group := m_thread_group b + nat (m_pool_size b)\<rparr>)))"

section \<open>Invocation\<close>

definition BackEnd_end_rpc :: "InvokerBase \<times> ('ix, 'st, 'ck, 'm) BackEnd
    \<Rightarrow> (exn, unit, InvokerBase \<times> ('ix, 'st, 'ck, 'm) BackEnd) sres" where
  "BackEnd_end_rpc w =
     (case w of (i, b) \<Rightarrow>
        let b = upd_sync end_a_request b in
        case end_rpc (inv_client_data i) of
          Inl x \<Rightarrow> (Inl x, (i, b))
        | Inr cd \<Rightarrow> (Inr (), (i\<lparr>inv_client_data := cd\<rparr>, b)))"

text \<open>The refusals of \<open>invoke\<close>: record both error codes, end the call, report it finished.\<close>

definition refuse :: "e_code \<Rightarrow> ClientResponseErrorType \<Rightarrow> InvokerBase \<times> ('ix, 'st, 'ck, 'm) BackEnd
    \<Rightarrow> (exn, bool, InvokerBase \<times> ('ix, 'st, 'ck, 'm) BackEnd) sres" where
  "refuse c e w =
     (case w of (i, b) \<Rightarrow>
        sbind (BackEnd_end_rpc
                 (i\<lparr>inv_client_data := cd_set_response_error e (cd_assign_error c (inv_client_data i))\<rparr>, b))
          (\<lambda>_ w. (Inr True, w)))"

definition invoke :: "protobuf \<Rightarrow> cid \<Rightarrow> InvokerBase \<times> ('ix, 'st, 'ck, 'm) BackEnd
    \<Rightarrow> (exn, bool, InvokerBase \<times> ('ix, 'st, 'ck, 'm) BackEnd) sres" where
  "invoke P x w =
     (case w of (i, b) \<Rightarrow>
      let cd = (cd_set_response_error REQUEST_SUCCESS (inv_client_data i))\<lparr>cd_ec := ec_clear\<rparr> in
      case start_a_request (m_synchronised_state b) of
        (False, s) \<Rightarrow>
          (Inr True,
           (i\<lparr>inv_client_data :=
                cd_set_response_error REQUEST_BACKEND_NOT_ACCEPTING_REQUESTS
                  (cd_assign_error RBL_BACKEND_NOT_ACCEPTING_REQUESTS cd)\<rparr>,
            b\<lparr>m_synchronised_state := s\<rparr>))
      | (True, s) \<Rightarrow>
          let b = b\<lparr>m_synchronised_state := s\<rparr> in
          case start_rpc cd of
            Inl e \<Rightarrow> (Inl e, (i\<lparr>inv_client_data := cd\<rparr>, b))
          | Inr cd \<Rightarrow>
              let i = i\<lparr>inv_client_data := cd\<rparr>;
                  request = cd_request cd;
                  service = at_ordinal (m_services b) (ucast (service_ordinal request))
              in case service of
                   None \<Rightarrow> refuse RBL_BACKEND_INVOKE_NO_SERVICE_WITH_ORDINAL_ERROR
                             REQUEST_NO_SERVICE_WITH_ORDINAL (i, b)
                 | Some None \<Rightarrow> (Inl UndefinedBehaviour, (i, b))
                 | Some (Some s) \<Rightarrow>
                     let i = i\<lparr>inv_service := Some (ucast (service_ordinal request))\<rparr> in
                     if \<not> contains_function_at_ordinal s (ucast (request_ordinal request))
                     then refuse RBL_BACKEND_INVOKE_NO_REQUEST_WITH_ORDINAL_ERROR
                            REQUEST_NO_FUNCTION_WITH_ORDINAL (i, b)
                     else
                       case create_or_retrieve_cookie (ucast (service_ordinal request)) x
                              (m_client_service_cookies b) of
                         Inl e \<Rightarrow> (Inl e, (i, b))
                       | Inr (cookie, v) \<Rightarrow>
                           let b = b\<lparr>m_client_service_cookies := v\<rparr>;
                               i = i\<lparr>inv_client_cookie := Some (ucast (service_ordinal request))\<rparr>
                           in if service_ordinal request \<noteq> 0 \<and> \<not> is_subscribed cookie
                              then refuse RBL_BACKEND_INVOKE_CLIENT_NOT_SUBSCRIBED
                                     REQUEST_NOT_SUBSCRIBED (i, b)
                              else if service_ordinal request = 0 \<and> request_ordinal request = 0
                              then if cd_client_established cd
                                   then let cd1 = cd_assign_error RBL_BACKEND_ALLREADY_ESTABLISHED cd;
                                            hres = HelloResponse_new\<lparr>hs_error_type := Some CLIENT_ALLREADY_ESTABLISHED\<rparr>;
                                            cd2 = cd_set_response_string
                                                    (field_or [] (ser_HelloResponse P hres)) cd1;
                                            cd3 = request_disconect cd2
                                        in sbind (BackEnd_end_rpc (i\<lparr>inv_client_data := cd3\<rparr>, b)) (\<lambda>_ w. (Inr True, w))
                                   else (Inr False, (i, b\<lparr>m_io_posted := m_io_posted b @ [x]\<rparr>))
                              else if \<not> cd_client_established cd
                              then refuse RBL_BACKEND_NOT_ESTABLISHED REQUEST_CLIENT_NOT_ESTABLISHED (i, b)
                              else (Inr False, (i, b\<lparr>m_io_posted := m_io_posted b @ [x]\<rparr>)))"


section \<open>BasicProtocolImpl\<close>

definition bp_hello :: "HelloRequest \<Rightarrow> ClientData \<Rightarrow> ('ix, 'st, 'ck, 'm) BackEnd
    \<Rightarrow> (exn, HelloResponse \<times> ClientData, ('ix, 'st, 'ck, 'm) BackEnd) sres" where
  "bp_hello hr cd b =
     (let hres = HelloResponse_new in
      if m_backend_type b \<noteq> hq_expected_target hr then
        let cd = request_disconect (cd_assign_error RBL_BACKEND_CLIENT_TARGET_TYPE_MISMATCH cd)
        in (Inr (hres\<lparr>hs_error_type := Some DESTINATION_EXPECTATION_MISMATCH\<rparr>, cd), b)
      else if m_source_type b \<noteq> hq_source_type hr then
        let cd = request_disconect (cd_assign_error RBL_BACKEND_CLIENT_SOURCE_TYPE_MISMATCH cd)
        in (Inr (hres\<lparr>hs_error_type := Some SOURCE_EXPECTATION_MISMATCH\<rparr>, cd), b)
      else
        case establish_client (cd\<lparr>cd_name := hq_node_name hr\<rparr>) of
          Inl x \<Rightarrow> (Inl x, b)
        | Inr cd \<Rightarrow> (Inr (hres\<lparr>hs_error_type := Some NO_HELLO_ERRORS\<rparr>, cd), b))"

fun service_entries :: "('ix, 'e) OidContainer \<Rightarrow> nat list \<Rightarrow> ServiceEntry list \<Rightarrow> (exn, ServiceEntry list) res" where
  "service_entries t [] acc = Inr acc"
| "service_entries t (i # is) acc =
     (case EntryAtordinal t (of_nat i) of
        None \<Rightarrow> Inl UndefinedBehaviour
      | Some p \<Rightarrow>
          ebind (name_string (entry_name (entries t ! p))) (\<lambda>n.
            service_entries t is
              (acc @ [\<lparr>se_service_ordinal = ucast (entry_ordinal (entries t ! p)), se_service_name = n\<rparr>])))"

definition bp_list_services :: "unit \<Rightarrow> ClientData \<Rightarrow> ('ix, 'st, 'ck, 'm) BackEnd
    \<Rightarrow> (exn, ListServicesResponse \<times> ClientData, ('ix, 'st, 'ck, 'm) BackEnd) sres" where
  "bp_list_services req cd b =
     (case service_entries (m_services b) [0..<OidContainer_size (m_services b)] [] of
        Inl x \<Rightarrow> (Inl x, b)
      | Inr es \<Rightarrow> (Inr (ListServicesResponse_new\<lparr>ls_services := es\<rparr>, cd), b))"

text \<open>
  The call of a virtual function through the slot \<open>k\<close> of the service table: the slot must
  exist, and dereferencing a null \<open>shared_ptr\<close> trips the assertion in \<open>operator->\<close>.
\<close>

definition service_at :: "uint16 \<Rightarrow> ('ix, 'st, 'ck, 'm) BackEnd \<Rightarrow> (exn, ('ix, 'st, 'ck, 'm) Service) res" where
  "service_at k b =
     (case at_ordinal (m_services b) k of
        None \<Rightarrow> Inl UndefinedBehaviour
      | Some None \<Rightarrow> Inl AssertionFailed
      | Some (Some s) \<Rightarrow> Inr s)"

definition store_service :: "uint16 \<Rightarrow> ('ix, 'st, 'ck, 'm) Service \<Rightarrow> ('ix, 'st, 'ck, 'm) BackEnd
    \<Rightarrow> ('ix, 'st, 'ck, 'm) BackEnd" where
  "store_service k s b = b\<lparr>m_services := store_entry (unat k) (Some s) (m_services b)\<rparr>"

definition bp_rpc_subscribe_service :: "cid \<Rightarrow> SubscribeServiceRequest \<Rightarrow> ClientData \<Rightarrow> ('ix, 'st, 'ck, 'm) BackEnd
    \<Rightarrow> (exn, SubscribeServiceResponse \<times> ClientData, ('ix, 'st, 'ck, 'm) BackEnd) sres" where
  "bp_rpc_subscribe_service x req cd b =
     (let res = SubscribeServiceResponse_new; k = (ucast (sq_service_ordinal req) :: uint16) in
      if \<not> unat (sq_service_ordinal req) < OidContainer_size (m_services b) then
        (Inr (res\<lparr>ss_error := Some SERVICE_ORDINAL_NOT_IN_USE\<rparr>,
              cd_assign_error RBL_BACKEND_SUBSCRIBE_NO_SERVICE_WITH_ORDINAL cd), b)
      else
        case create_or_retrieve_cookie k x (m_client_service_cookies b) of
          Inl e \<Rightarrow> (Inl e, b)
        | Inr (cookie, v) \<Rightarrow>
            let b = b\<lparr>m_client_service_cookies := v\<rparr> in
            if is_subscribed cookie then
              (Inr (res\<lparr>ss_error := Some SERVICE_ALLREADY_SUBSCRIBED\<rparr>,
                    cd_assign_error RBL_BACKEND_ALLREADY_SUBSCRIBED cd), b)
            else
              case at_ordinal (m_services b) k of
                None \<Rightarrow> (Inl AssertionFailed, b)
              | Some None \<Rightarrow> (Inl AssertionFailed, b)
              | Some (Some s) \<Rightarrow>
                  (case service_subscribe s cookie cd (sq_subscribe_request_string req) [] of
                     (s, cookie, cd, res_s) \<Rightarrow>
                       let b = store_service k s b;
                           res = res\<lparr>ss_subscribe_result_string := Some res_s\<rparr>;
                           ok = (\<not> ec_fails (cd_ec cd));
                           cookie = (if ok then cookie_subscribe cookie else cookie);
                           res = (if ok then res\<lparr>ss_error := Some NO_SUBSCRIBE_SERVICE_ERROR\<rparr> else res)
                       in case cookie_write k x cookie (m_client_service_cookies b) of
                            Inl e \<Rightarrow> (Inl e, b)
                          | Inr v \<Rightarrow> (Inr (res, cd), b\<lparr>m_client_service_cookies := v\<rparr>)))"

definition bp_rpc_unsubscribe_service :: "cid \<Rightarrow> UnsubscribeServiceRequest \<Rightarrow> ClientData \<Rightarrow> ('ix, 'st, 'ck, 'm) BackEnd
    \<Rightarrow> (exn, UnsubscribeServiceResponse \<times> ClientData, ('ix, 'st, 'ck, 'm) BackEnd) sres" where
  "bp_rpc_unsubscribe_service x req cd b =
     (let res = UnsubscribeServiceResponse_new; k = (ucast (uq_service_ordinal req) :: uint16) in
      if \<not> unat (uq_service_ordinal req) < OidContainer_size (m_services b) then
        (Inr (res\<lparr>us_error := Some SERVICE_ORDINAL_NOT_IN_USE\<rparr>,
              cd_assign_error RBL_BACKEND_SUBSCRIBE_NO_SERVICE_WITH_ORDINAL cd), b)
      else
        case create_or_retrieve_cookie k x (m_client_service_cookies b) of
          Inl e \<Rightarrow> (Inl e, b)
        | Inr (cookie, v) \<Rightarrow>
            let b = b\<lparr>m_client_service_cookies := v\<rparr> in
            if \<not> is_subscribed cookie then
              (Inr (res\<lparr>us_error := Some NO_SUBSCRIPTION_FOR_SERVICE\<rparr>,
                    cd_assign_error RBL_BACKEND_NOT_SUBSCRIBED cd), b)
            else
              case service_at k b of
                Inl e \<Rightarrow> (Inl e, b)
              | Inr s \<Rightarrow>
                  (case service_unsubscribe s cookie cd of
                     (s, cookie, cd) \<Rightarrow>
                       let b = store_service k s b in
                       case ebind (cookie_write k x (destroy_cookie cookie) (m_client_service_cookies b))
                              (delete_cookie k x) of
                         Inl e \<Rightarrow> (Inl e, b)
                       | Inr (_, v) \<Rightarrow>
                           (Inr (res\<lparr>us_error := Some NO_SUBSCRIBE_SERVICE_ERROR\<rparr>, cd),
                            b\<lparr>m_client_service_cookies := v\<rparr>)))"

definition bp_list_methods :: "ListMethodsRequest \<Rightarrow> ClientData \<Rightarrow> ('ix, 'st, 'ck, 'm) BackEnd
    \<Rightarrow> (exn, ListMethodsResponse \<times> ClientData, ('ix, 'st, 'ck, 'm) BackEnd) sres" where
  "bp_list_methods req cd b =
     (let res = ListMethodsResponse_new; k = (ucast (lq_service_ordinal req) :: uint16) in
      if \<not> unat (lq_service_ordinal req) < OidContainer_size (m_services b) then
        (Inr (res\<lparr>lm_error := Some NO_SERVICE_WITH_ORDINAL\<rparr>,
              cd_assign_error RBL_BACKEND_LIST_METHOD_NO_SERVICE_WITH_ORDINAL cd), b)
      else
        case ebind (service_at k b) (\<lambda>s. produce_method_list s res) of
          Inl e \<Rightarrow> (Inl e, b)
        | Inr res \<Rightarrow> (Inr (res\<lparr>lm_error := Some NO_LIST_METHOD_ERROR\<rparr>, cd), b))"

section \<open>Dispatch\<close>

text \<open>The generated dispatch functions of the basic protocol, by the number of the method.\<close>

definition basic_dispatch :: "protobuf \<Rightarrow> cid \<Rightarrow> nat \<Rightarrow> ClientData \<Rightarrow> ('ix, 'st, 'ck, 'm) BackEnd
    \<Rightarrow> (exn, ClientData, ('ix, 'st, 'ck, 'm) BackEnd) sres" where
  "basic_dispatch P x n cd b =
     (if n = 0 then
        generated_dispatch_function (parse_HelloRequest P) bp_hello (ser_HelloResponse P) cd b
      else if n = 1 then
        generated_dispatch_function (parse_ListServicesRequest P) bp_list_services (ser_ListServicesResponse P) cd b
      else if n = 2 then
        generated_dispatch_function (parse_SubscribeServiceRequest P) (bp_rpc_subscribe_service x)
          (ser_SubscribeServiceResponse P) cd b
      else if n = 3 then
        generated_dispatch_function (parse_UnsubscribeServiceRequest P) (bp_rpc_unsubscribe_service x)
          (ser_UnsubscribeServiceResponse P) cd b
      else if n = 4 then
        generated_dispatch_function (parse_ListMethodsRequest P) bp_list_methods (ser_ListMethodsResponse P) cd b
      else (Inl UndefinedBehaviour, b))"

text \<open>
  \<open>service->dispatch(*client_cookie, *m_client_data)\<close> for the pointers \<open>invoke\<close> left in
  the invoker.
\<close>

definition service_dispatch :: "protobuf \<Rightarrow> cid \<Rightarrow> uint16 \<Rightarrow> uint16 \<Rightarrow> ClientData \<Rightarrow> ('ix, 'st, 'ck, 'm) BackEnd
    \<Rightarrow> (exn, ClientData, ('ix, 'st, 'ck, 'm) BackEnd) sres" where
  "service_dispatch P x k ckk cd b =
     (case at_ordinal (m_services b) k of
        Some (Some s) \<Rightarrow>
          (case at_ordinal (svc_dispatch_table s) (ucast (request_ordinal (cd_request cd))) of
             Some (Some n) \<Rightarrow>
               (case svc_impl s of
                  BasicProtocolImpl \<Rightarrow> basic_dispatch P x n cd b
                | Linked u \<Rightarrow>
                    (case cookie_read ckk x (m_client_service_cookies b) of
                       Inl e \<Rightarrow> (Inl e, b)
                     | Inr cc \<Rightarrow>
                         (case linked_dispatch n cd (u, cc) of
                            (r, (u, cc)) \<Rightarrow>
                              let b = store_service k (s\<lparr>svc_impl := Linked u\<rparr>) b in
                              case cookie_write ckk x cc (m_client_service_cookies b) of
                                Inl e \<Rightarrow> (Inl e, b)
                              | Inr v \<Rightarrow> (r, b\<lparr>m_client_service_cookies := v\<rparr>))))
           | _ \<Rightarrow> (Inl UndefinedBehaviour, b))
      | _ \<Rightarrow> (Inl UndefinedBehaviour, b))"

text \<open>
  What the invokers' \<open>operator()\<close> do first: dispatch, then \<open>end_rpc\<close>. It runs on a pool
  thread, which takes the posted handler from the I/O service.
\<close>

definition run_invoker :: "protobuf \<Rightarrow> cid \<Rightarrow> InvokerBase \<times> ('ix, 'st, 'ck, 'm) BackEnd
    \<Rightarrow> (exn, unit, InvokerBase \<times> ('ix, 'st, 'ck, 'm) BackEnd) sres" where
  "run_invoker P x w =
     (case w of (i, b) \<Rightarrow>
        case (inv_service i, inv_client_cookie i) of
          (Some k, Some ckk) \<Rightarrow>
            (case service_dispatch P x k ckk (inv_client_data i) b of
               (Inl e, b) \<Rightarrow> (Inl e, (i, b))
             | (Inr cd, b) \<Rightarrow> BackEnd_end_rpc (i\<lparr>inv_client_data := cd\<rparr>, b))
        | _ \<Rightarrow> (Inl UndefinedBehaviour, (i, b)))"

section \<open>Connecting and disconnecting clients\<close>

definition BackEnd_connect :: "cid \<Rightarrow> ('ix, 'st, 'ck, 'm) BackEnd \<Rightarrow> ('ix, 'st, 'ck, 'm) BackEnd" where
  "BackEnd_connect x b = b\<lparr>m_connected_clients := snd (clients_insert x (m_connected_clients b))\<rparr>"

text \<open>The body of the loop of \<open>disconnect\<close>, for service \<open>k\<close>.\<close>

definition disconnect_service :: "cid \<Rightarrow> uint16 \<Rightarrow> ClientData \<times> ('ix, 'st, 'ck, 'm) BackEnd
    \<Rightarrow> (exn, unit, ClientData \<times> ('ix, 'st, 'ck, 'm) BackEnd) sres" where
  "disconnect_service x k w =
     (case w of (cd, b) \<Rightarrow>
        case create_or_retrieve_cookie k x (m_client_service_cookies b) of
          Inl e \<Rightarrow> (Inl e, (cd, b))
        | Inr (cookie, v) \<Rightarrow>
            let b = b\<lparr>m_client_service_cookies := v\<rparr> in
            case at_ordinal (m_services b) k of
              None \<Rightarrow> (Inl UndefinedBehaviour, (cd, b))
            | Some sp \<Rightarrow>
                (case (if is_subscribed cookie
                       then (case sp of
                               None \<Rightarrow> Inl AssertionFailed
                             | Some s \<Rightarrow>
                                 (case service_unsubscribe s cookie cd of
                                    (s, cookie, cd) \<Rightarrow> Inr (store_service k s b, cookie, cd)))
                       else Inr (b, cookie, cd)) of
                   Inl e \<Rightarrow> (Inl e, (cd, b))
                 | Inr (b, cookie, cd) \<Rightarrow>
                     (case ebind (cookie_write k x (destroy_cookie cookie) (m_client_service_cookies b))
                             (delete_cookie k x) of
                        Inl e \<Rightarrow> (Inl e, (cd, b))
                      | Inr (_, v) \<Rightarrow> (Inr (), (cd, b\<lparr>m_client_service_cookies := v\<rparr>)))))"

fun disconnect_services :: "cid \<Rightarrow> nat list \<Rightarrow> ClientData \<times> ('ix, 'st, 'ck, 'm) BackEnd
    \<Rightarrow> (exn, unit, ClientData \<times> ('ix, 'st, 'ck, 'm) BackEnd) sres" where
  "disconnect_services x [] w = (Inr (), w)"
| "disconnect_services x (i # is) w =
     sbind (disconnect_service x (of_nat i) w) (\<lambda>_ w. disconnect_services x is w)"

definition BackEnd_disconnect :: "cid \<Rightarrow> ClientData \<times> ('ix, 'st, 'ck, 'm) BackEnd
    \<Rightarrow> (exn, unit, ClientData \<times> ('ix, 'st, 'ck, 'm) BackEnd) sres" where
  "BackEnd_disconnect x w =
     (case w of (cd, b) \<Rightarrow>
        sbind (if m_is_sealed b \<and> \<not> m_io_stopped b
               then disconnect_services x [1..<OidContainer_size (m_services b)] (cd, b)
               else (Inr (), (cd, b)))
          (\<lambda>_ (cd, b).
             case clients_erase x (m_connected_clients b) of
               (erased, cs) \<Rightarrow>
                 let b = b\<lparr>m_connected_clients := cs\<rparr> in
                 if erased \<noteq> 1 then (Inl AssertionFailed, (cd, b)) else (Inr (), (cd, b))))"


section \<open>Managers and shutdown\<close>

text \<open>
  A manager (an in-process invoker or a front end) has state of its own, \<open>'x\<close>, and two
  functions the backend calls: \<open>connect_to_backend\<close> when it registers, and
  \<open>disconnect_from_backend\<close> when the signal is raised. Raising the signal calls the slots
  that are connected, in the order of their connection; a slot that was disconnected before
  its turn is not called.
\<close>

definition register_invoker_manager :: "('x \<times> ('ix, 'st, 'ck, 'm) BackEnd \<Rightarrow> (exn, unit, 'x \<times> ('ix, 'st, 'ck, 'm) BackEnd) sres)
    \<Rightarrow> mid \<Rightarrow> 'x \<times> ('ix, 'st, 'ck, 'm) BackEnd \<Rightarrow> (exn, unit, 'x \<times> ('ix, 'st, 'ck, 'm) BackEnd) sres" where
  "register_invoker_manager connect m w =
     sbind (connect w) (\<lambda>_ (y, b). (Inr (), (y, upd_sync (sig_connect m) b)))"

fun disconect_managers :: "(mid \<Rightarrow> 'x \<times> ('ix, 'st, 'ck, 'm) BackEnd \<Rightarrow> (exn, unit, 'x \<times> ('ix, 'st, 'ck, 'm) BackEnd) sres)
    \<Rightarrow> mid list \<Rightarrow> 'x \<times> ('ix, 'st, 'ck, 'm) BackEnd \<Rightarrow> (exn, unit, 'x \<times> ('ix, 'st, 'ck, 'm) BackEnd) sres" where
  "disconect_managers disc [] w = (Inr (), w)"
| "disconect_managers disc (m # ms) w =
     (if connection_is_connected m (m_synchronised_state (snd w))
      then sbind (disc m w) (\<lambda>_ w. disconect_managers disc ms w)
      else disconect_managers disc ms w)"

text \<open>
  \<open>join_all\<close> waits until every pool thread returned from \<open>run()\<close>, which happens once the
  work object is gone and no handler is left; the I/O service is stopped from then on.
\<close>

definition join_all :: "('ix, 'st, 'ck, 'm) BackEnd \<Rightarrow> (exn, unit, ('ix, 'st, 'ck, 'm) BackEnd) sres" where
  "join_all b =
     (if m_thread_group b = 0 then (Inr (), b)
      else if m_work b \<or> m_io_posted b \<noteq> [] then (Inl Blocked, b)
      else (Inr (), b\<lparr>m_io_stopped := True\<rparr>))"

fun teardown_services :: "nat list \<Rightarrow> ('ix, 'st, 'ck, 'm) BackEnd \<Rightarrow> (exn, unit, ('ix, 'st, 'ck, 'm) BackEnd) sres" where
  "teardown_services [] b = (Inr (), b)"
| "teardown_services (i # is) b =
     (case at_ordinal (m_services b) (of_nat i) of
        None \<Rightarrow> teardown_services is b
      | Some None \<Rightarrow> (Inl AssertionFailed, b)
      | Some (Some s) \<Rightarrow>
          (case service_teardown s (m_ec b) of
             (s, ec) \<Rightarrow>
               if ec_fails ec then
                 (Inl (BackEndException (Some (ec_assign RBL_BACKEND_TEARDOWN_ERROR rpc_backend_error))
                    (Some (svc_name s)) (Some ec)),
                  store_service (of_nat i) s (b\<lparr>m_ec := ec\<rparr>))
               else
                 teardown_services is
                   (b\<lparr>m_ec := ec, m_services := store_entry i None (m_services b)\<rparr>)))"

definition shutdown_step :: "'ix boost
    \<Rightarrow> (mid \<Rightarrow> 'x \<times> ('ix, 'st, 'ck, 'm) BackEnd \<Rightarrow> (exn, unit, 'x \<times> ('ix, 'st, 'ck, 'm) BackEnd) sres)
    \<Rightarrow> 'x \<times> ('ix, 'st, 'ck, 'm) BackEnd \<Rightarrow> (exn, BackEndShutdownState, 'x \<times> ('ix, 'st, 'ck, 'm) BackEnd) sres" where
  "shutdown_step L disc w =
     (let w = (if shutdown_state (m_synchronised_state (snd w)) = BACKEND_SHUTDOWN_INITIATED
               then (fst w, upd_sync (set_shutdown_state BACKEND_SHUTDOWN_WAITING_ON_ACTIVE_RPC_END \<circ>
                       stop_accepting_requests) (snd w))
               else w)
      in sbind
        (if shutdown_state (m_synchronised_state (snd w)) = BACKEND_SHUTDOWN_WAITING_ON_ACTIVE_RPC_END
         then if rpc_count (m_synchronised_state (snd w)) = 0
              then let w = (fst w, upd_sync (set_shutdown_state BACKEND_SHUTDOWN_WAITING_ON_MANAGER_DISCONECTIONS) (snd w))
                   in sbind (disconect_managers disc (f_disc_invoker_sig (m_synchronised_state (snd w))) w)
                        (\<lambda>_ w. (Inr True, w))
              else (Inr False, w)
         else (Inr True, w))
        (\<lambda>go_on w.
           if \<not> go_on then (Inr BACKEND_SHUTDOWN_WAITING_ON_ACTIVE_RPC_END, w)
           else if shutdown_state (m_synchronised_state (snd w)) = BACKEND_SHUTDOWN_WAITING_ON_MANAGER_DISCONECTIONS
           then if manager_count (m_synchronised_state (snd w)) = 0 \<and> clients_size (m_connected_clients (snd w)) \<noteq> 0
                then (Inl AssertionFailed, w)
                else
                  let b = (snd w)\<lparr>m_work := False\<rparr> in
                  (case sbind (join_all b) (\<lambda>_ b. teardown_services [0..<occupied_size L (m_services b)] b) of
                     (Inl e, b) \<Rightarrow> (Inl e, (fst w, b))
                   | (Inr _, b) \<Rightarrow> (Inr BACKEND_SHUTDOWN_COMPLETE, (fst w, b)))
           else (Inr BACKEND_SHUTDOWN_WAITING_ON_MANAGER_DISCONECTIONS, w)))"

text \<open>
  The loop of \<open>shutdown\<close>: a step, then sleep and repeat until a step reports completion.
  While the caller sleeps the other threads run; \<open>env\<close> lists what they do to the state
  during each sleep, and the loop is out of \<open>env\<close> (\<open>None\<close>) when it is still waiting at its end.
\<close>

fun shutdown_loop :: "'ix boost
    \<Rightarrow> (mid \<Rightarrow> 'x \<times> ('ix, 'st, 'ck, 'm) BackEnd \<Rightarrow> (exn, unit, 'x \<times> ('ix, 'st, 'ck, 'm) BackEnd) sres)
    \<Rightarrow> ('x \<times> ('ix, 'st, 'ck, 'm) BackEnd \<Rightarrow> 'x \<times> ('ix, 'st, 'ck, 'm) BackEnd) list
    \<Rightarrow> 'x \<times> ('ix, 'st, 'ck, 'm) BackEnd \<Rightarrow> (exn, unit option, 'x \<times> ('ix, 'st, 'ck, 'm) BackEnd) sres" where
  "shutdown_loop L disc env w =
     sbind (shutdown_step L disc w) (\<lambda>state w.
       if state = BACKEND_SHUTDOWN_COMPLETE then (Inr (Some ()), w)
       else case env of
              [] \<Rightarrow> (Inr None, w)
            | f # env \<Rightarrow> shutdown_loop L disc env (f w))"

definition BackEnd_shutdown :: "'ix boost
    \<Rightarrow> (mid \<Rightarrow> 'x \<times> ('ix, 'st, 'ck, 'm) BackEnd \<Rightarrow> (exn, unit, 'x \<times> ('ix, 'st, 'ck, 'm) BackEnd) sres)
    \<Rightarrow> ('x \<times> ('ix, 'st, 'ck, 'm) BackEnd \<Rightarrow> 'x \<times> ('ix, 'st, 'ck, 'm) BackEnd) list
    \<Rightarrow> 'x \<times> ('ix, 'st, 'ck, 'm) BackEnd \<Rightarrow> (exn, unit option, 'x \<times> ('ix, 'st, 'ck, 'm) BackEnd) sres" where
  "BackEnd_shutdown L disc env w =
     (case check_and_initiate_shutdown (m_synchronised_state (snd w)) of
        (True, s) \<Rightarrow> shutdown_loop L disc env (fst w, (snd w)\<lparr>m_synchronised_state := s\<rparr>)
      | (False, s) \<Rightarrow> (Inr (Some ()), w))"

text \<open>The destructor, and the counts that callers read.\<close>

definition BackEnd_destroy :: "'ix boost
    \<Rightarrow> (mid \<Rightarrow> 'x \<times> ('ix, 'st, 'ck, 'm) BackEnd \<Rightarrow> (exn, unit, 'x \<times> ('ix, 'st, 'ck, 'm) BackEnd) sres)
    \<Rightarrow> ('x \<times> ('ix, 'st, 'ck, 'm) BackEnd \<Rightarrow> 'x \<times> ('ix, 'st, 'ck, 'm) BackEnd) list
    \<Rightarrow> 'x \<times> ('ix, 'st, 'ck, 'm) BackEnd \<Rightarrow> (exn, unit option, 'x \<times> ('ix, 'st, 'ck, 'm) BackEnd) sres" where
  "BackEnd_destroy L disc env w = BackEnd_shutdown L disc env w"

definition BackEnd_rpc_count :: "('ix, 'st, 'ck, 'm) BackEnd \<Rightarrow> int" where
  "BackEnd_rpc_count b = rpc_count (m_synchronised_state b)"

definition BackEnd_manager_count :: "('ix, 'st, 'ck, 'm) BackEnd \<Rightarrow> nat" where
  "BackEnd_manager_count b = manager_count (m_synchronised_state b)"

definition BackEnd_client_count :: "('ix, 'st, 'ck, 'm) BackEnd \<Rightarrow> nat" where
  "BackEnd_client_count b = clients_size (m_connected_clients b)"

end
