(* ===== verification/Back_End_Config.thy ===== *)
theory Back_End_Config
  imports Service_Facts Back_End
begin

text \<open>
  Configuring the backend: what construction, registration and start leave behind, when they
  succeed and when they throw.
\<close>

section \<open>Well-formed services and service tables\<close>

text \<open>
  What the library asks of a linked implementation: it does not touch the flags of the client
  data that the backend maintains, nor the subscription flag of the cookie it is handed.
\<close>

definition impl_behaves :: "('st, 'ck, 'm) UserImpl \<Rightarrow> bool" where
  "impl_behaves u \<longleftrightarrow>
     (\<forall>n st cc cd m. case u_call u n st cc cd m of (st', cc', cd', m') \<Rightarrow>
        cd_rpc_active cd' = cd_rpc_active cd \<and> m_subscribed cc' = m_subscribed cc) \<and>
     (\<forall>st cc cd q r. case u_subscribe u st cc cd q r of (st', cc', cd', r') \<Rightarrow>
        cd_rpc_active cd' = cd_rpc_active cd \<and> m_subscribed cc' = m_subscribed cc) \<and>
     (\<forall>st cc cd. case u_unsubscribe u st cc cd of (st', cc', cd') \<Rightarrow>
        cd_rpc_active cd' = cd_rpc_active cd \<and> m_subscribed cc' = m_subscribed cc)"

lemma impl_behavesD:
  assumes "impl_behaves u"
  shows "u_call u n st cc cd m = (st', cc', cd', m') \<Longrightarrow>
      cd_rpc_active cd' = cd_rpc_active cd \<and> m_subscribed cc' = m_subscribed cc"
    and "u_subscribe u st cc cd q r = (st', cc', cd', r') \<Longrightarrow>
      cd_rpc_active cd' = cd_rpc_active cd \<and> m_subscribed cc' = m_subscribed cc"
    and "u_unsubscribe u st cc cd = (st', cc', cd') \<Longrightarrow>
      cd_rpc_active cd' = cd_rpc_active cd \<and> m_subscribed cc' = m_subscribed cc"
proof -
  note d = assms [unfolded impl_behaves_def]
  show "u_call u n st cc cd m = (st', cc', cd', m') \<Longrightarrow>
      cd_rpc_active cd' = cd_rpc_active cd \<and> m_subscribed cc' = m_subscribed cc"
    using d [THEN conjunct1, THEN spec [of _ n], THEN spec [of _ st], THEN spec [of _ cc], THEN spec [of _ cd], THEN spec [of _ m]] by simp
  show "u_subscribe u st cc cd q r = (st', cc', cd', r') \<Longrightarrow>
      cd_rpc_active cd' = cd_rpc_active cd \<and> m_subscribed cc' = m_subscribed cc"
    using d [THEN conjunct2, THEN conjunct1, THEN spec [of _ st], THEN spec [of _ cc], THEN spec [of _ cd], THEN spec [of _ q], THEN spec [of _ r]] by simp
  show "u_unsubscribe u st cc cd = (st', cc', cd') \<Longrightarrow>
      cd_rpc_active cd' = cd_rpc_active cd \<and> m_subscribed cc' = m_subscribed cc"
    using d [THEN conjunct2, THEN conjunct2, THEN spec [of _ st], THEN spec [of _ cc], THEN spec [of _ cd]] by simp
qed

definition method_count :: "('ix, 'st, 'ck, 'm) Service \<Rightarrow> nat" where
  "method_count s = OidContainer_size (svc_dispatch_table s)"

definition service_wf :: "('ix \<Rightarrow> nat set) \<Rightarrow> ((nat \<Rightarrow> OidName) \<Rightarrow> 'ix \<Rightarrow> bool)
    \<Rightarrow> ('ix, 'st, 'ck, 'm) Service \<Rightarrow> bool" where
  "service_wf elems ordered s \<longleftrightarrow>
     service_ok elems ordered (method_count s) s \<and>
     (case svc_impl s of BasicProtocolImpl \<Rightarrow> method_count s = 5 | Linked u \<Rightarrow> impl_behaves u)"

definition is_basic :: "('ix, 'st, 'ck, 'm) Service \<Rightarrow> bool" where
  "is_basic s = (case svc_impl s of BasicProtocolImpl \<Rightarrow> True | Linked u \<Rightarrow> False)"

text \<open>
  A service table of \<open>n\<close> live services without holes, in which the basic protocol is the
  service at ordinal 0 and the others are linked services.
\<close>

definition table_ok :: "('ix \<Rightarrow> nat set) \<Rightarrow> ((nat \<Rightarrow> OidName) \<Rightarrow> 'ix \<Rightarrow> bool) \<Rightarrow> nat
    \<Rightarrow> ('ix, 'st, 'ck, 'm) t_services \<Rightarrow> bool" where
  "table_ok elems ordered n t \<longleftrightarrow>
     dense (oid_inv elems ordered) oid_abs OidContainer_size n t \<and> n \<le> 65536 \<and>
     (\<forall>i < n. \<exists>nm s. oid_abs t i = Some (nm, Some s) \<and> service_wf elems ordered s \<and> is_basic s = (i = 0))"

text \<open>A backend that was not started yet and can take further services.\<close>

definition fresh_ok :: "('ix \<Rightarrow> nat set) \<Rightarrow> ((nat \<Rightarrow> OidName) \<Rightarrow> 'ix \<Rightarrow> bool) \<Rightarrow> nat
    \<Rightarrow> ('ix, 'st, 'ck, 'm) BackEnd \<Rightarrow> bool" where
  "fresh_ok elems ordered n b \<longleftrightarrow>
     table_ok elems ordered n (m_services b) \<and> unat (m_service_count b) = n \<and>
     m_client_service_cookies b = [] \<and> \<not> m_is_sealed b"

text \<open>A backend that was started with \<open>n\<close> services.\<close>

definition run_ok :: "('ix \<Rightarrow> nat set) \<Rightarrow> ((nat \<Rightarrow> OidName) \<Rightarrow> 'ix \<Rightarrow> bool) \<Rightarrow> nat
    \<Rightarrow> ('ix, 'st, 'ck, 'm) BackEnd \<Rightarrow> bool" where
  "run_ok elems ordered n b \<longleftrightarrow>
     table_ok elems ordered n (m_services b) \<and> cookies_ok n (m_client_service_cookies b) \<and> m_is_sealed b"

lemma table_okD:
  assumes "table_ok elems ordered n t" "i < n"
  obtains nm s where "oid_abs t i = Some (nm, Some s)" "service_wf elems ordered s" "is_basic s = (i = 0)"
  using assms by (auto simp: table_ok_def)

lemma table_ok_at_ordinal:
  assumes "table_ok elems ordered n t"
  shows "at_ordinal t k = None \<longleftrightarrow> n \<le> unat k"
proof -
  have "unat k \<in> dom (oid_abs t) \<longleftrightarrow> unat k < n"
    using assms unfolding table_ok_def dense_def by simp
  then have "oid_abs t (unat k) \<noteq> None \<longleftrightarrow> unat k < n" unfolding domIff .
  then show ?thesis unfolding at_ordinal_abs option.map_disc_iff by linarith
qed

lemma table_ok_occupied:
  "table_ok elems ordered n t \<Longrightarrow> occupied t = {..<n}" "table_ok elems ordered n t \<Longrightarrow> OidContainer_size t = n"
  by (auto simp: table_ok_def dense_def)

context boost_library
begin

lemma table_ok_occupied_size:
  assumes "table_ok elems ordered n t"
  shows "occupied_size L t = n"
proof -
  have inv: "oid_inv elems ordered t" using assms by (simp add: table_ok_def dense_def)
  show ?thesis unfolding occupied_size_ok [OF inv] table_ok_occupied(1) [OF assms] by simp
qed

text \<open>Writing a live service back into its slot keeps the table well formed.\<close>

lemma table_ok_store:
  assumes "table_ok elems ordered n t" "i < n" "service_wf elems ordered s" "is_basic s = (i = 0)"
  shows "table_ok elems ordered n (store_entry i (Some s) t)"
proof -
  from assms(1,2) obtain nm s0 where i: "oid_abs t i = Some (nm, Some s0)" by (rule table_okD)
  have inv: "oid_inv elems ordered t" using assms(1) by (simp add: table_ok_def dense_def)
  note st = store_entry_ok [OF inv i, of "Some s"]
  have "dom (oid_abs (store_entry i (Some s) t)) = {..<n}"
    using assms(1,2) unfolding st(2) table_ok_def dense_def by auto
  then show ?thesis
    using assms st unfolding table_ok_def dense_def by auto
qed

end

lemma service_wf_impl:
  assumes "service_wf elems ordered s" "svc_impl s = Linked u"
  shows "service_wf elems ordered (s\<lparr>svc_impl := Linked (u\<lparr>u_state := st\<rparr>)\<rparr>)"
  using assms by (simp add: service_wf_def service_ok_def method_count_def impl_behaves_def)

lemma service_wf_init: "service_wf elems ordered s \<Longrightarrow> service_wf elems ordered (fst (service_init s ec))"
  by (auto simp: service_init_def service_wf_impl split: Impl.split prod.split)

lemma service_wf_subscribe:
  "service_wf elems ordered s \<Longrightarrow> service_wf elems ordered (fst (service_subscribe s cc cd q r))"
  by (auto simp: service_subscribe_def service_wf_impl split: Impl.split prod.split)

lemma service_wf_unsubscribe:
  "service_wf elems ordered s \<Longrightarrow> service_wf elems ordered (fst (service_unsubscribe s cc cd))"
  by (auto simp: service_unsubscribe_def service_wf_impl split: Impl.split prod.split)

lemma is_basic_kept [simp]:
  "is_basic (fst (service_init s ec)) = is_basic s"
  "is_basic (fst (service_subscribe s cc cd q r)) = is_basic s"
  "is_basic (fst (service_unsubscribe s cc cd)) = is_basic s"
  by (simp_all add: is_basic_def service_init_def service_subscribe_def service_unsubscribe_def
      split: Impl.split prod.split)

lemma service_init_name [simp]: "svc_name (fst (service_init s ec)) = svc_name s"
  by (simp add: service_init_def split: Impl.split prod.split)

section \<open>Registration\<close>

context boost_library
begin

lemma fresh_okD:
  assumes "fresh_ok elems ordered n b"
  shows "dense (oid_inv elems ordered) oid_abs OidContainer_size n (m_services b)"
    "unat (m_service_count b) = n" "\<not> m_is_sealed b" "m_client_service_cookies b = []"
  using assms by (simp_all add: fresh_ok_def table_ok_def)

lemma register_free:
  assumes b: "fresh_ok elems ordered n b" and nm: "valid_name (svc_name s)"
    and free: "name_of L (svc_name s) \<notin> fst ` ran (oid_abs (m_services b))"
    and init: "service_init s (m_ec b) = (s', ec)"
  obtains c where "dense (oid_inv elems ordered) oid_abs OidContainer_size (Suc n) c"
    "oid_abs c = (oid_abs (m_services b))(n \<mapsto> (name_of L (svc_name s), Some s'))"
    "register_and_init_service L s b =
       (if ec_fails ec
        then (Inl (BackEndException (Some (ec_assign RBL_RPC_BACKEND_INITIALIZATION_ERROR rpc_backend_error))
                (Some (svc_name s)) (Some ec)), b\<lparr>m_services := c, m_ec := ec\<rparr>)
        else (Inr (), b\<lparr>m_services := c, m_ec := ec, m_service_count := m_service_count b + 1\<rparr>))"
proof -
  note f = fresh_okD [OF b]
  let ?d = "\<lparr>oid_name = name_of L (svc_name s), oid_ordinal = m_service_count b\<rparr>"
  have d: "good_name (oid_name ?d)" "unat (oid_ordinal ?d) = n" "oid_name ?d \<notin> fst ` ran (oid_abs (m_services b))"
    using f nm free by (simp_all add: good_name_of)
  obtain c where c: "SetEntry_id L None ?d (Some s) (m_services b) = (Inr OP_NO_ERROR, c)"
    "dense (oid_inv elems ordered) oid_abs OidContainer_size (Suc n) c"
    "oid_abs c = (oid_abs (m_services b))(n \<mapsto> (oid_name ?d, Some s))"
    using oid.put_next [OF f(1) d, of None "Some s"] by blast
  have inv: "oid_inv elems ordered c" and cn: "oid_abs c n = Some (name_of L (svc_name s), Some s)"
    using c(2,3) by (simp_all add: dense_def)
  note st = store_entry_ok [OF inv cn, of "Some s'"]
  have "dense (oid_inv elems ordered) oid_abs OidContainer_size (Suc n) (store_entry n (Some s') c)"
    using c(2) cn st unfolding dense_def by auto
  moreover have "oid_abs (store_entry n (Some s') c) = (oid_abs (m_services b))(n \<mapsto> (name_of L (svc_name s), Some s'))"
    using c(3) st(2) by simp
  ultimately show ?thesis
    by (rule that) (simp add: register_and_init_service_def f Oid_valid [OF nm] c(1) init Let_def)
qed

lemma table_ok_extend:
  assumes "table_ok elems ordered n t" "dense (oid_inv elems ordered) oid_abs OidContainer_size (Suc n) c"
    "oid_abs c = (oid_abs t)(n \<mapsto> (nm, Some s))" "service_wf elems ordered s" "n < 65536"
    "is_basic s = (n = 0)"
  shows "table_ok elems ordered (Suc n) c"
  using assms unfolding table_ok_def by (auto simp: less_Suc_eq)

lemma register_ok:
  assumes b: "fresh_ok elems ordered n b" and s: "service_wf elems ordered s" "valid_name (svc_name s)"
      "is_basic s = (n = 0)"
    and free: "name_of L (svc_name s) \<notin> fst ` ran (oid_abs (m_services b))"
    and init: "service_init s (m_ec b) = (s', ec)" "\<not> ec_fails ec" and n: "n < 65535"
  obtains b' where "register_and_init_service L s b = (Inr (), b')" "fresh_ok elems ordered (Suc n) b'"
    "oid_abs (m_services b') = (oid_abs (m_services b))(n \<mapsto> (name_of L (svc_name s), Some s'))"
    "\<exists>c. b' = b\<lparr>m_services := c, m_ec := ec, m_service_count := m_service_count b + 1\<rparr>"
proof -
  obtain c where c: "dense (oid_inv elems ordered) oid_abs OidContainer_size (Suc n) c"
    "oid_abs c = (oid_abs (m_services b))(n \<mapsto> (name_of L (svc_name s), Some s'))"
    "register_and_init_service L s b =
       (Inr (), b\<lparr>m_services := c, m_ec := ec, m_service_count := m_service_count b + 1\<rparr>)"
    using register_free [OF b s(2) free init(1)] init(2) by auto
  have "table_ok elems ordered n (m_services b)" using b by (simp add: fresh_ok_def)
  then have "table_ok elems ordered (Suc n) c"
    using c(1,2) service_wf_init [OF s(1), of "m_ec b"] is_basic_kept(1) [of s "m_ec b"] init(1) s(3) n
    by (intro table_ok_extend) auto
  moreover have "unat (m_service_count b + 1) = Suc n"
    using fresh_okD(2) [OF b] n by (simp add: unat_word_ariths)
  ultimately show ?thesis
    using c(2,3) fresh_okD [OF b]
    by (intro that [of "b\<lparr>m_services := c, m_ec := ec, m_service_count := m_service_count b + 1\<rparr>"])
      (auto simp: fresh_ok_def)
qed

text \<open>A name that is taken: the exception leaves a hole behind, and the backend cannot start.\<close>

lemma register_taken:
  assumes b: "fresh_ok elems ordered n b" and nm: "valid_name (svc_name s)"
    and taken: "name_of L (svc_name s) \<in> fst ` ran (oid_abs (m_services b))"
  obtains c where "register_and_init_service L s b =
      (Inl (backend_error RBL_RPC_BACKEND_IDENTIFIER_COLLISION), b\<lparr>m_services := c\<rparr>)"
    "oid_abs c = oid_abs (m_services b)" "oid_inv elems ordered c" "OidContainer_size c = Suc n"
proof -
  note f = fresh_okD [OF b]
  let ?d = "\<lparr>oid_name = name_of L (svc_name s), oid_ordinal = m_service_count b\<rparr>"
  have d: "good_name (oid_name ?d)" "unat (oid_ordinal ?d) = n" "oid_name ?d \<in> fst ` ran (oid_abs (m_services b))"
    using f nm taken by (simp_all add: good_name_of)
  obtain c where c: "SetEntry_id L None ?d (Some s) (m_services b) = (Inr OP_NAME_USED, c)"
    "oid_inv elems ordered c" "oid_abs c = oid_abs (m_services b)" "OidContainer_size c = Suc n"
    using oid.put_used_name [OF f(1) d, of None "Some s"] by blast
  then show ?thesis
    using f by (intro that [of c]) (simp_all add: register_and_init_service_def Oid_valid [OF nm] Let_def)
qed

lemma start_with_hole:
  assumes "oid_inv elems ordered (m_services b)" "OidContainer_size (m_services b) \<noteq> card (occupied (m_services b))"
    "\<not> m_is_sealed b"
  shows "fst (BackEnd_start L b) = Inl AssertionFailed"
  using assms by (simp add: BackEnd_start_def occupied_size_ok Let_def)

end

section \<open>Starting\<close>

lemma activate_services_ok:
  "m + k \<le> 65536 \<Longrightarrow>
     activate_services [m..<m + k] (replicate m (Some []) @ replicate k (None :: 'ck cookie_map option)) =
       Inr (replicate (m + k) (Some []))"
proof (induction k arbitrary: m)
  case (Suc k)
  have "[m..<m + Suc k] = m # [Suc m..<Suc m + k]" by (simp add: upt_rec)
  moreover have "activate_service_with_ordinal (of_nat m)
      (replicate m (Some []) @ replicate (Suc k) (None :: 'ck cookie_map option)) =
      Inr (replicate (Suc m) (Some []) @ replicate k None)"
    using Suc.prems
    by (simp add: activate_service_with_ordinal_def nth_append list_update_append replicate_append_same)
  ultimately show ?case using Suc.IH [of "Suc m"] Suc.prems by (simp del: upt_Suc)
qed simp

context boost_library
begin

lemma start_ok:
  assumes b: "fresh_ok elems ordered n b" and pool: "m_pool_size b > 0"
  shows "BackEnd_start L b =
    (Inr (), upd_sync begin_accepting_requests
       (b\<lparr>m_is_sealed := True, m_client_service_cookies := replicate n (Some []),
          m_thread_group := m_thread_group b + nat (m_pool_size b)\<rparr>))"
proof -
  have t: "table_ok elems ordered n (m_services b)" using b by (simp add: fresh_ok_def)
  have "n \<le> 65536" using t by (simp add: table_ok_def)
  note act = activate_services_ok [of 0 n, simplified, OF this]
  show ?thesis
    using pool fresh_okD [OF b] table_ok_occupied_size [OF t] table_ok_occupied(2) [OF t]
    by (simp add: BackEnd_start_def set_size_cookies_def act Let_def)
qed

lemma started_run_ok:
  assumes "fresh_ok elems ordered n b" "m_pool_size b > 0" "BackEnd_start L b = (r, b')"
  shows "run_ok elems ordered n b'" "is_accepting_requests (m_synchronised_state b')"
    "m_services b' = m_services b" "cookies_abs (m_client_service_cookies b') = Map.empty"
  using start_ok [OF assms(1,2)] assms(1,3)
  by (auto simp: run_ok_def fresh_ok_def upd_sync_def cookies_ok_def cookies_abs_def sync_defs fun_eq_iff)

end

lemma sealed_errors:
  assumes "m_is_sealed b"
  shows "register_and_init_service L s b = (Inl (backend_error RBL_RPC_BACKEND_SEALED), b)"
    "m_pool_size b > 0 \<Longrightarrow> BackEnd_start L b = (Inl (backend_error RBL_RPC_BACKEND_SEALED), b)"
  using assms by (simp_all add: register_and_init_service_def BackEnd_start_def)

section \<open>Construction\<close>

context boost_library
begin

lemma to_lower_methods: "map (to_lower L) (sd_methods basic_protocol_descriptor) = sd_methods basic_protocol_descriptor"
  by (simp add: basic_protocol_descriptor_def to_lower_fix lower_case_def)

lemma basic_descriptor_ok: "descriptor_ok L basic_protocol_descriptor"
  unfolding descriptor_ok_def to_lower_methods
  by (simp add: basic_protocol_descriptor_def valid_name_def oid_name_length_def)

lemma BackEnd_new_ok:
  obtains b :: "('ix, 'st, 'ck, 'm) BackEnd" and s where "BackEnd_new L src dst = (Inr (), b)" "fresh_ok elems ordered 1 b"
    "m_source_type b = src" "m_backend_type b = dst"
    "oid_abs (m_services b) = [0 \<mapsto> (name_of L ''basic_protocol'', Some s)]"
    "svc_impl s = BasicProtocolImpl" "method_count s = 5"
    "\<And>i. i < 5 \<Longrightarrow> oid_abs (svc_dispatch_table s) i = Some (name_of L (sd_methods basic_protocol_descriptor ! i), Some i)"
proof -
  let ?b = "BackEnd_members L src dst :: ('ix, 'st, 'ck, 'm) BackEnd"
  have len: "length (sd_methods basic_protocol_descriptor) = 5" by (simp add: basic_protocol_descriptor_def)
  have name: "sd_name basic_protocol_descriptor = ''basic_protocol''" by (simp add: basic_protocol_descriptor_def)
  obtain s :: "('ix, 'st, 'ck, 'm) Service" where s: "create_constructor L basic_protocol_descriptor BasicProtocolImpl = Inr s"
    "svc_name s = ''basic_protocol''" "svc_impl s = BasicProtocolImpl" "service_ok elems ordered 5 s"
    "\<And>i. i < 5 \<Longrightarrow> oid_abs (svc_dispatch_table s) i = Some (name_of L (sd_methods basic_protocol_descriptor ! i), Some i)"
    by (rule create_constructor_ok [OF basic_descriptor_ok, of BasicProtocolImpl, unfolded len name]) blast
  have count: "method_count s = 5" using s(4) by (simp add: method_count_def service_ok_def dense_def)
  have "table_ok elems ordered 0 (m_services ?b)"
    by (simp add: table_ok_def dense_def BackEnd_members_def OidContainer_empty_ok)
  then have fresh: "fresh_ok elems ordered 0 ?b" by (simp add: fresh_ok_def BackEnd_members_def)
  have "service_wf elems ordered s" using s count by (simp add: service_wf_def)
  moreover have "valid_name (svc_name s)" by (simp add: s valid_name_def oid_name_length_def)
  moreover have "is_basic s = (0 = (0 :: nat))" using s by (simp add: is_basic_def)
  moreover have "name_of L (svc_name s) \<notin> fst ` ran (oid_abs (m_services ?b))"
    by (simp add: BackEnd_members_def OidContainer_empty_ok)
  moreover have "service_init s (m_ec ?b) = (s, ec_clear)" by (simp add: service_init_def s)
  ultimately obtain b' where "register_and_init_service L s ?b = (Inr (), b')" "fresh_ok elems ordered (Suc 0) b'"
    "oid_abs (m_services b') = (oid_abs (m_services ?b))(0 \<mapsto> (name_of L (svc_name s), Some s))"
    "m_source_type b' = src" "m_backend_type b' = dst"
    by (rule register_ok [OF fresh]) (auto simp: BackEnd_members_def)
  with s count show ?thesis
    by (intro that [of b' s]) (simp_all add: BackEnd_new_def BackEnd_members_def OidContainer_empty_ok)
qed

end

section \<open>A registration that failed in \<open>init\<close>\<close>

context boost_library
begin

lemma register_blocked:
  assumes "oid_inv elems ordered (m_services b)" "unat (m_service_count b) \<in> dom (oid_abs (m_services b))"
    "\<not> m_is_sealed b" "valid_name (svc_name s)"
  shows "fst (register_and_init_service L s b) = Inl (backend_error RBL_RPC_BACKEND_IDENTIFIER_COLLISION)"
proof -
  let ?d = "\<lparr>oid_name = name_of L (svc_name s), oid_ordinal = m_service_count b\<rparr>"
  have "good_name (oid_name ?d)" using assms(4) by (simp add: good_name_of)
  from oid.put_spec [OF assms(1) this, of None "Some s"] obtain c r where
    "SetEntry_id L None ?d (Some s) (m_services b) = (Inr r, c)" "r \<noteq> OP_NO_ERROR"
    using assms(2) by (auto simp: spec_contains_cases split: if_splits)
  then show ?thesis
    using assms(3) by (simp add: register_and_init_service_def Oid_valid [OF assms(4)] Let_def)
qed

end

end
