(* ===== verification/Concrete_Instances.thy ===== *)
theory Concrete_Instances
  imports Back_End_Config
begin

text \<open>
  Concrete objects for the instances of the properties: the reference implementation of the
  Boost operations, a service with one method that returns its argument, and the backends
  that construction, registration and start make of them.
\<close>

type_synonym demo_service = "(nat list, unit, unit, string) Service"
type_synonym demo_backend = "(nat list, unit, unit, string) BackEnd"

abbreviation lst_ordered :: "(nat \<Rightarrow> OidName) \<Rightarrow> nat list \<Rightarrow> bool" where
  "lst_ordered \<equiv> \<lambda>nm ix. distinct ix"

definition echo_impl :: "(unit, unit, string) UserImpl" where
  "echo_impl =
     \<lparr>u_state = (), u_init = \<lambda>st ec. (st, ec_clear), u_teardown = \<lambda>st ec. (st, ec_clear),
      u_subscribe = \<lambda>st cc cd q r. (st, cc, cd, r), u_unsubscribe = \<lambda>st cc cd. (st, cc, cd),
      u_call = \<lambda>n st cc cd m. (st, cc, cd, m), u_parse = \<lambda>n s. Some s, u_serialize = \<lambda>n m. Some m\<rparr>"

definition service_named :: "string \<Rightarrow> (unit, unit, string) UserImpl \<Rightarrow> demo_service" where
  "service_named nm u =
     projr (create_constructor list_boost \<lparr>sd_name = nm, sd_methods = [''echo'']\<rparr> (Linked u))"

definition echo_service :: demo_service where
  "echo_service = service_named ''echo'' echo_impl"

text \<open>An implementation whose \<open>init\<close> reports an error.\<close>

definition broken_service :: demo_service where
  "broken_service = service_named ''broken'' (echo_impl\<lparr>u_init := \<lambda>st ec. (st, \<lparr>ec_value = 5, ec_category = service_category ''io''\<rparr>)\<rparr>)"

text \<open>A protobuf runtime that knows one message of each kind.\<close>

definition demo_protobuf :: protobuf where
  "demo_protobuf =
     \<lparr>parse_HelloRequest = \<lambda>s. Some \<lparr>hq_source_type = SOURCE_GENERATOR, hq_expected_target = TARGET_RELAY, hq_node_name = s\<rparr>,
      ser_HelloRequest = hq_node_name, read_HelloResponse = \<lambda>s. \<lparr>hs_error_type = Some NO_HELLO_ERRORS\<rparr>,
      ser_HelloResponse = \<lambda>r. if hs_error_type r = None then None else Some ''hello'',
      parse_ListServicesRequest = \<lambda>s. Some (), ser_ListServicesRequest = \<lambda>r. [],
      read_ListServicesResponse = \<lambda>s. \<lparr>ls_services = []\<rparr>, ser_ListServicesResponse = \<lambda>r. Some ''services'',
      parse_SubscribeServiceRequest = \<lambda>s. Some \<lparr>sq_service_ordinal = 1, sq_subscribe_request_string = None\<rparr>,
      ser_SubscribeServiceRequest = \<lambda>r. [],
      read_SubscribeServiceResponse = \<lambda>s. \<lparr>ss_error = Some NO_SUBSCRIBE_SERVICE_ERROR, ss_subscribe_result_string = None\<rparr>,
      ser_SubscribeServiceResponse = \<lambda>r. if ss_error r = None then None else Some ''subscribed'',
      parse_UnsubscribeServiceRequest = \<lambda>s. Some \<lparr>uq_service_ordinal = 1\<rparr>, ser_UnsubscribeServiceRequest = \<lambda>r. [],
      read_UnsubscribeServiceResponse = \<lambda>s. \<lparr>us_error = Some NO_SUBSCRIBE_SERVICE_ERROR\<rparr>,
      ser_UnsubscribeServiceResponse = \<lambda>r. if us_error r = None then None else Some ''unsubscribed'',
      parse_ListMethodsRequest = \<lambda>s. Some \<lparr>lq_service_ordinal = 0\<rparr>, ser_ListMethodsRequest = \<lambda>r. [],
      read_ListMethodsResponse = \<lambda>s. \<lparr>lm_error = Some NO_LIST_METHOD_ERROR, lm_methods = []\<rparr>,
      ser_ListMethodsResponse = \<lambda>r. if lm_error r = None then None else Some ''methods''\<rparr>"

text \<open>A client that asks for method \<open>ro\<close> of service \<open>so\<close>.\<close>

definition caller :: "uint32 \<Rightarrow> uint32 \<Rightarrow> bool \<Rightarrow> InvokerBase" where
  "caller so ro established =
     InvokerBase_new\<lparr>inv_client_data := ClientData_new
       \<lparr>cd_request := \<lparr>cr_service_ordinal = Some so, cr_request_ordinal = Some ro, cr_request_string = Some ''node''\<rparr>,
        cd_client_established := established\<rparr>\<rparr>"

definition backend_0 :: demo_backend where
  "backend_0 = snd (BackEnd_new list_boost SOURCE_GENERATOR TARGET_RELAY)"

definition backend_1 :: demo_backend where
  "backend_1 = pool_size 2 (snd (register_and_init_service list_boost echo_service backend_0))"

definition backend_2 :: demo_backend where
  "backend_2 = snd (BackEnd_start list_boost backend_1)"

lemma service_named_ok:
  assumes "impl_behaves u"
  shows "service_wf set lst_ordered (service_named nm u)" "svc_name (service_named nm u) = nm"
    "svc_impl (service_named nm u) = Linked u" "method_count (service_named nm u) = 1"
proof -
  have "descriptor_ok list_boost \<lparr>sd_name = nm, sd_methods = [''echo'']\<rparr>"
    by (simp add: descriptor_ok_def valid_name_code)
  then obtain s where "create_constructor list_boost \<lparr>sd_name = nm, sd_methods = [''echo'']\<rparr> (Linked u) = Inr s"
    "svc_name s = nm" "svc_impl s = Linked u" "service_ok set lst_ordered 1 s"
    by (rule lst.create_constructor_ok [of _ "Linked u"]) simp
  then show "service_wf set lst_ordered (service_named nm u)" "svc_name (service_named nm u) = nm"
    "svc_impl (service_named nm u) = Linked u" "method_count (service_named nm u) = 1"
    using assms by (simp_all add: service_named_def service_wf_def method_count_def service_ok_def dense_def)
qed

lemma echo_impl_behaves: "impl_behaves echo_impl"
  by (simp add: impl_behaves_def echo_impl_def)

lemmas echo_service_ok = service_named_ok [OF echo_impl_behaves, of "''echo''", folded echo_service_def]

lemma backend_0_ok: "BackEnd_new list_boost SOURCE_GENERATOR TARGET_RELAY = (Inr (), backend_0)"
  "fresh_ok set lst_ordered 1 backend_0" "fst ` ran (oid_abs (m_services backend_0)) = {name_of list_boost ''basic_protocol''}"
proof -
  obtain b :: demo_backend and s where "BackEnd_new list_boost SOURCE_GENERATOR TARGET_RELAY = (Inr (), b)"
    "fresh_ok set lst_ordered 1 b" "oid_abs (m_services b) = [0 \<mapsto> (name_of list_boost ''basic_protocol'', Some s)]"
    by (rule lst.BackEnd_new_ok)
  then show "BackEnd_new list_boost SOURCE_GENERATOR TARGET_RELAY = (Inr (), backend_0)"
    "fresh_ok set lst_ordered 1 backend_0" "fst ` ran (oid_abs (m_services backend_0)) = {name_of list_boost ''basic_protocol''}"
    by (simp_all add: backend_0_def)
qed

lemma backend_0_types: "m_source_type backend_0 = SOURCE_GENERATOR" "m_backend_type backend_0 = TARGET_RELAY"
proof -
  obtain b :: demo_backend and s where "BackEnd_new list_boost SOURCE_GENERATOR TARGET_RELAY = (Inr (), b)"
    "m_source_type b = SOURCE_GENERATOR" "m_backend_type b = TARGET_RELAY"
    by (rule lst.BackEnd_new_ok)
  then show "m_source_type backend_0 = SOURCE_GENERATOR" "m_backend_type backend_0 = TARGET_RELAY"
    by (simp_all add: backend_0_def)
qed

lemma demo_names: "name_of list_boost ''echo'' \<noteq> name_of list_boost ''basic_protocol''"
  "name_of list_boost ''broken'' \<noteq> name_of list_boost ''basic_protocol''"
  "name_of list_boost ''Basic_Protocol'' = name_of list_boost ''basic_protocol''"
  by code_simp+

lemma echo_init: "service_init echo_service ec = (echo_service, ec_clear)"
proof -
  have "echo_impl\<lparr>u_state := ()\<rparr> = echo_impl" "u_init echo_impl () ec = ((), ec_clear)"
    by (simp_all add: echo_impl_def)
  moreover have "echo_service\<lparr>svc_impl := Linked echo_impl\<rparr> = echo_service"
    using echo_service_ok(3) by (cases echo_service) simp
  ultimately show ?thesis by (simp add: service_init_def echo_service_ok(3))
qed

lemma backend_1_ok: "fresh_ok set lst_ordered 2 backend_1" "m_pool_size backend_1 = 2"
  "oid_abs (m_services backend_1) 1 = Some (name_of list_boost ''echo'', Some echo_service)"
  "oid_abs (m_services backend_1) = (oid_abs (m_services backend_0))(1 \<mapsto> (name_of list_boost ''echo'', Some echo_service))"
proof -
  have "valid_name (svc_name echo_service)" by (simp add: echo_service_ok valid_name_code)
  moreover have "name_of list_boost (svc_name echo_service) \<notin> fst ` ran (oid_abs (m_services backend_0))"
    by (simp add: backend_0_ok echo_service_ok demo_names)
  ultimately obtain b where b: "register_and_init_service list_boost echo_service backend_0 = (Inr (), b)"
    "fresh_ok set lst_ordered 2 b"
    "oid_abs (m_services b) = (oid_abs (m_services backend_0))(1 \<mapsto> (name_of list_boost ''echo'', Some echo_service))"
    using lst.register_ok [OF backend_0_ok(2) echo_service_ok(1) _ _ _ echo_init]
    by (auto simp: echo_service_ok numeral_2_eq_2 is_basic_def)
  then show "fresh_ok set lst_ordered 2 backend_1" "m_pool_size backend_1 = 2"
    "oid_abs (m_services backend_1) 1 = Some (name_of list_boost ''echo'', Some echo_service)"
    "oid_abs (m_services backend_1) = (oid_abs (m_services backend_0))(1 \<mapsto> (name_of list_boost ''echo'', Some echo_service))"
    by (simp_all add: backend_1_def pool_size_def fresh_ok_def)
qed

lemma backend_2_ok: "BackEnd_start list_boost backend_1 = (Inr (), backend_2)" "run_ok set lst_ordered 2 backend_2"
  "is_accepting_requests (m_synchronised_state backend_2)"
  "oid_abs (m_services backend_2) 1 = Some (name_of list_boost ''echo'', Some echo_service)"
  "cookies_abs (m_client_service_cookies backend_2) = Map.empty"
proof -
  have pool: "m_pool_size backend_1 > 0" by (simp add: backend_1_ok)
  note eq = lst.start_ok [OF backend_1_ok(1) pool]
  then show start: "BackEnd_start list_boost backend_1 = (Inr (), backend_2)" by (simp add: backend_2_def)
  note run = lst.started_run_ok [OF backend_1_ok(1) pool start]
  then show "run_ok set lst_ordered 2 backend_2" "is_accepting_requests (m_synchronised_state backend_2)"
    "oid_abs (m_services backend_2) 1 = Some (name_of list_boost ''echo'', Some echo_service)"
    "cookies_abs (m_client_service_cookies backend_2) = Map.empty"
    using backend_1_ok(3) by simp_all
qed

lemma backend_2_table:
  "oid_abs (m_services backend_2) = (oid_abs (m_services backend_0))(1 \<mapsto> (name_of list_boost ''echo'', Some echo_service))"
  using lst.started_run_ok(3) [OF backend_1_ok(1) _ backend_2_ok(1)] backend_1_ok(2,4) by simp

lemma backend_2_types: "m_source_type backend_2 = SOURCE_GENERATOR" "m_backend_type backend_2 = TARGET_RELAY"
proof -
  have reg: "m_source_type (snd (register_and_init_service L s b)) = m_source_type b"
    "m_backend_type (snd (register_and_init_service L s b)) = m_backend_type b" for L s and b :: demo_backend
    by (auto simp: register_and_init_service_def Let_def split: sum.split prod.split)
  have "m_source_type backend_1 = SOURCE_GENERATOR" "m_backend_type backend_1 = TARGET_RELAY"
    by (simp_all add: backend_1_def pool_size_def reg backend_0_types)
  then show "m_source_type backend_2 = SOURCE_GENERATOR" "m_backend_type backend_2 = TARGET_RELAY"
    using backend_1_ok(2) by (simp_all add: backend_2_def lst.start_ok [OF backend_1_ok(1)] upd_sync_def)
qed

lemma backend_2_services:
  assumes "oid_abs (m_services backend_2) i = Some (nm, Some s)"
  shows "i = 0 \<and> is_basic s \<or> i = 1 \<and> s = echo_service"
proof -
  have tab: "table_ok set lst_ordered 2 (m_services backend_2)" using backend_2_ok(2) by (simp add: run_ok_def)
  have "i \<in> occupied (m_services backend_2)" using assms by (auto simp: oid_abs_def split: if_splits)
  then have i: "i < 2" using table_ok_occupied(1) [OF tab] by simp
  then obtain nm' s' where "oid_abs (m_services backend_2) i = Some (nm', Some s')" "is_basic s' = (i = 0)"
    using table_okD [OF tab i] by metis
  with assms have "is_basic s = (i = 0)" by simp
  then show ?thesis using i assms backend_2_ok(4) by (cases "i = 0") (auto simp: less_2_cases_iff)
qed

text \<open>Nothing happened on the concrete backend yet.\<close>

lemma backend_2_quiet:
  "m_io_posted backend_2 = []" "m_connected_clients backend_2 = {}" "\<not> m_io_stopped backend_2"
  "m_synchronised_state backend_2 = begin_accepting_requests SynchronisedBackEndState_new"
  "m_thread_group backend_2 = 2"
proof -
  have reg: "m_io_posted (snd (register_and_init_service L s b)) = m_io_posted b"
    "m_connected_clients (snd (register_and_init_service L s b)) = m_connected_clients b"
    "m_io_stopped (snd (register_and_init_service L s b)) = m_io_stopped b"
    "m_synchronised_state (snd (register_and_init_service L s b)) = m_synchronised_state b"
    "m_thread_group (snd (register_and_init_service L s b)) = m_thread_group b" for L s and b :: demo_backend
    by (auto simp: register_and_init_service_def Let_def split: sum.split prod.split)
  have "m_io_posted backend_0 = []" "m_connected_clients backend_0 = {}" "\<not> m_io_stopped backend_0"
    "m_synchronised_state backend_0 = SynchronisedBackEndState_new" "m_thread_group backend_0 = 0"
    by (simp_all add: backend_0_def BackEnd_new_def Let_def reg split: sum.split) (simp_all add: BackEnd_members_def)
  then have "m_io_posted backend_1 = []" "m_connected_clients backend_1 = {}" "\<not> m_io_stopped backend_1"
    "m_synchronised_state backend_1 = SynchronisedBackEndState_new" "m_thread_group backend_1 = 0"
    by (simp_all add: backend_1_def pool_size_def reg)
  then show "m_io_posted backend_2 = []" "m_connected_clients backend_2 = {}" "\<not> m_io_stopped backend_2"
    "m_synchronised_state backend_2 = begin_accepting_requests SynchronisedBackEndState_new" "m_thread_group backend_2 = 2"
    using backend_1_ok(2) by (simp_all add: backend_2_def lst.start_ok [OF backend_1_ok(1)] upd_sync_def)
qed

end
