(* ===== verification/Config_Properties.thy ===== *)
theory Config_Properties
  imports Concrete_Instances
begin

text \<open>
  The properties of construction, registration and start, on every branch that throws and on
  the one that succeeds.
\<close>

text \<open>
  A new backend: construction never throws, whatever the two connection types, and leaves a
  backend with exactly one service, \<open>basic_protocol\<close> at ordinal 0, whose dispatch table holds
  the five methods of the protocol in the order of their ordinals.
\<close>
theorem new_backend:
  assumes "boost_library L elems ordered"
  shows "\<exists>b s. BackEnd_new L src dst = (Inr (), b) \<and> fresh_ok elems ordered 1 b \<and>
    oid_abs (m_services b) = [0 \<mapsto> (name_of L ''basic_protocol'', Some s)] \<and>
    svc_impl s = BasicProtocolImpl \<and> method_count s = 5 \<and>
    (\<forall>i < 5. oid_abs (svc_dispatch_table s) i = Some (name_of L (sd_methods basic_protocol_descriptor ! i), Some i))"
  by (rule boost_library.BackEnd_new_ok [OF assms, of src dst]) blast

theorem new_backend_witness:
  "\<exists>b :: (nat list, unit, unit, unit) BackEnd. BackEnd_new list_boost SOURCE_RELAY TARGET_MARSHALL = (Inr (), b) \<and>
     fresh_ok set (\<lambda>nm ix. distinct ix) 1 b"
  using new_backend [OF list_boost_library] by blast

text \<open>
  C8: registration. A well-formed service with a valid name that no registered service has
  (ignoring case) and whose \<open>init\<close> reports no error is registered at the next ordinal, as
  its \<open>init\<close> left it; the earlier services keep their ordinals and the backend stays ready for
  more. The bound keeps the 16-bit service counter from wrapping.
\<close>
theorem register_succeeds:
  assumes "boost_library L elems ordered" "fresh_ok elems ordered n b" "n < 65535"
    "service_wf elems ordered s" "valid_name (svc_name s)" "is_basic s = (n = 0)"
    "name_of L (svc_name s) \<notin> fst ` ran (oid_abs (m_services b))"
    "\<not> ec_fails (snd (service_init s (m_ec b)))"
  shows "\<exists>b'. register_and_init_service L s b = (Inr (), b') \<and> fresh_ok elems ordered (Suc n) b' \<and>
    oid_abs (m_services b') =
      (oid_abs (m_services b))(n \<mapsto> (name_of L (svc_name s), Some (fst (service_init s (m_ec b)))))"
  using boost_library.register_ok [OF assms(1,2,4-7) surjective_pairing assms(8,3)] by metis

lemma echo_valid: "valid_name (svc_name echo_service)"
  "name_of list_boost (svc_name echo_service) \<notin> fst ` ran (oid_abs (m_services backend_0))"
  by (simp_all add: echo_service_ok valid_name_code backend_0_ok demo_names)

theorem register_succeeds_witness:
  "\<exists>b'. register_and_init_service list_boost echo_service backend_0 = (Inr (), b') \<and>
     fresh_ok set lst_ordered 2 b' \<and> oid_abs (m_services b') 1 = Some (name_of list_boost ''echo'', Some echo_service)"
  using register_succeeds [OF list_boost_library backend_0_ok(2) _ echo_service_ok(1) echo_valid(1) _ echo_valid(2)]
  by (auto simp: is_basic_def echo_init echo_service_ok numeral_2_eq_2)



text \<open>
  C10: a service whose \<open>init\<close> fails. The call throws the initialisation error with the name of
  the service and its error code, but the service stays in the table while the service counter
  is not advanced, so that every later registration under a valid name collides with it.
\<close>
theorem failed_init_blocks_registration:
  assumes "boost_library L elems ordered" "fresh_ok elems ordered n b" "valid_name (svc_name s)"
    "name_of L (svc_name s) \<notin> fst ` ran (oid_abs (m_services b))"
    "service_init s (m_ec b) = (s', ec)" "ec_fails ec" "valid_name (svc_name t)"
  shows "\<exists>b'. register_and_init_service L s b =
      (Inl (BackEndException (Some (ec_assign RBL_RPC_BACKEND_INITIALIZATION_ERROR rpc_backend_error))
         (Some (svc_name s)) (Some ec)), b') \<and>
    oid_abs (m_services b') n = Some (name_of L (svc_name s), Some s') \<and>
    fst (register_and_init_service L t b') = Inl (backend_error RBL_RPC_BACKEND_IDENTIFIER_COLLISION)"
proof -
  obtain c where c: "dense (oid_inv elems ordered) oid_abs OidContainer_size (Suc n) c"
    "oid_abs c = (oid_abs (m_services b))(n \<mapsto> (name_of L (svc_name s), Some s'))"
    "register_and_init_service L s b =
      (Inl (BackEndException (Some (ec_assign RBL_RPC_BACKEND_INITIALIZATION_ERROR rpc_backend_error))
         (Some (svc_name s)) (Some ec)), b\<lparr>m_services := c, m_ec := ec\<rparr>)"
    using boost_library.register_free [OF assms(1-5)] assms(6) by metis
  let ?b = "b\<lparr>m_services := c, m_ec := ec\<rparr>"
  have "oid_inv elems ordered (m_services ?b)" "\<not> m_is_sealed ?b" using c(1) assms(2) by (simp_all add: dense_def fresh_ok_def)
  moreover have "unat (m_service_count ?b) \<in> dom (oid_abs (m_services ?b))"
    using c(1) assms(2) by (simp add: dense_def fresh_ok_def)
  ultimately have "fst (register_and_init_service L t ?b) = Inl (backend_error RBL_RPC_BACKEND_IDENTIFIER_COLLISION)"
    using boost_library.register_blocked [OF assms(1)] assms(7) by metis
  with c show ?thesis by (intro exI [of _ ?b]) simp
qed

lemma broken_service_ok: "svc_name broken_service = ''broken''"
  "ec_value (snd (service_init broken_service ec)) = 5"
proof -
  let ?u = "echo_impl\<lparr>u_init := \<lambda>st ec. (st, \<lparr>ec_value = 5, ec_category = service_category ''io''\<rparr>)\<rparr>"
  have "impl_behaves ?u" by (simp add: impl_behaves_def echo_impl_def)
  note ok = service_named_ok [OF this, of "''broken''", folded broken_service_def]
  then show "svc_name broken_service = ''broken''" by simp
  from ok(3) show "ec_value (snd (service_init broken_service ec)) = 5" by (simp add: service_init_def)
qed

theorem failed_init_blocks_registration_witness:
  "\<exists>b' x. register_and_init_service list_boost broken_service backend_0 = (Inl x, b') \<and>
     fst (register_and_init_service list_boost echo_service b') = Inl (backend_error RBL_RPC_BACKEND_IDENTIFIER_COLLISION)"
  using failed_init_blocks_registration [OF list_boost_library backend_0_ok(2), of broken_service
      "fst (service_init broken_service (m_ec backend_0))" "snd (service_init broken_service (m_ec backend_0))" echo_service]
  by (auto simp: broken_service_ok echo_service_ok valid_name_code backend_0_ok demo_names ec_fails_def)

text \<open>
  C11: starting. A backend that was configured without errors and has a positive pool size
  starts: it is sealed, has one active and empty cookie map per service, its threads, and
  accepts requests. From then on registering and starting throw the sealed error and change nothing.
\<close>
theorem start_seals:
  assumes "boost_library L elems ordered" "fresh_ok elems ordered n b" "m_pool_size b > 0"
  shows "\<exists>b'. BackEnd_start L b = (Inr (), b') \<and> run_ok elems ordered n b' \<and>
    is_accepting_requests (m_synchronised_state b') \<and> m_services b' = m_services b \<and>
    cookies_abs (m_client_service_cookies b') = Map.empty \<and>
    m_thread_group b' = m_thread_group b + nat (m_pool_size b) \<and>
    register_and_init_service L s b' = (Inl (backend_error RBL_RPC_BACKEND_SEALED), b') \<and>
    BackEnd_start L b' = (Inl (backend_error RBL_RPC_BACKEND_SEALED), b')"
proof -
  note eq = boost_library.start_ok [OF assms]
  note run = boost_library.started_run_ok [OF assms eq]
  have "BackEnd_start L b = (Inr (), snd (BackEnd_start L b))" "m_is_sealed (snd (BackEnd_start L b))"
    "m_pool_size (snd (BackEnd_start L b)) > 0"
    "m_thread_group (snd (BackEnd_start L b)) = m_thread_group b + nat (m_pool_size b)"
    using assms(3) by (simp_all add: eq upd_sync_def)
  then show ?thesis
    using run sealed_errors [of "snd (BackEnd_start L b)"] unfolding eq snd_conv by blast
qed

theorem start_seals_witness:
  "\<exists>b'. BackEnd_start list_boost backend_1 = (Inr (), b') \<and> run_ok set lst_ordered 2 b' \<and> m_thread_group b' = 2 + m_thread_group backend_1"
  using start_seals [OF list_boost_library backend_1_ok(1)] by (auto simp: backend_1_ok(2))

end
