(* ===== verification/Invocation.thy ===== *)
theory Invocation
  imports Concrete_Instances
begin

text \<open>
  \<open>BackEnd::invoke\<close> against an abstract decision: from what the backend knows about the
  caller, a call is posted to the thread pool or refused for one of six reasons, and the
  number of active calls counts exactly the posted ones.
\<close>

section \<open>The abstract decision\<close>

datatype verdict =
    NotAccepting
  | NoService
  | NoFunction
  | NotSubscribed
  | AlreadyEstablished
  | NotEstablished
  | Posted

text \<open>What the decision depends on: the number of methods of each service, and the caller's state.\<close>

record call_view =
  cv_accepting :: bool
  cv_methods :: "nat \<rightharpoonup> nat"
  cv_subscribed :: "nat \<Rightarrow> bool"
  cv_established :: bool

text \<open>
  The ordinals of a request have 32 bits, the tables are indexed with 16: the checks for
  service 0 and for method 0 use the ordinals as they are, the lookups their lower halves.
\<close>

definition decide :: "call_view \<Rightarrow> uint32 \<Rightarrow> uint32 \<Rightarrow> verdict" where
  "decide v so ro =
     (if \<not> cv_accepting v then NotAccepting
      else case cv_methods v (unat so mod 65536) of
        None \<Rightarrow> NoService
      | Some m \<Rightarrow>
          if m \<le> unat ro mod 65536 then NoFunction
          else if so \<noteq> 0 \<and> \<not> cv_subscribed v (unat so mod 65536) then NotSubscribed
          else if so = 0 \<and> ro = 0 then (if cv_established v then AlreadyEstablished else Posted)
          else if cv_established v then Posted else NotEstablished)"

definition verdict_ec :: "verdict \<Rightarrow> error_code" where
  "verdict_ec v =
     (case v of
        NotAccepting \<Rightarrow> ec_assign RBL_BACKEND_NOT_ACCEPTING_REQUESTS rpc_backend_error
      | NoService \<Rightarrow> ec_assign RBL_BACKEND_INVOKE_NO_SERVICE_WITH_ORDINAL_ERROR rpc_backend_error
      | NoFunction \<Rightarrow> ec_assign RBL_BACKEND_INVOKE_NO_REQUEST_WITH_ORDINAL_ERROR rpc_backend_error
      | NotSubscribed \<Rightarrow> ec_assign RBL_BACKEND_INVOKE_CLIENT_NOT_SUBSCRIBED rpc_backend_error
      | AlreadyEstablished \<Rightarrow> ec_assign RBL_BACKEND_ALLREADY_ESTABLISHED rpc_backend_error
      | NotEstablished \<Rightarrow> ec_assign RBL_BACKEND_NOT_ESTABLISHED rpc_backend_error
      | Posted \<Rightarrow> ec_clear)"

definition verdict_response :: "verdict \<Rightarrow> ClientResponseErrorType" where
  "verdict_response v =
     (case v of
        NotAccepting \<Rightarrow> REQUEST_BACKEND_NOT_ACCEPTING_REQUESTS
      | NoService \<Rightarrow> REQUEST_NO_SERVICE_WITH_ORDINAL
      | NoFunction \<Rightarrow> REQUEST_NO_FUNCTION_WITH_ORDINAL
      | NotSubscribed \<Rightarrow> REQUEST_NOT_SUBSCRIBED
      | AlreadyEstablished \<Rightarrow> REQUEST_SUCCESS
      | NotEstablished \<Rightarrow> REQUEST_CLIENT_NOT_ESTABLISHED
      | Posted \<Rightarrow> REQUEST_SUCCESS)"

definition subscribed :: "'ck ClientServiceCookies \<Rightarrow> nat \<Rightarrow> cid \<Rightarrow> bool" where
  "subscribed v k x = (case cookies_abs v (k, x) of None \<Rightarrow> False | Some c \<Rightarrow> is_subscribed c)"

definition slot_methods :: "OidName \<times> ('ix, 'st, 'ck, 'm) Service option \<Rightarrow> nat" where
  "slot_methods e = (case snd e of None \<Rightarrow> 0 | Some s \<Rightarrow> method_count s)"

definition view_of :: "cid \<Rightarrow> ClientData \<Rightarrow> ('ix, 'st, 'ck, 'm) BackEnd \<Rightarrow> call_view" where
  "view_of x cd b =
     \<lparr>cv_accepting = is_accepting_requests (m_synchronised_state b),
      cv_methods = (\<lambda>i. map_option slot_methods (oid_abs (m_services b) i)),
      cv_subscribed = (\<lambda>i. subscribed (m_client_service_cookies b) i x),
      cv_established = cd_client_established cd\<rparr>"

definition verdict_of :: "cid \<Rightarrow> InvokerBase \<Rightarrow> ('ix, 'st, 'ck, 'm) BackEnd \<Rightarrow> verdict" where
  "verdict_of x i b =
     (let cd = inv_client_data i
      in decide (view_of x cd b) (service_ordinal (cd_request cd)) (request_ordinal (cd_request cd)))"

section \<open>The pieces of a call\<close>

lemma refuse_active:
  assumes "cd_rpc_active (inv_client_data i)"
  shows "refuse c e (i, b) =
    (Inr True, (i\<lparr>inv_client_data := (cd_set_response_error e (cd_assign_error c (inv_client_data i)))\<lparr>cd_rpc_active := False\<rparr>\<rparr>,
      upd_sync end_a_request b))"
  using assms by (simp add: refuse_def BackEnd_end_rpc_def end_rpc_def)

lemma table_ok_lookup:
  assumes "table_ok elems ordered n t" "unat k < n"
  obtains s where "at_ordinal t k = Some (Some s)" "service_wf elems ordered s"
    "map_option slot_methods (oid_abs t (unat k)) = Some (method_count s)" "is_basic s = (unat k = 0)"
proof -
  from assms obtain nm s where "oid_abs t (unat k) = Some (nm, Some s)" "service_wf elems ordered s"
    "is_basic s = (unat k = 0)"
    by (rule table_okD)
  then show ?thesis by (intro that [of s]) (simp_all add: at_ordinal_abs slot_methods_def)
qed

lemma table_ok_no_methods:
  assumes "table_ok elems ordered n t" "\<not> unat k < n"
  shows "at_ordinal t k = None" "map_option slot_methods (oid_abs t (unat k)) = None"
  using table_ok_at_ordinal [OF assms(1), of k] assms(2) by (simp_all add: at_ordinal_abs)

lemma service_wf_contains: "service_wf elems ordered s \<Longrightarrow> contains_function_at_ordinal s k \<longleftrightarrow> unat k < method_count s"
  unfolding service_wf_def by (blast dest: service_ok_contains)

text \<open>Obtaining the caller's cookie: it is the stored one, or a fresh one that is not subscribed.\<close>

lemma obtain_cookie:
  assumes "cookies_ok n v" "unat k < n"
  obtains c v' where "create_or_retrieve_cookie k x v = Inr (c, v')" "cookies_ok n v'"
    "is_subscribed c = subscribed v (unat k) x"
    "cookies_abs v' = (cookies_abs v)((unat k, x) \<mapsto> c)" "\<And>j y. subscribed v' j y = subscribed v j y"
    "\<And>j y c0. cookies_abs v (j, y) = Some c0 \<Longrightarrow> cookies_abs v' (j, y) = Some c0"
proof -
  let ?c = "case cookies_abs v (unat k, x) of None \<Rightarrow> ClientCookie_new | Some c \<Rightarrow> c"
  obtain v' where "create_or_retrieve_cookie k x v = Inr (?c, v')" "cookies_ok n v'"
    "cookies_abs v' = (cookies_abs v)((unat k, x) \<mapsto> ?c)"
    using ck.obt_spec [OF assms, of x] by blast
  then show ?thesis
    by (intro that [of ?c v'])
      (auto simp: subscribed_def is_subscribed_def ClientCookie_new_def split: option.splits)
qed

section \<open>Refinement\<close>

lemma upd_sync_simps [simp]:
  "m_services (upd_sync f b) = m_services b" "m_client_service_cookies (upd_sync f b) = m_client_service_cookies b"
  "m_is_sealed (upd_sync f b) = m_is_sealed b" "m_synchronised_state (upd_sync f b) = f (m_synchronised_state b)"
  "m_io_posted (upd_sync f b) = m_io_posted b" "m_connected_clients (upd_sync f b) = m_connected_clients b"
  "m_backend_type (upd_sync f b) = m_backend_type b" "m_source_type (upd_sync f b) = m_source_type b"
  "m_work (upd_sync f b) = m_work b" "m_ec (upd_sync f b) = m_ec b" "m_io_stopped (upd_sync f b) = m_io_stopped b"
  "m_thread_group (upd_sync f b) = m_thread_group b" "m_pool_size (upd_sync f b) = m_pool_size b"
  "m_service_count (upd_sync f b) = m_service_count b"
  by (simp_all add: upd_sync_def)

text \<open>
  What a call of \<open>invoke\<close> leaves behind, for each verdict. Only a client that says hello again finds a
  message in its response, which tells it that it is established already.
\<close>

definition after_call :: "protobuf \<Rightarrow> verdict \<Rightarrow> cid \<Rightarrow> nat \<Rightarrow> InvokerBase \<times> ('ix, 'st, 'ck, 'm) BackEnd
    \<Rightarrow> InvokerBase \<times> ('ix, 'st, 'ck, 'm) BackEnd \<Rightarrow> bool" where
  "after_call P v x n w w' \<longleftrightarrow>
     (let cd = inv_client_data (fst w); cd' = inv_client_data (fst w'); b = snd w; b' = snd w'
      in cd_ec cd' = verdict_ec v \<and> cs_error (cd_response cd') = Some (verdict_response v) \<and>
         cs_response_string (cd_response cd') =
           (if v = AlreadyEstablished then Some (field_or [] (ser_HelloResponse P \<lparr>hs_error_type = Some CLIENT_ALLREADY_ESTABLISHED\<rparr>))
            else cs_response_string (cd_response cd)) \<and>
         cd_request cd' = cd_request cd \<and> cd_name cd' = cd_name cd \<and> cd_flags cd' = cd_flags cd \<and> cd_client_established cd' = cd_client_established cd \<and>
         cd_rpc_active cd' = (v = Posted) \<and>
         cd_should_disconect cd' = (cd_should_disconect cd \<or> v = AlreadyEstablished) \<and>
         m_synchronised_state b' = (m_synchronised_state b)
           \<lparr>m_active_rpc_count := rpc_count (m_synchronised_state b) + (if v = Posted then 1 else 0)\<rparr> \<and>
         m_io_posted b' = m_io_posted b @ (if v = Posted then [x] else []) \<and>
         m_services b' = m_services b \<and> m_connected_clients b' = m_connected_clients b \<and>
         m_is_sealed b' = m_is_sealed b \<and> m_io_stopped b' = m_io_stopped b \<and> m_source_type b' = m_source_type b \<and> m_backend_type b' = m_backend_type b \<and>
         m_pool_size b' = m_pool_size b \<and> m_thread_group b' = m_thread_group b \<and> m_ec b' = m_ec b \<and>
         m_service_count b' = m_service_count b \<and> m_work b' = m_work b \<and>
         cookies_ok n (m_client_service_cookies b') \<and>
         (\<forall>j y. subscribed (m_client_service_cookies b') j y = subscribed (m_client_service_cookies b) j y) \<and>
         (\<forall>j y c. cookies_abs (m_client_service_cookies b) (j, y) = Some c \<longrightarrow>
            cookies_abs (m_client_service_cookies b') (j, y) = Some c) \<and>
         (\<forall>j y. (j, y) \<noteq> (unat (service_ordinal (cd_request cd)) mod 65536, x) \<longrightarrow>
            cookies_abs (m_client_service_cookies b') (j, y) = cookies_abs (m_client_service_cookies b) (j, y)) \<and>
         (v = Posted \<longrightarrow>
            inv_service (fst w') = Some (ucast (service_ordinal (cd_request cd))) \<and>
            inv_client_cookie (fst w') = Some (ucast (service_ordinal (cd_request cd))) \<and>
            cookies_abs (m_client_service_cookies b') (unat (service_ordinal (cd_request cd)) mod 65536, x) \<noteq> None))"

lemma after_callD:
  assumes "after_call P v x n (i, b) (i', b')"
  shows "cd_request (inv_client_data i') = cd_request (inv_client_data i)"
    "cd_client_established (inv_client_data i') = cd_client_established (inv_client_data i)"
    "cd_rpc_active (inv_client_data i') = (v = Posted)"
    "m_services b' = m_services b" "m_connected_clients b' = m_connected_clients b" "m_is_sealed b' = m_is_sealed b"
    "m_io_stopped b' = m_io_stopped b" "m_io_posted b' = (if v = Posted then m_io_posted b @ [x] else m_io_posted b)"
    "f_disc_invoker_sig (m_synchronised_state b') = f_disc_invoker_sig (m_synchronised_state b)"
    "rpc_count (m_synchronised_state b') = rpc_count (m_synchronised_state b) + (if v = Posted then 1 else 0)"
    "cookies_ok n (m_client_service_cookies b')"
    "\<And>j y c. cookies_abs (m_client_service_cookies b) (j, y) = Some c \<Longrightarrow> cookies_abs (m_client_service_cookies b') (j, y) = Some c"
    "v = Posted \<Longrightarrow> inv_service i' = Some (ucast (service_ordinal (cd_request (inv_client_data i))))"
    "v = Posted \<Longrightarrow> inv_client_cookie i' = Some (ucast (service_ordinal (cd_request (inv_client_data i))))"
    "v = Posted \<Longrightarrow> cookies_abs (m_client_service_cookies b') (unat (service_ordinal (cd_request (inv_client_data i))) mod 65536, x) \<noteq> None"
    "cd_ec (inv_client_data i') = verdict_ec v" "cs_error (cd_response (inv_client_data i')) = Some (verdict_response v)"
    "v \<noteq> AlreadyEstablished \<Longrightarrow> cs_response_string (cd_response (inv_client_data i')) = cs_response_string (cd_response (inv_client_data i))"
proof -
  note a = assms [unfolded after_call_def Let_def fst_conv snd_conv]
  show "m_io_posted b' = (if v = Posted then m_io_posted b @ [x] else m_io_posted b)"
    "f_disc_invoker_sig (m_synchronised_state b') = f_disc_invoker_sig (m_synchronised_state b)"
    "rpc_count (m_synchronised_state b') = rpc_count (m_synchronised_state b) + (if v = Posted then 1 else 0)"
    using a by (simp_all add: rpc_count_def)
  show "cs_response_string (cd_response (inv_client_data i')) = cs_response_string (cd_response (inv_client_data i))"
    if "v \<noteq> AlreadyEstablished"
    using a that by simp
qed (use assms [unfolded after_call_def Let_def fst_conv snd_conv] in blast)+

lemma invoke_after_call:
  assumes run: "run_ok elems ordered n b" and idle: "\<not> cd_rpc_active (inv_client_data i)"
  shows "\<exists>w'. invoke P x (i, b) = (Inr (verdict_of x i b \<noteq> Posted), w') \<and> after_call P (verdict_of x i b) x n (i, b) w'"
proof -
  let ?cd = "inv_client_data i" and ?r = "cd_request (inv_client_data i)"
  let ?k = "ucast (service_ordinal ?r) :: uint16"
  have t: "table_ok elems ordered n (m_services b)" and ck: "cookies_ok n (m_client_service_cookies b)"
    using run by (simp_all add: run_ok_def)
  have k: "unat ?k = unat (service_ordinal ?r) mod 65536" by (simp add: width_simps)
  let ?cd1 = "(cd_set_response_error REQUEST_SUCCESS ?cd)\<lparr>cd_ec := ec_clear, cd_rpc_active := True\<rparr>"
  show ?thesis
  proof (cases "is_accepting_requests (m_synchronised_state b)")
    case False
    then have "verdict_of x i b = NotAccepting" by (simp add: verdict_of_def decide_def view_of_def Let_def)
    with False ck idle show ?thesis
      by (simp add: invoke_def start_a_request_def is_accepting_requests_def after_call_def Let_def
          verdict_ec_def verdict_response_def rpc_count_def)
  next
    case acc: True
    show ?thesis
    proof (cases "unat ?k < n")
      case False
      note none = table_ok_no_methods [OF t False]
      have "verdict_of x i b = NoService"
        using acc none(2) by (simp add: verdict_of_def decide_def view_of_def Let_def k)
      with acc ck idle none(1) show ?thesis
        by (simp add: invoke_def sync_defs start_rpc_def refuse_active after_call_def Let_def
          verdict_ec_def verdict_response_def)
    next
      case True
      with t obtain s where s: "at_ordinal (m_services b) ?k = Some (Some s)" "service_wf elems ordered s"
        "map_option slot_methods (oid_abs (m_services b) (unat ?k)) = Some (method_count s)"
        by (rule table_ok_lookup)
      note fn = service_wf_contains [OF s(2), of "ucast (request_ordinal ?r)"]
      obtain c v' where c: "create_or_retrieve_cookie ?k x (m_client_service_cookies b) = Inr (c, v')"
        "cookies_ok n v'" "is_subscribed c = subscribed (m_client_service_cookies b) (unat ?k) x"
        "cookies_abs v' = (cookies_abs (m_client_service_cookies b))((unat ?k, x) \<mapsto> c)"
        "\<And>j y. subscribed v' j y = subscribed (m_client_service_cookies b) j y"
        "\<And>j y c0. cookies_abs (m_client_service_cookies b) (j, y) = Some c0 \<Longrightarrow> cookies_abs v' (j, y) = Some c0"
        by (rule obtain_cookie [OF ck True]) blast
      have v: "verdict_of x i b =
          (if \<not> contains_function_at_ordinal s (ucast (request_ordinal ?r)) then NoFunction
           else if service_ordinal ?r \<noteq> 0 \<and> \<not> is_subscribed c then NotSubscribed
           else if service_ordinal ?r = 0 \<and> request_ordinal ?r = 0
             then if cd_client_established ?cd then AlreadyEstablished else Posted
           else if cd_client_established ?cd then Posted else NotEstablished)"
      proof -
        have "cv_methods (view_of x ?cd b) (unat (service_ordinal ?r) mod 65536) = Some (method_count s)"
          using s(3) unfolding k view_of_def by simp
        moreover have "cv_subscribed (view_of x ?cd b) (unat (service_ordinal ?r) mod 65536) = is_subscribed c"
          "cv_accepting (view_of x ?cd b)" "cv_established (view_of x ?cd b) = cd_client_established ?cd"
          using acc c(3) unfolding k view_of_def by simp_all
        ultimately show ?thesis
          unfolding verdict_of_def decide_def Let_def fn unat_ucast_32_16 by simp
      qed
      have here: "cookies_abs v' (q, x) = Some c" if "q = unat (service_ordinal ?r) mod 65536" for q
        using c(4) k that by simp
      have elsewhere: "cookies_abs v' (j, y) = cookies_abs (m_client_service_cookies b) (j, y)"
        if "j = unat (service_ordinal ?r) mod 65536 \<longrightarrow> y \<noteq> x" for j y
        using c(4) k that by auto
      show ?thesis
        using acc ck idle s(1) c(1,2,5,6) k
        by (simp add: here elsewhere HelloResponse_new_def invoke_def sync_defs start_rpc_def v refuse_active BackEnd_end_rpc_def end_rpc_def
            after_call_def Let_def verdict_ec_def verdict_response_def)
    qed
  qed
qed

end
