(* ===== verification/Dispatch.thy ===== *)
theory Dispatch
  imports Invocation
begin

text \<open>
  Running a posted call: the dispatch of the generated classes, the methods of the basic
  protocol and the end of the call. No branch trips an assertion or runs into undefined
  behaviour, the invariant of the running backend is kept, and a call of one client leaves
  the cookies of the others alone.
\<close>

section \<open>Listings\<close>

definition display_name :: "('ix, 'e) OidContainer \<Rightarrow> nat \<Rightarrow> string" where
  "display_name t i = takeWhile (\<lambda>c. c \<noteq> NUL) (str_of (slot_name t i))"

context boost_library
begin

lemma dense_slot:
  assumes "dense (oid_inv elems ordered) oid_abs OidContainer_size n t" "i < n" "n \<le> 65536"
  shows "EntryAtordinal t (of_nat i) = Some i" "name_string (entry_name (entries t ! i)) = Inr (display_name t i)"
    "ucast (entry_ordinal (entries t ! i)) = (of_nat i :: uint32)"
proof -
  have inv: "oid_inv elems ordered t" and dom: "i \<in> dom (oid_abs t)"
    using assms unfolding dense_def by simp_all
  from dom obtain nm e where e: "oid_abs t i = Some (nm, e)" unfolding dom_def by auto
  have u: "unat (of_nat i :: uint32) = i" using assms by (simp add: unat_of_nat_uint32)
  show "EntryAtordinal t (of_nat i) = Some i" using u dom by (simp add: EntryAtordinal_abs)
  note occ = occupied_entry [OF inv e]
  then have "good_name (entry_name (entries t ! i))" by simp
  then show "name_string (entry_name (entries t ! i)) = Inr (display_name t i)"
    by (simp add: name_string_good display_name_def slot_name_def)
  show "ucast (entry_ordinal (entries t ! i)) = (of_nat i :: uint32)"
    using occ(3) u by (simp add: word_unat_eq_iff)
qed

lemma service_entries_ok:
  assumes "dense (oid_inv elems ordered) oid_abs OidContainer_size n t" "n \<le> 65536" "set is \<subseteq> {..<n}"
  shows "service_entries t is acc =
    Inr (acc @ map (\<lambda>i. \<lparr>se_service_ordinal = of_nat i, se_service_name = display_name t i\<rparr>) is)"
  using assms(3) by (induction "is" arbitrary: acc) (simp_all add: dense_slot [OF assms(1) _ assms(2)])

lemma method_entries_ok:
  assumes "dense (oid_inv elems ordered) oid_abs OidContainer_size n t" "n \<le> 65536" "set is \<subseteq> {..<n}"
  shows "method_entries t is acc =
    Inr (acc @ map (\<lambda>i. \<lparr>me_service_ordinal = of_nat i, me_service_name = display_name t i\<rparr>) is)"
  using assms(3) by (induction "is" arbitrary: acc) (simp_all add: dense_slot [OF assms(1) _ assms(2)])

lemma produce_method_list_ok:
  assumes "service_wf elems ordered s"
  shows "produce_method_list s lmr = Inr (lmr\<lparr>lm_methods := lm_methods lmr @
    map (\<lambda>i. \<lparr>me_service_ordinal = of_nat i, me_service_name = display_name (svc_dispatch_table s) i\<rparr>)
      [0..<method_count s]\<rparr>)"
proof -
  have d: "dense (oid_inv elems ordered) oid_abs OidContainer_size (method_count s) (svc_dispatch_table s)"
    "method_count s \<le> 65536"
    using assms by (auto simp: service_wf_def service_ok_def)
  show ?thesis
    using method_entries_ok [OF d, of "[0..<method_count s]" "lm_methods lmr"]
    by (simp add: produce_method_list_def ff_produce_method_list_def atLeast0LessThan flip: method_count_def)
qed

end

section \<open>What a dispatched call keeps\<close>

definition same_control :: "('ix, 'st, 'ck, 'm) BackEnd \<Rightarrow> ('ix, 'st, 'ck, 'm) BackEnd \<Rightarrow> bool" where
  "same_control b b' \<longleftrightarrow>
     b' = b\<lparr>m_services := m_services b', m_client_service_cookies := m_client_service_cookies b'\<rparr>"

text \<open>
  What of a service never changes once it is registered: its name, its dispatch table, whether
  it is the basic protocol and otherwise the code of its implementation, which is the implementation
  as a function of its state. The shape of a table is that of its services.
\<close>

type_synonym ('st, 'ck, 'm) code = "'st \<Rightarrow> ('st, 'ck, 'm) UserImpl"

definition impl_code :: "('ix, 'st, 'ck, 'm) Service \<Rightarrow> ('st, 'ck, 'm) code option" where
  "impl_code s = (case svc_impl s of BasicProtocolImpl \<Rightarrow> None | Linked u \<Rightarrow> Some (\<lambda>st. u\<lparr>u_state := st\<rparr>))"

definition service_shape :: "('ix, 'st, 'ck, 'm) Service
    \<Rightarrow> string \<times> ('ix, nat option) OidContainer \<times> ('st, 'ck, 'm) code option" where
  "service_shape s = (svc_name s, svc_dispatch_table s, impl_code s)"

lemma is_basic_impl_code: "is_basic s \<longleftrightarrow> impl_code s = None"
  by (simp add: is_basic_def impl_code_def split: Impl.split)

definition table_shape :: "('ix, 'st, 'ck, 'm) t_services
    \<Rightarrow> nat \<rightharpoonup> OidName \<times> (string \<times> ('ix, nat option) OidContainer \<times> ('st, 'ck, 'm) code option) option" where
  "table_shape t = (\<lambda>i. map_option (apsnd (map_option service_shape)) (oid_abs t i))"

lemma service_shape_kept [simp]:
  "service_shape (fst (service_subscribe s cc cd q r)) = service_shape s"
  "service_shape (fst (service_unsubscribe s cc cd)) = service_shape s"
  by (simp_all add: service_shape_def service_subscribe_def service_unsubscribe_def impl_code_def
      split: Impl.split prod.split)

definition keeps :: "('ix \<Rightarrow> nat set) \<Rightarrow> ((nat \<Rightarrow> OidName) \<Rightarrow> 'ix \<Rightarrow> bool) \<Rightarrow> nat \<Rightarrow> cid
    \<Rightarrow> ClientData \<times> ('ix, 'st, 'ck, 'm) BackEnd \<Rightarrow> ClientData \<times> ('ix, 'st, 'ck, 'm) BackEnd \<Rightarrow> bool" where
  "keeps elems ordered n x w w' \<longleftrightarrow>
     run_ok elems ordered n (snd w') \<and> same_control (snd w) (snd w') \<and>
     table_shape (m_services (snd w')) = table_shape (m_services (snd w)) \<and>
     cd_rpc_active (fst w') = cd_rpc_active (fst w) \<and>
     (\<forall>j y. y \<noteq> x \<longrightarrow> cookies_abs (m_client_service_cookies (snd w')) (j, y) =
                      cookies_abs (m_client_service_cookies (snd w)) (j, y))"

lemma keeps_refl: "run_ok elems ordered n b \<Longrightarrow> cd_rpc_active cd' = cd_rpc_active cd \<Longrightarrow> keeps elems ordered n x (cd, b) (cd', b)"
  by (simp add: keeps_def same_control_def)

lemma generated_dispatch_keeps:
  assumes "run_ok elems ordered n b"
    and "\<And>m. \<exists>out cd' b'. call m cd b = (Inr (out, cd'), b') \<and> keeps elems ordered n x (cd, b) (cd', b')"
  shows "\<exists>cd' b'. generated_dispatch_function parse call ser cd b = (Inr cd', b') \<and> keeps elems ordered n x (cd, b) (cd', b')"
proof (cases "parse (request_string (cd_request cd))")
  case None
  with assms(1) show ?thesis by (simp add: generated_dispatch_function_def keeps_refl)
next
  case (Some m)
  obtain out cd' b' where call: "call m cd b = (Inr (out, cd'), b')" "keeps elems ordered n x (cd, b) (cd', b')"
    using assms(2) by blast
  then show ?thesis
    using Some by (cases "ser out") (simp_all add: generated_dispatch_function_def keeps_def)
qed

section \<open>The methods of the basic protocol\<close>

lemma unat_ucast_small: "unat (w :: uint32) < n \<Longrightarrow> n \<le> 65536 \<Longrightarrow> unat (ucast w :: uint16) = unat w"
  by (simp add: unat_ucast_32_16)

text \<open>\<open>hello\<close>: the three outcomes, and the assertion it trips on an established client.\<close>

lemma bp_hello_cases:
  "bp_hello hr cd b =
     (if m_backend_type b \<noteq> hq_expected_target hr
      then (Inr (HelloResponse_new\<lparr>hs_error_type := Some DESTINATION_EXPECTATION_MISMATCH\<rparr>,
              request_disconect (cd_assign_error RBL_BACKEND_CLIENT_TARGET_TYPE_MISMATCH cd)), b)
      else if m_source_type b \<noteq> hq_source_type hr
      then (Inr (HelloResponse_new\<lparr>hs_error_type := Some SOURCE_EXPECTATION_MISMATCH\<rparr>,
              request_disconect (cd_assign_error RBL_BACKEND_CLIENT_SOURCE_TYPE_MISMATCH cd)), b)
      else if cd_client_established cd then (Inl AssertionFailed, b)
      else (Inr (HelloResponse_new\<lparr>hs_error_type := Some NO_HELLO_ERRORS\<rparr>,
              cd\<lparr>cd_name := hq_node_name hr, cd_client_established := True\<rparr>), b))"
  by (simp add: bp_hello_def establish_client_def Let_def)

context boost_library
begin

lemma bp_hello_keeps:
  assumes "run_ok elems ordered n b" "\<not> cd_client_established cd"
  shows "\<exists>out cd' b'. bp_hello hr cd b = (Inr (out, cd'), b') \<and> keeps elems ordered n x (cd, b) (cd', b')"
  using assms by (simp add: bp_hello_cases keeps_refl)

lemma bp_list_services_ok:
  assumes "run_ok elems ordered n b"
  shows "bp_list_services u cd b =
    (Inr (\<lparr>ls_services = map (\<lambda>i. \<lparr>se_service_ordinal = of_nat i, se_service_name = display_name (m_services b) i\<rparr>) [0..<n]\<rparr>, cd), b)"
proof -
  have t: "dense (oid_inv elems ordered) oid_abs OidContainer_size n (m_services b)" "n \<le> 65536"
    using assms by (simp_all add: run_ok_def table_ok_def)
  moreover have "OidContainer_size (m_services b) = n" using t by (simp add: dense_def)
  ultimately show ?thesis
    using service_entries_ok [OF t, of "[0..<n]" "[]"]
    by (simp add: bp_list_services_def ListServicesResponse_new_def atLeast0LessThan)
qed

lemma run_ok_service:
  assumes "run_ok elems ordered n b" "unat k < n"
  obtains s where "service_at k b = Inr s" "at_ordinal (m_services b) k = Some (Some s)" "service_wf elems ordered s"
    "map_option snd (oid_abs (m_services b) (unat k)) = Some (Some s)" "is_basic s = (unat k = 0)"
proof -
  have "table_ok elems ordered n (m_services b)" using assms by (simp add: run_ok_def)
  then obtain nm s where "oid_abs (m_services b) (unat k) = Some (nm, Some s)" "service_wf elems ordered s"
    "is_basic s = (unat k = 0)"
    using assms(2) by (rule table_okD)
  then show ?thesis by (intro that [of s]) (simp_all add: service_at_def at_ordinal_abs)
qed

lemma bp_list_methods_ok:
  assumes "run_ok elems ordered n b" "unat (lq_service_ordinal req) < n"
  obtains s where "map_option snd (oid_abs (m_services b) (unat (lq_service_ordinal req))) = Some (Some s)"
    "bp_list_methods req cd b =
       (Inr (\<lparr>lm_error = Some NO_LIST_METHOD_ERROR,
              lm_methods = map (\<lambda>i. \<lparr>me_service_ordinal = of_nat i,
                me_service_name = display_name (svc_dispatch_table s) i\<rparr>) [0..<method_count s]\<rparr>, cd), b)"
proof -
  have size: "OidContainer_size (m_services b) = n" "n \<le> 65536"
    using assms(1) by (simp_all add: run_ok_def table_ok_def dense_def)
  let ?k = "ucast (lq_service_ordinal req) :: uint16"
  have k: "unat ?k = unat (lq_service_ordinal req)" using assms(2) size(2) by (rule unat_ucast_small)
  with assms(2) have "unat ?k < n" by simp
  with assms(1) obtain s where "service_at ?k b = Inr s" "service_wf elems ordered s"
    "map_option snd (oid_abs (m_services b) (unat ?k)) = Some (Some s)"
    by (rule run_ok_service)
  then show ?thesis
    using assms(2) size(1) k
    by (intro that [of s]) (simp_all add: bp_list_methods_def produce_method_list_ok ListMethodsResponse_new_def Let_def)
qed

lemma bp_list_methods_keeps:
  assumes "run_ok elems ordered n b"
  shows "\<exists>out cd' b'. bp_list_methods req cd b = (Inr (out, cd'), b') \<and> keeps elems ordered n x (cd, b) (cd', b')"
proof (cases "unat (lq_service_ordinal req) < n")
  case True
  with assms show ?thesis by (rule bp_list_methods_ok) (auto intro: keeps_refl [OF assms])
next
  case False
  have "OidContainer_size (m_services b) = n" using assms by (simp add: run_ok_def table_ok_def dense_def)
  with False show ?thesis by (simp add: bp_list_methods_def Let_def keeps_refl [OF assms])
qed

end

section \<open>Subscribing and unsubscribing\<close>

lemma same_control_refl [simp]: "same_control b b"
  by (simp add: same_control_def)

lemma same_control_trans: "same_control a b \<Longrightarrow> same_control b c \<Longrightarrow> same_control a c"
  unfolding same_control_def by (cases a; cases b; cases c) simp

lemma same_controlD:
  assumes "same_control b b'"
  shows "m_synchronised_state b' = m_synchronised_state b" "m_io_posted b' = m_io_posted b"
    "m_connected_clients b' = m_connected_clients b" "m_is_sealed b' = m_is_sealed b"
    "m_io_stopped b' = m_io_stopped b" "m_source_type b' = m_source_type b" "m_backend_type b' = m_backend_type b"
proof -
  note eq = assms [unfolded same_control_def]
  show "m_synchronised_state b' = m_synchronised_state b" using arg_cong [OF eq, of m_synchronised_state] by simp
  show "m_io_posted b' = m_io_posted b" using arg_cong [OF eq, of m_io_posted] by simp
  show "m_connected_clients b' = m_connected_clients b" using arg_cong [OF eq, of m_connected_clients] by simp
  show "m_is_sealed b' = m_is_sealed b" using arg_cong [OF eq, of m_is_sealed] by simp
  show "m_io_stopped b' = m_io_stopped b" using arg_cong [OF eq, of m_io_stopped] by simp
  show "m_source_type b' = m_source_type b" using arg_cong [OF eq, of m_source_type] by simp
  show "m_backend_type b' = m_backend_type b" using arg_cong [OF eq, of m_backend_type] by simp
qed

lemma same_control_cookies [simp]: "same_control b (b'\<lparr>m_client_service_cookies := v\<rparr>) \<longleftrightarrow> same_control b b'"
  by (cases b; cases b') (auto simp: same_control_def)

lemma same_control_services [simp]: "same_control b (b'\<lparr>m_services := t\<rparr>) \<longleftrightarrow> same_control b b'"
  by (cases b; cases b') (auto simp: same_control_def)

lemma same_control_store [simp]: "same_control b (store_service k s b') \<longleftrightarrow> same_control b b'"
  by (simp add: store_service_def)

lemma store_service_cookies [simp]: "m_client_service_cookies (store_service k s b) = m_client_service_cookies b"
  by (simp add: store_service_def)

lemma run_ok_cookies: "run_ok elems ordered n b \<Longrightarrow> cookies_ok n v \<Longrightarrow> run_ok elems ordered n (b\<lparr>m_client_service_cookies := v\<rparr>)"
  by (simp add: run_ok_def)

lemma run_okD:
  assumes "run_ok elems ordered n b"
  shows "cookies_ok n (m_client_service_cookies b)" "OidContainer_size (m_services b) = n" "n \<le> 65536"
    "table_ok elems ordered n (m_services b)"
  using assms by (simp_all add: run_ok_def table_ok_def dense_def)

text \<open>The cookie a client has for a service, or the one it would be given.\<close>

definition cookie_of :: "'ck ClientServiceCookies \<Rightarrow> nat \<Rightarrow> cid \<Rightarrow> 'ck ClientCookie" where
  "cookie_of v k x = (case cookies_abs v (k, x) of None \<Rightarrow> ClientCookie_new | Some c \<Rightarrow> c)"

lemma subscribed_cookie_of: "subscribed v k x = is_subscribed (cookie_of v k x)"
  by (simp add: subscribed_def cookie_of_def is_subscribed_def ClientCookie_new_def split: option.split)

lemma subscribed_upd:
  "cookies_abs v' = (cookies_abs v)((k, x) := z) \<Longrightarrow>
     subscribed v' j y = (if (j, y) = (k, x) then (case z of None \<Rightarrow> False | Some c \<Rightarrow> is_subscribed c) else subscribed v j y)"
  by (auto simp: subscribed_def)

lemma service_subscribe_keeps:
  assumes "service_wf elems ordered s" "service_subscribe s cc cd q r = (s', cc', cd', r')"
  shows "cd_rpc_active cd' = cd_rpc_active cd" "m_subscribed cc' = m_subscribed cc" "service_wf elems ordered s'"
    "is_basic s' = is_basic s" "service_shape s' = service_shape s"
proof -
  show "is_basic s' = is_basic s" using is_basic_kept(2) [of s cc cd q r] assms(2) by simp
  show "service_shape s' = service_shape s" using service_shape_kept(1) [of s cc cd q r] assms(2) by simp
  show "service_wf elems ordered s'" using service_wf_subscribe [OF assms(1), of cc cd q r] assms(2) by simp
  show "cd_rpc_active cd' = cd_rpc_active cd" "m_subscribed cc' = m_subscribed cc"
    using assms by (auto simp: service_wf_def service_subscribe_def dest: impl_behavesD(2) split: Impl.splits prod.splits)
qed

lemma service_unsubscribe_keeps:
  assumes "service_wf elems ordered s" "service_unsubscribe s cc cd = (s', cc', cd')"
  shows "cd_rpc_active cd' = cd_rpc_active cd" "service_wf elems ordered s'" "is_basic s' = is_basic s"
    "service_shape s' = service_shape s"
proof -
  show "is_basic s' = is_basic s" using is_basic_kept(3) [of s cc cd] assms(2) by simp
  show "service_shape s' = service_shape s" using service_shape_kept(2) [of s cc cd] assms(2) by simp
  show "service_wf elems ordered s'" using service_wf_unsubscribe [OF assms(1), of cc cd] assms(2) by simp
  show "cd_rpc_active cd' = cd_rpc_active cd"
    using assms by (auto simp: service_wf_def service_unsubscribe_def dest: impl_behavesD(3) split: Impl.splits prod.splits)
qed

context boost_library
begin

lemma run_ok_store:
  assumes "run_ok elems ordered n b" "unat k < n" "service_wf elems ordered s" "is_basic s = (unat k = 0)"
  shows "run_ok elems ordered n (store_service k s b)"
  using assms table_ok_store [of n "m_services b" "unat k" s] by (simp add: run_ok_def store_service_def)

lemma table_shape_store:
  assumes "run_ok elems ordered n b" "map_option snd (oid_abs (m_services b) (unat k)) = Some (Some s)"
    "service_shape s' = service_shape s"
  shows "table_shape (m_services (store_service k s' b)) = table_shape (m_services b)"
proof -
  have inv: "oid_inv elems ordered (m_services b)" using assms(1) by (simp add: run_ok_def table_ok_def dense_def)
  obtain nm where nm: "oid_abs (m_services b) (unat k) = Some (nm, Some s)" using assms(2) by auto
  show ?thesis using store_entry_ok(2) [OF inv nm, of "Some s'"] nm assms(3)
    by (simp add: table_shape_def store_service_def fun_eq_iff)
qed

lemma bp_subscribe_new:
  fixes req
  defines "k \<equiv> (ucast (sq_service_ordinal req) :: uint16)"
  assumes run: "run_ok elems ordered n b" and ord: "unat (sq_service_ordinal req) < n"
    and new: "\<not> subscribed (m_client_service_cookies b) (unat (sq_service_ordinal req)) x"
  obtains s s' cc cd' r v where "map_option snd (oid_abs (m_services b) (unat k)) = Some (Some s)"
    "service_subscribe s (cookie_of (m_client_service_cookies b) (unat k) x) cd (sq_subscribe_request_string req) [] = (s', cc, cd', r)"
    "bp_rpc_subscribe_service x req cd b =
       (Inr (\<lparr>ss_error = (if ec_fails (cd_ec cd') then None else Some NO_SUBSCRIBE_SERVICE_ERROR),
              ss_subscribe_result_string = Some r\<rparr>, cd'),
        (store_service k s' b)\<lparr>m_client_service_cookies := v\<rparr>)"
    "cookies_ok n v"
    "cookies_abs v = (cookies_abs (m_client_service_cookies b))((unat k, x) \<mapsto> (if ec_fails (cd_ec cd') then cc else cookie_subscribe cc))"
    "service_wf elems ordered s'" "cd_rpc_active cd' = cd_rpc_active cd" "\<not> m_subscribed cc"
    "is_basic s' = (unat k = 0)" "service_shape s' = service_shape s"
proof -
  note r = run_okD [OF run]
  have k: "unat k = unat (sq_service_ordinal req)" "unat k < n"
    using ord r(3) unfolding k_def by (simp_all add: unat_ucast_small)
  obtain s where s: "service_at k b = Inr s" "at_ordinal (m_services b) k = Some (Some s)" "service_wf elems ordered s"
    "map_option snd (oid_abs (m_services b) (unat k)) = Some (Some s)" "is_basic s = (unat k = 0)"
    using run k(2) by (rule run_ok_service)
  let ?c = "cookie_of (m_client_service_cookies b) (unat k) x"
  obtain v1 where v1: "create_or_retrieve_cookie k x (m_client_service_cookies b) = Inr (?c, v1)" "cookies_ok n v1"
    "cookies_abs v1 = (cookies_abs (m_client_service_cookies b))((unat k, x) \<mapsto> ?c)"
    using ck.obt_spec [OF r(1) k(2), of x] unfolding cookie_of_def by blast
  obtain s' cc cd' rs where sub: "service_subscribe s ?c cd (sq_subscribe_request_string req) [] = (s', cc, cd', rs)"
    by (metis prod_cases4)
  note kp = service_subscribe_keeps [OF s(3) sub]
  have nsub: "\<not> is_subscribed ?c" using new k(1) by (simp add: subscribed_cookie_of)
  let ?cc = "if ec_fails (cd_ec cd') then cc else cookie_subscribe cc"
  have "cookies_abs v1 (unat k, x) = Some ?c" using v1(3) by simp
  from ck.wr_spec [OF v1(2) k(2) this, of ?cc] obtain v where v: "cookie_write k x ?cc v1 = Inr v" "cookies_ok n v"
    "cookies_abs v = (cookies_abs (m_client_service_cookies b))((unat k, x) \<mapsto> ?cc)"
    using v1(3) by auto
  have res: "bp_rpc_subscribe_service x req cd b =
       (Inr (\<lparr>ss_error = (if ec_fails (cd_ec cd') then None else Some NO_SUBSCRIBE_SERVICE_ERROR),
              ss_subscribe_result_string = Some rs\<rparr>, cd'),
        (store_service k s' b)\<lparr>m_client_service_cookies := v\<rparr>)"
    using ord r(2) v1(1) nsub s(2) sub v(1)
    by (cases "ec_fails (cd_ec cd')") (simp_all add: bp_rpc_subscribe_service_def Let_def SubscribeServiceResponse_new_def store_service_def flip: k_def)
  show ?thesis
    by (rule that [OF s(4) sub res v(2,3) kp(3,1)]) (use kp(2,4,5) s(5) nsub in \<open>simp_all add: is_subscribed_def\<close>)
qed

end

context boost_library
begin

lemma bp_unsubscribe_subscribed:
  fixes req
  defines "k \<equiv> (ucast (uq_service_ordinal req) :: uint16)"
  assumes run: "run_ok elems ordered n b" and ord: "unat (uq_service_ordinal req) < n"
    and sub: "subscribed (m_client_service_cookies b) (unat (uq_service_ordinal req)) x"
  obtains s s' cc cd' v where "map_option snd (oid_abs (m_services b) (unat k)) = Some (Some s)"
    "service_unsubscribe s (cookie_of (m_client_service_cookies b) (unat k) x) cd = (s', cc, cd')"
    "bp_rpc_unsubscribe_service x req cd b =
       (Inr (\<lparr>us_error = Some NO_SUBSCRIBE_SERVICE_ERROR\<rparr>, cd'), (store_service k s' b)\<lparr>m_client_service_cookies := v\<rparr>)"
    "cookies_ok n v" "cookies_abs v = (cookies_abs (m_client_service_cookies b))((unat k, x) := None)"
    "service_wf elems ordered s'" "cd_rpc_active cd' = cd_rpc_active cd" "is_basic s' = (unat k = 0)"
    "service_shape s' = service_shape s"
proof -
  note r = run_okD [OF run]
  have k: "unat k = unat (uq_service_ordinal req)" "unat k < n"
    using ord r(3) unfolding k_def by (simp_all add: unat_ucast_small)
  obtain s where s: "service_at k b = Inr s" "service_wf elems ordered s"
    "map_option snd (oid_abs (m_services b) (unat k)) = Some (Some s)" "is_basic s = (unat k = 0)"
    using run k(2) by (rule run_ok_service)
  let ?c = "cookie_of (m_client_service_cookies b) (unat k) x"
  obtain v1 where v1: "create_or_retrieve_cookie k x (m_client_service_cookies b) = Inr (?c, v1)" "cookies_ok n v1"
    "cookies_abs v1 = (cookies_abs (m_client_service_cookies b))((unat k, x) \<mapsto> ?c)"
    using ck.obt_spec [OF r(1) k(2), of x] unfolding cookie_of_def by blast
  obtain s' cc cd' where un: "service_unsubscribe s ?c cd = (s', cc, cd')" by (metis prod_cases3)
  note kp = service_unsubscribe_keeps [OF s(2) un]
  have issub: "is_subscribed ?c" using sub k(1) by (simp add: subscribed_cookie_of)
  have "cookies_abs v1 (unat k, x) = Some ?c" using v1(3) by simp
  from ck.wr_spec [OF v1(2) k(2) this, of "destroy_cookie cc"] obtain v2 where v2:
    "cookie_write k x (destroy_cookie cc) v1 = Inr v2" "cookies_ok n v2"
    "cookies_abs v2 = (cookies_abs (m_client_service_cookies b))((unat k, x) \<mapsto> destroy_cookie cc)"
    using v1(3) by auto
  from ck.del_spec [OF v2(2) k(2), of x] obtain o1 v where v: "delete_cookie k x v2 = Inr (o1, v)" "cookies_ok n v"
    "cookies_abs v = (cookies_abs (m_client_service_cookies b))((unat k, x) := None)"
    using v2(3) by auto
  have "service_at k (b\<lparr>m_client_service_cookies := v1\<rparr>) = Inr s" using s(1) by (simp add: service_at_def)
  then have res: "bp_rpc_unsubscribe_service x req cd b =
       (Inr (\<lparr>us_error = Some NO_SUBSCRIBE_SERVICE_ERROR\<rparr>, cd'), (store_service k s' b)\<lparr>m_client_service_cookies := v\<rparr>)"
    using ord r(2) v1(1) issub un v2(1) v(1)
    by (simp add: bp_rpc_unsubscribe_service_def Let_def UnsubscribeServiceResponse_new_def store_service_def flip: k_def)
  show ?thesis by (rule that [OF s(3) un res v(2,3) kp(2,1)]) (use kp(3,4) s(4) in simp_all)
qed

text \<open>The refusals; all they change is that a cookie may be created.\<close>

lemma bp_subscribe_again:
  assumes run: "run_ok elems ordered n b" and ord: "unat (sq_service_ordinal req) < n"
    and sub: "subscribed (m_client_service_cookies b) (unat (sq_service_ordinal req)) x"
  obtains v where "bp_rpc_subscribe_service x req cd b =
      (Inr (\<lparr>ss_error = Some SERVICE_ALLREADY_SUBSCRIBED, ss_subscribe_result_string = None\<rparr>,
         cd_assign_error RBL_BACKEND_ALLREADY_SUBSCRIBED cd), b\<lparr>m_client_service_cookies := v\<rparr>)"
    "cookies_ok n v" "cookies_abs v = cookies_abs (m_client_service_cookies b)"
proof -
  note r = run_okD [OF run]
  let ?k = "ucast (sq_service_ordinal req) :: uint16"
  have k: "unat ?k = unat (sq_service_ordinal req)" using ord r(3) by (simp add: unat_ucast_small)
  then have kn: "unat ?k < n" using ord by simp
  obtain c v where v: "create_or_retrieve_cookie ?k x (m_client_service_cookies b) = Inr (c, v)" "cookies_ok n v"
    "is_subscribed c = subscribed (m_client_service_cookies b) (unat ?k) x"
    "cookies_abs v = (cookies_abs (m_client_service_cookies b))((unat ?k, x) \<mapsto> c)"
    by (rule obtain_cookie [OF r(1) kn]) blast
  have "cookies_abs (m_client_service_cookies b) (unat ?k, x) \<noteq> None"
    using sub k by (auto simp: subscribed_def split: option.splits)
  with ck.obt_spec [OF r(1) kn, of x] v(1,4) have "cookies_abs v = cookies_abs (m_client_service_cookies b)"
    by (auto simp: fun_upd_idem)
  then show ?thesis
    using ord r(2) v(1,2,3) sub k
    by (intro that [of v]) (simp_all add: bp_rpc_subscribe_service_def Let_def SubscribeServiceResponse_new_def)
qed

lemma bp_unsubscribe_not:
  assumes run: "run_ok elems ordered n b" and ord: "unat (uq_service_ordinal req) < n"
    and sub: "\<not> subscribed (m_client_service_cookies b) (unat (uq_service_ordinal req)) x"
  obtains v where "bp_rpc_unsubscribe_service x req cd b =
      (Inr (\<lparr>us_error = Some NO_SUBSCRIPTION_FOR_SERVICE\<rparr>, cd_assign_error RBL_BACKEND_NOT_SUBSCRIBED cd),
       b\<lparr>m_client_service_cookies := v\<rparr>)"
    "cookies_ok n v" "\<And>j y. y \<noteq> x \<Longrightarrow> cookies_abs v (j, y) = cookies_abs (m_client_service_cookies b) (j, y)"
    "\<And>j y. subscribed v j y = subscribed (m_client_service_cookies b) j y"
proof -
  note r = run_okD [OF run]
  let ?k = "ucast (uq_service_ordinal req) :: uint16"
  have k: "unat ?k = unat (uq_service_ordinal req)" using ord r(3) by (simp add: unat_ucast_small)
  then have kn: "unat ?k < n" using ord by simp
  obtain c v where "create_or_retrieve_cookie ?k x (m_client_service_cookies b) = Inr (c, v)" "cookies_ok n v"
    "is_subscribed c = subscribed (m_client_service_cookies b) (unat ?k) x"
    "cookies_abs v = (cookies_abs (m_client_service_cookies b))((unat ?k, x) \<mapsto> c)"
    "\<And>j y. subscribed v j y = subscribed (m_client_service_cookies b) j y"
    by (rule obtain_cookie [OF r(1) kn]) blast
  then show ?thesis
    using ord r(2) sub k
    by (intro that [of v]) (simp_all add: bp_rpc_unsubscribe_service_def Let_def UnsubscribeServiceResponse_new_def)
qed

lemma bp_no_service:
  assumes "run_ok elems ordered n b"
  shows "n \<le> unat (sq_service_ordinal sreq) \<Longrightarrow> bp_rpc_subscribe_service x sreq cd b =
      (Inr (\<lparr>ss_error = Some SERVICE_ORDINAL_NOT_IN_USE, ss_subscribe_result_string = None\<rparr>,
         cd_assign_error RBL_BACKEND_SUBSCRIBE_NO_SERVICE_WITH_ORDINAL cd), b)"
    "n \<le> unat (uq_service_ordinal ureq) \<Longrightarrow> bp_rpc_unsubscribe_service x ureq cd b =
      (Inr (\<lparr>us_error = Some SERVICE_ORDINAL_NOT_IN_USE\<rparr>,
         cd_assign_error RBL_BACKEND_SUBSCRIBE_NO_SERVICE_WITH_ORDINAL cd), b)"
  using run_okD(2) [OF assms]
  by (simp_all add: bp_rpc_subscribe_service_def bp_rpc_unsubscribe_service_def Let_def
      SubscribeServiceResponse_new_def UnsubscribeServiceResponse_new_def)

end

section \<open>Dispatch never fails\<close>

context boost_library
begin

lemma keeps_store:
  assumes "run_ok elems ordered n b" "unat k < n" "service_wf elems ordered s" "is_basic s = (unat k = 0)"
    "map_option snd (oid_abs (m_services b) (unat k)) = Some (Some s0)" "service_shape s = service_shape s0" "cookies_ok n v"
    "cookies_abs v = (cookies_abs (m_client_service_cookies b))((j, x) := z)" "cd_rpc_active cd' = cd_rpc_active cd"
  shows "keeps elems ordered n x (cd, b) (cd', (store_service k s b)\<lparr>m_client_service_cookies := v\<rparr>)"
  using run_ok_cookies [OF run_ok_store [OF assms(1-4)] assms(7)] assms(8,9) table_shape_store [OF assms(1,5,6)]
  by (simp add: keeps_def)

lemma bp_subscribe_keeps:
  assumes run: "run_ok elems ordered n b"
  shows "\<exists>out cd' b'. bp_rpc_subscribe_service x req cd b = (Inr (out, cd'), b') \<and> keeps elems ordered n x (cd, b) (cd', b')"
proof (cases "unat (sq_service_ordinal req) < n")
  case False
  then show ?thesis using bp_no_service(1) [OF run] by (simp add: keeps_refl [OF run])
next
  case ord: True
  have k: "unat (ucast (sq_service_ordinal req) :: uint16) < n"
    using ord run_okD(3) [OF run] by (simp add: unat_ucast_small)
  show ?thesis
  proof (cases "subscribed (m_client_service_cookies b) (unat (sq_service_ordinal req)) x")
    case True
    show ?thesis
      by (rule bp_subscribe_again [OF run ord True, of cd]) (simp add: keeps_def run_ok_cookies [OF run])
  next
    case False
    show ?thesis
      by (rule bp_subscribe_new [OF run ord False, of cd]) (auto intro: keeps_store [OF run k])
  qed
qed

lemma bp_unsubscribe_keeps:
  assumes run: "run_ok elems ordered n b"
  shows "\<exists>out cd' b'. bp_rpc_unsubscribe_service x req cd b = (Inr (out, cd'), b') \<and> keeps elems ordered n x (cd, b) (cd', b')"
proof (cases "unat (uq_service_ordinal req) < n")
  case False
  then show ?thesis using bp_no_service(2) [OF run] by (simp add: keeps_refl [OF run])
next
  case ord: True
  have k: "unat (ucast (uq_service_ordinal req) :: uint16) < n"
    using ord run_okD(3) [OF run] by (simp add: unat_ucast_small)
  show ?thesis
  proof (cases "subscribed (m_client_service_cookies b) (unat (uq_service_ordinal req)) x")
    case False
    show ?thesis
      by (rule bp_unsubscribe_not [OF run ord False, of cd]) (simp add: keeps_def run_ok_cookies [OF run])
  next
    case True
    show ?thesis
      by (rule bp_unsubscribe_subscribed [OF run ord True, of cd]) (auto intro: keeps_store [OF run k])
  qed
qed

lemma basic_dispatch_keeps:
  assumes run: "run_ok elems ordered n b" and "m < 5" and hello: "m = 0 \<Longrightarrow> \<not> cd_client_established cd"
  shows "\<exists>cd' b'. basic_dispatch P x m cd b = (Inr cd', b') \<and> keeps elems ordered n x (cd, b) (cd', b')"
proof -
  have list: "\<exists>out cd' b'. bp_list_services u cd b = (Inr (out, cd'), b') \<and> keeps elems ordered n x (cd, b) (cd', b')" for u
    using bp_list_services_ok [OF run] keeps_refl [OF run] by blast
  consider "m = 0" | "m = 1" | "m = 2" | "m = 3" | "m = 4" using \<open>m < 5\<close> by linarith
  then show ?thesis
  proof cases
    case 1
    have "\<exists>cd' b'. generated_dispatch_function parse bp_hello ser cd b = (Inr cd', b') \<and> keeps elems ordered n x (cd, b) (cd', b')"
      for parse ser by (rule generated_dispatch_keeps [OF run]) (rule bp_hello_keeps [OF run hello [OF 1]])
    with 1 show ?thesis by (simp add: basic_dispatch_def)
  next
    case 2
    have "\<exists>cd' b'. generated_dispatch_function parse bp_list_services ser cd b = (Inr cd', b') \<and> keeps elems ordered n x (cd, b) (cd', b')"
      for parse ser by (rule generated_dispatch_keeps [OF run]) (rule list)
    with 2 show ?thesis by (simp add: basic_dispatch_def)
  next
    case 3
    have "\<exists>cd' b'. generated_dispatch_function parse (bp_rpc_subscribe_service x) ser cd b = (Inr cd', b') \<and> keeps elems ordered n x (cd, b) (cd', b')"
      for parse ser by (rule generated_dispatch_keeps [OF run]) (rule bp_subscribe_keeps [OF run])
    with 3 show ?thesis by (simp add: basic_dispatch_def)
  next
    case 4
    have "\<exists>cd' b'. generated_dispatch_function parse (bp_rpc_unsubscribe_service x) ser cd b = (Inr cd', b') \<and> keeps elems ordered n x (cd, b) (cd', b')"
      for parse ser by (rule generated_dispatch_keeps [OF run]) (rule bp_unsubscribe_keeps [OF run])
    with 4 show ?thesis by (simp add: basic_dispatch_def)
  next
    case 5
    have "\<exists>cd' b'. generated_dispatch_function parse bp_list_methods ser cd b = (Inr cd', b') \<and> keeps elems ordered n x (cd, b) (cd', b')"
      for parse ser by (rule generated_dispatch_keeps [OF run]) (rule bp_list_methods_keeps [OF run])
    with 5 show ?thesis by (simp add: basic_dispatch_def)
  qed
qed

lemma linked_dispatch_ok:
  assumes "impl_behaves u"
  obtains cd' st cc' where "linked_dispatch m cd (u, cc) = (Inr cd', (u\<lparr>u_state := st\<rparr>, cc'))"
    "cd_rpc_active cd' = cd_rpc_active cd" "m_subscribed cc' = m_subscribed cc"
proof (cases "u_parse u m (request_string (cd_request cd))")
  case None
  then show ?thesis
    by (intro that [of "cd_set_response_error REQUEST_STRING_PARSE_ERROR
          (cd_assign_error RBL_BACKEND_INVOKE_REQUEST_STRING_PARSE_ERROR cd)" "u_state u" cc])
      (simp_all add: linked_dispatch_def generated_dispatch_function_def)
next
  case (Some m_in)
  obtain st cc' cd1 out where call: "u_call u m (u_state u) cc cd m_in = (st, cc', cd1, out)" by (metis prod_cases4)
  note beh = impl_behavesD(1) [OF assms call]
  show ?thesis
  proof (cases "u_serialize u m out")
    case None
    with Some call beh show ?thesis
      by (intro that [of "cd_set_response_error REQUEST_STRING_SERIALIZE_ERROR
            (cd_assign_error RBL_BACKEND_INVOKE_RESPONSE_STRING_SERIALIZE_ERROR (cd_set_response_string [] cd1))" st cc'])
        (simp_all add: linked_dispatch_def generated_dispatch_function_def linked_call_def)
  next
    case (Some s)
    with \<open>u_parse u m _ = Some m_in\<close> call beh show ?thesis
      by (intro that [of "cd_set_response_string s cd1" st cc'])
        (simp_all add: linked_dispatch_def generated_dispatch_function_def linked_call_def)
  qed
qed

lemma service_wf_state:
  assumes "service_wf elems ordered s" "svc_impl s = Linked u"
  shows "impl_behaves u" "service_wf elems ordered (s\<lparr>svc_impl := Linked (u\<lparr>u_state := st\<rparr>)\<rparr>)"
proof -
  show "impl_behaves u" using assms by (simp add: service_wf_def)
  show "service_wf elems ordered (s\<lparr>svc_impl := Linked (u\<lparr>u_state := st\<rparr>)\<rparr>)" using assms by (rule service_wf_impl)
qed

lemma service_dispatch_keeps:
  assumes run: "run_ok elems ordered n b" and k: "unat k < n"
    and s: "at_ordinal (m_services b) k = Some (Some s)"
    and fn: "contains_function_at_ordinal s (ucast (request_ordinal (cd_request cd)))"
    and cookie: "cookies_abs (m_client_service_cookies b) (unat k, x) \<noteq> None"
    and hello: "svc_impl s = BasicProtocolImpl \<Longrightarrow> (ucast (request_ordinal (cd_request cd)) :: uint16) = 0 \<Longrightarrow> \<not> cd_client_established cd"
  shows "\<exists>cd' b'. service_dispatch P x k k cd b = (Inr cd', b') \<and> keeps elems ordered n x (cd, b) (cd', b')"
proof -
  note r = run_okD [OF run]
  let ?m = "ucast (request_ordinal (cd_request cd)) :: uint16"
  have wf: "service_wf elems ordered s" "is_basic s = (unat k = 0)"
    using run_ok_service [OF run k] s by (metis option.inject)+
  then have ok: "service_ok elems ordered (method_count s) s" by (simp add: service_wf_def)
  have m: "unat ?m < method_count s" using fn service_wf_contains [OF wf(1)] by blast
  then have tab: "at_ordinal (svc_dispatch_table s) ?m = Some (Some (unat ?m))"
    by (simp add: service_ok_at_ordinal [OF ok])
  show ?thesis
  proof (cases "svc_impl s")
    case BasicProtocolImpl
    with wf m have "unat ?m < 5" by (simp add: service_wf_def)
    moreover have "unat ?m = 0 \<Longrightarrow> \<not> cd_client_established cd"
      using hello [OF BasicProtocolImpl] by (metis unat_eq_zero)
    ultimately show ?thesis
      using basic_dispatch_keeps [OF run, of "unat ?m" cd P x] s tab BasicProtocolImpl by (simp add: service_dispatch_def)
  next
    case (Linked u)
    note st = service_wf_state [OF wf(1) Linked]
    obtain c where c: "cookies_abs (m_client_service_cookies b) (unat k, x) = Some c" using cookie by blast
    obtain cd' us cc' where d: "linked_dispatch (unat ?m) cd (u, c) = (Inr cd', (u\<lparr>u_state := us\<rparr>, cc'))"
      "cd_rpc_active cd' = cd_rpc_active cd"
      by (rule linked_dispatch_ok [OF st(1), of "unat ?m" cd c]) blast
    obtain v where v: "cookie_write k x cc' (m_client_service_cookies b) = Inr v" "cookies_ok n v"
      "cookies_abs v = (cookies_abs (m_client_service_cookies b))((unat k, x) \<mapsto> cc')"
      using ck.wr_spec [OF r(1) k c, of cc'] by blast
    have "cookie_read k x (m_client_service_cookies b) = Inr c" using ck.rd_spec [OF r(1) k, of x] c by simp
    then have "service_dispatch P x k k cd b =
        (Inr cd', (store_service k (s\<lparr>svc_impl := Linked (u\<lparr>u_state := us\<rparr>)\<rparr>) b)\<lparr>m_client_service_cookies := v\<rparr>)"
      using s tab Linked d(1) v(1) by (simp add: service_dispatch_def Let_def)
    moreover have basic: "is_basic (s\<lparr>svc_impl := Linked (u\<lparr>u_state := us\<rparr>)\<rparr>) = (unat k = 0)"
      using wf(2) Linked by (simp add: is_basic_def)
    moreover have "service_shape (s\<lparr>svc_impl := Linked (u\<lparr>u_state := us\<rparr>)\<rparr>) = service_shape s"
      using Linked by (simp add: service_shape_def impl_code_def)
    moreover have "map_option snd (oid_abs (m_services b) (unat k)) = Some (Some s)" using s by (simp add: at_ordinal_abs)
    ultimately show ?thesis using keeps_store [OF run k st(2) basic _ _ v(2,3) d(2)] by (intro exI conjI) assumption+
  qed
qed

text \<open>Service 0 is the basic protocol, with its methods in the order of the descriptor.\<close>

lemma service_dispatch_basic:
  assumes run: "run_ok elems ordered n b" and "n > 0"
    and m: "unat (ucast (request_ordinal (cd_request cd)) :: uint16) = m" "m < 5"
  shows "service_dispatch P x 0 k cd b = basic_dispatch P x m cd b"
proof -
  have "unat (0 :: uint16) < n" using assms(2) by simp
  with run obtain s where s: "at_ordinal (m_services b) 0 = Some (Some s)" "service_wf elems ordered s"
    "is_basic s = (unat (0 :: uint16) = 0)"
    by (rule run_ok_service)
  then have impl: "svc_impl s = BasicProtocolImpl" "service_ok elems ordered 5 s"
    by (auto simp: is_basic_def service_wf_def split: Impl.splits)
  then have "at_ordinal (svc_dispatch_table s) (ucast (request_ordinal (cd_request cd))) = Some (Some m)"
    using m by (simp add: service_ok_at_ordinal)
  with s(1) impl(1) show ?thesis by (simp add: service_dispatch_def)
qed

end

end
