(* ===== verification/Call_Properties.thy ===== *)
theory Call_Properties
  imports Dispatch
begin

text \<open>
  The properties of calls: the decision of \<open>invoke\<close>, that only authorised calls are posted,
  that a posted call runs to its end, and what the methods of the basic protocol do.
\<close>

section \<open>Posted calls\<close>

lemma verdict_Posted:
  fixes i
  defines "r \<equiv> cd_request (inv_client_data i)"
  assumes run: "run_ok elems ordered n b" and posted: "verdict_of x i b = Posted"
  obtains s where "unat (ucast (service_ordinal r) :: uint16) < n"
    "at_ordinal (m_services b) (ucast (service_ordinal r)) = Some (Some s)" "service_wf elems ordered s"
    "contains_function_at_ordinal s (ucast (request_ordinal r))"
    "is_basic s = (unat (ucast (service_ordinal r) :: uint16) = 0)"
    "is_accepting_requests (m_synchronised_state b)"
    "service_ordinal r = 0 \<or> subscribed (m_client_service_cookies b) (unat (service_ordinal r) mod 65536) x"
    "cd_client_established (inv_client_data i) \<noteq> (service_ordinal r = 0 \<and> request_ordinal r = 0)"
proof -
  let ?k = "ucast (service_ordinal r) :: uint16"
  have t: "table_ok elems ordered n (m_services b)" using run by (rule run_okD)
  have k: "unat ?k = unat (service_ordinal r) mod 65536" by (simp add: width_simps)
  have kn: "unat ?k < n"
  proof (rule ccontr)
    assume "\<not> unat ?k < n"
    then have "cv_methods (view_of x (inv_client_data i) b) (unat (service_ordinal r) mod 65536) = None"
      using table_ok_no_methods(2) [OF t, of ?k] unfolding k view_of_def by simp
    with posted show False by (simp add: verdict_of_def decide_def Let_def r_def split: if_splits)
  qed
  with t obtain s where s: "at_ordinal (m_services b) ?k = Some (Some s)" "service_wf elems ordered s"
    "map_option slot_methods (oid_abs (m_services b) (unat ?k)) = Some (method_count s)" "is_basic s = (unat ?k = 0)"
    by (rule table_ok_lookup)
  have "cv_methods (view_of x (inv_client_data i) b) (unat (service_ordinal r) mod 65536) = Some (method_count s)"
    using s(3) unfolding k view_of_def by simp
  with posted have "unat (request_ordinal r) mod 65536 < method_count s"
    "is_accepting_requests (m_synchronised_state b)"
    "service_ordinal r = 0 \<or> subscribed (m_client_service_cookies b) (unat (service_ordinal r) mod 65536) x"
    "cd_client_established (inv_client_data i) \<noteq> (service_ordinal r = 0 \<and> request_ordinal r = 0)"
    by (auto simp: verdict_of_def decide_def Let_def view_of_def r_def split: if_splits)
  then show ?thesis
    using kn s service_wf_contains [OF s(2), of "ucast (request_ordinal r)"]
    by (intro that) (simp_all add: unat_ucast_32_16)
qed

context boost_library
begin

lemma posted_call_runs:
  assumes run: "run_ok elems ordered n b" and idle: "\<not> cd_rpc_active (inv_client_data i)"
    and inv: "invoke P x (i, b) = (Inr False, w)"
    and small: "unat (service_ordinal (cd_request (inv_client_data i))) < 65536"
      "unat (request_ordinal (cd_request (inv_client_data i))) < 65536"
  obtains i' b' where "run_invoker P x w = (Inr (), (i', b'))" "run_ok elems ordered n b'"
    "\<not> cd_rpc_active (inv_client_data i')" "m_synchronised_state b' = m_synchronised_state b"
    "m_io_posted b' = m_io_posted b @ [x]" "m_connected_clients b' = m_connected_clients b"
    "\<And>j y. y \<noteq> x \<Longrightarrow> subscribed (m_client_service_cookies b') j y = subscribed (m_client_service_cookies b) j y"
proof -
  let ?r = "cd_request (inv_client_data i)"
  let ?k = "ucast (service_ordinal ?r) :: uint16" and ?m = "ucast (request_ordinal ?r) :: uint16"
  obtain i1 b1 where w: "w = (i1, b1)" by (cases w)
  obtain w' where w': "invoke P x (i, b) = (Inr (verdict_of x i b \<noteq> Posted), w')" "after_call P (verdict_of x i b) x n (i, b) w'"
    by (rule exE [OF invoke_after_call [OF run idle, of P x]]) (elim conjE)
  from trans [OF w'(1) [symmetric] inv] have posted: "verdict_of x i b = Posted" and "w' = w" by simp_all
  with w'(2) have after: "after_call P Posted x n (i, b) (i1, b1)" by (simp add: w)
  obtain s where s: "unat ?k < n" "at_ordinal (m_services b) ?k = Some (Some s)" "service_wf elems ordered s"
    "contains_function_at_ordinal s ?m" "is_basic s = (unat ?k = 0)" "is_accepting_requests (m_synchronised_state b)"
    "service_ordinal ?r = 0 \<or> subscribed (m_client_service_cookies b) (unat (service_ordinal ?r) mod 65536) x"
    "cd_client_established (inv_client_data i) \<noteq> (service_ordinal ?r = 0 \<and> request_ordinal ?r = 0)"
    by (rule verdict_Posted [OF run posted])
  have k: "unat ?k = unat (service_ordinal ?r)" and m: "unat ?m = unat (request_ordinal ?r)"
    using small by (simp_all add: unat_ucast_32_16)
  note a = after [unfolded after_call_def Let_def fst_conv snd_conv, simplified]
  have run1: "run_ok elems ordered n b1" using a run by (simp add: run_ok_def)
  have "\<not> cd_client_established (inv_client_data i1)" if "svc_impl s = BasicProtocolImpl" "?m = 0"
  proof -
    have "service_ordinal ?r = 0" "request_ordinal ?r = 0"
      using that s(5) k m by (simp_all add: is_basic_def unat_eq_zero)
    then show ?thesis using s(8) a by simp
  qed
  then obtain cd' b2 where d: "service_dispatch P x ?k ?k (inv_client_data i1) b1 = (Inr cd', b2)"
    "keeps elems ordered n x (inv_client_data i1, b1) (cd', b2)"
    using service_dispatch_keeps [OF run1 s(1), of s "inv_client_data i1" x P] s(2,4) a k small(1) by auto
  let ?w = "(i1\<lparr>inv_client_data := cd'\<lparr>cd_rpc_active := False\<rparr>\<rparr>, upd_sync end_a_request b2)"
  have act: "cd_rpc_active cd'" using d(2) a by (simp add: keeps_def)
  have "run_invoker P x w = (Inr (), ?w)"
    using a d(1) act by (simp add: w run_invoker_def BackEnd_end_rpc_def end_rpc_def)
  moreover have "run_ok elems ordered n b2" "same_control b1 b2" using d(2) by (simp_all add: keeps_def)
  moreover from \<open>same_control b1 b2\<close> have "m_synchronised_state b2 = m_synchronised_state b1"
    "m_io_posted b2 = m_io_posted b1" "m_connected_clients b2 = m_connected_clients b1"
    by (simp_all add: same_controlD)
  moreover have "subscribed (m_client_service_cookies b2) j y = subscribed (m_client_service_cookies b) j y" if "y \<noteq> x" for j y
    using d(2) a that by (simp add: keeps_def subscribed_def)
  ultimately show ?thesis
    using a by (intro that [of "fst ?w" "snd ?w"]) (simp_all add: run_ok_def sync_defs)
qed

end

section \<open>Calls on the concrete backend\<close>

lemma backend_2_methods:
  "map_option slot_methods (oid_abs (m_services backend_2) 0) = Some 5"
  "map_option slot_methods (oid_abs (m_services backend_2) 1) = Some 1"
  "map_option slot_methods (oid_abs (m_services backend_2) (Suc 0)) = Some 1"
proof -
  have "table_ok set lst_ordered 2 (m_services backend_2)" using backend_2_ok(2) by (rule run_okD)
  then obtain nm s where "oid_abs (m_services backend_2) 0 = Some (nm, Some s)" "service_wf set lst_ordered s" "is_basic s"
    by (rule table_okD [of _ _ _ _ 0]) auto
  then show "map_option slot_methods (oid_abs (m_services backend_2) 0) = Some 5"
    by (auto simp: slot_methods_def service_wf_def is_basic_def split: Impl.splits)
  show "map_option slot_methods (oid_abs (m_services backend_2) 1) = Some 1"
    "map_option slot_methods (oid_abs (m_services backend_2) (Suc 0)) = Some 1"
    using backend_2_ok(4) by (simp_all add: slot_methods_def echo_service_ok)
qed

lemma backend_2_view:
  "cv_accepting (view_of x cd backend_2)" "\<not> cv_subscribed (view_of x cd backend_2) k"
  "cv_methods (view_of x cd backend_2) 0 = Some 5" "cv_methods (view_of x cd backend_2) (Suc 0) = Some 1"
  "cv_established (view_of x cd backend_2) = cd_client_established cd"
  using backend_2_ok(3,5) backend_2_methods unfolding view_of_def subscribed_def by simp_all

lemma caller_simps [simp]:
  "cd_rpc_active (inv_client_data (caller so ro e)) = False"
  "cd_client_established (inv_client_data (caller so ro e)) = e"
  "service_ordinal (cd_request (inv_client_data (caller so ro e))) = so"
  "request_ordinal (cd_request (inv_client_data (caller so ro e))) = ro"
  by (simp_all add: caller_def ClientData_new_def InvokerBase_new_def)

lemma backend_2_verdicts:
  "verdict_of x (caller 0 0 False) backend_2 = Posted"
  "verdict_of x (caller 1 0 True) backend_2 = NotSubscribed"
  "verdict_of x (caller 0 65536 True) backend_2 = Posted"
  by (simp_all add: verdict_of_def backend_2_view decide_def Let_def)

section \<open>Properties\<close>



text \<open>
  C13: only authorised calls reach a service. A call is posted only when the backend accepts
  requests, the service at the (narrowed) ordinal exists and has the method, the client is
  subscribed unless it addressed service 0, and the client is established unless it sent the
  hello request, which an established client cannot send again.
\<close>
theorem only_authorised_calls_posted:
  assumes "run_ok elems ordered n b" "\<not> cd_rpc_active (inv_client_data i)"
    "invoke P x (i, b) = (Inr False, w)" "r = cd_request (inv_client_data i)"
  shows "is_accepting_requests (m_synchronised_state b) \<and>
    (\<exists>s. at_ordinal (m_services b) (ucast (service_ordinal r)) = Some (Some s) \<and>
         contains_function_at_ordinal s (ucast (request_ordinal r))) \<and>
    (service_ordinal r = 0 \<or> subscribed (m_client_service_cookies b) (unat (service_ordinal r) mod 65536) x) \<and>
    cd_client_established (inv_client_data i) \<noteq> (service_ordinal r = 0 \<and> request_ordinal r = 0)"
proof -
  obtain w' where "invoke P x (i, b) = (Inr (verdict_of x i b \<noteq> Posted), w')"
    by (rule exE [OF invoke_after_call [OF assms(1,2), of P x]]) (elim conjE)
  from trans [OF this [symmetric] assms(3)] have "verdict_of x i b = Posted" by simp
  then show ?thesis unfolding assms(4) by (rule verdict_Posted [OF assms(1)]) (intro conjI exI)
qed

lemma backend_2_hello: "\<exists>w. invoke demo_protobuf 7 (caller 0 0 False, backend_2) = (Inr False, w)"
  using invoke_after_call [OF backend_2_ok(2), of "caller 0 0 False" demo_protobuf 7] backend_2_verdicts(1) [of 7]
  by auto

theorem only_authorised_calls_posted_witness:
  "is_accepting_requests (m_synchronised_state backend_2) \<and>
   (\<exists>s. at_ordinal (m_services backend_2) 0 = Some (Some s) \<and> contains_function_at_ordinal s 0)"
proof -
  obtain w where w: "invoke demo_protobuf 7 (caller 0 0 False, backend_2) = (Inr False, w)"
    using backend_2_hello by blast
  show ?thesis using only_authorised_calls_posted [OF backend_2_ok(2) _ w refl] by simp
qed

text \<open>
  C14: a posted call runs to its end. For ordinals that fit 16 bits, running what \<open>invoke\<close>
  posted dispatches the call and ends it on every path: no assertion fails, nothing undefined
  is touched, the client's call is over, the number of active calls is what it was before the
  call, the backend is still well formed, and the subscriptions of other clients are unchanged.
\<close>
theorem posted_call_completes:
  assumes "boost_library L elems ordered" "run_ok elems ordered n b" "\<not> cd_rpc_active (inv_client_data i)"
    "invoke P x (i, b) = (Inr False, w)"
    "unat (service_ordinal (cd_request (inv_client_data i))) < 65536"
    "unat (request_ordinal (cd_request (inv_client_data i))) < 65536"
  shows "\<exists>i' b'. run_invoker P x w = (Inr (), (i', b')) \<and> run_ok elems ordered n b' \<and>
    \<not> cd_rpc_active (inv_client_data i') \<and> m_synchronised_state b' = m_synchronised_state b \<and>
    (\<forall>j y. y \<noteq> x \<longrightarrow> subscribed (m_client_service_cookies b') j y = subscribed (m_client_service_cookies b) j y)"
  by (rule boost_library.posted_call_runs [OF assms]) blast

theorem posted_call_completes_witness:
  "\<exists>w i' b'. invoke demo_protobuf 7 (caller 0 0 False, backend_2) = (Inr False, w) \<and>
     run_invoker demo_protobuf 7 w = (Inr (), (i', b')) \<and> run_ok set lst_ordered 2 b' \<and>
     m_synchronised_state b' = m_synchronised_state backend_2"
proof -
  obtain w where w: "invoke demo_protobuf 7 (caller 0 0 False, backend_2) = (Inr False, w)"
    using backend_2_hello by blast
  show ?thesis using posted_call_completes [OF list_boost_library backend_2_ok(2) _ w] w by auto
qed

text \<open>
  C15: ordinals wider than 16 bits. An established client that asks service 0 for method 65536
  is not recognised as saying hello, because the checks look at the 32-bit ordinals, but it is
  dispatched to \<open>hello\<close>, because the table is indexed with the lower 16 bits. When its request
  matches the connection types, running the call fails the assertion that a client is
  established once.
\<close>
theorem truncated_hello_aborts:
  assumes "boost_library L elems ordered" "run_ok elems ordered n b" "n > 0" "is_accepting_requests (m_synchronised_state b)"
    "\<not> cd_rpc_active (inv_client_data i)" "cd_client_established (inv_client_data i)"
    "service_ordinal (cd_request (inv_client_data i)) = 0" "request_ordinal (cd_request (inv_client_data i)) = 65536"
    "parse_HelloRequest P (request_string (cd_request (inv_client_data i))) = Some hr"
    "hq_expected_target hr = m_backend_type b" "hq_source_type hr = m_source_type b"
  shows "\<exists>w. invoke P x (i, b) = (Inr False, w) \<and> fst (run_invoker P x w) = Inl AssertionFailed"
proof -
  have "table_ok elems ordered n (m_services b)" using assms(2) by (rule run_okD)
  then obtain s where s: "at_ordinal (m_services b) 0 = Some (Some s)" "service_wf elems ordered s"
    "map_option slot_methods (oid_abs (m_services b) (unat (0 :: uint16))) = Some (method_count s)"
    "is_basic s = (unat (0 :: uint16) = 0)"
    by (rule table_ok_lookup [of _ _ _ _ 0]) (use assms(3) in simp)
  then have impl: "svc_impl s = BasicProtocolImpl" "method_count s = 5"
    by (auto simp: is_basic_def service_wf_def split: Impl.splits)
  have "cv_methods (view_of x (inv_client_data i) b) 0 = Some 5" using s(3) impl unfolding view_of_def by simp
  then have v: "verdict_of x i b = Posted"
    using assms(4,6-8) by (simp add: verdict_of_def decide_def Let_def) (simp add: view_of_def)
  obtain i1 b1 where w: "invoke P x (i, b) = (Inr False, (i1, b1))" "after_call P Posted x n (i, b) (i1, b1)"
    using invoke_after_call [OF assms(2,5), of P x, unfolded v] by auto
  note a = w(2) [unfolded after_call_def Let_def fst_conv snd_conv, simplified]
  have "service_ok elems ordered 5 s" using s(2) impl by (simp add: service_wf_def)
  then have "at_ordinal (svc_dispatch_table s) 65536 = Some (Some 0)" by (simp add: service_ok_at_ordinal)
  moreover have "bp_hello hr (inv_client_data i1) b1 = (Inl AssertionFailed, b1)"
    using a assms(6,10,11) by (simp add: bp_hello_cases)
  ultimately have "fst (service_dispatch P x 0 0 (inv_client_data i1) b1) = Inl AssertionFailed"
    using a s(1) impl assms(8,9)
    by (simp add: service_dispatch_def basic_dispatch_def generated_dispatch_function_def)
  then have "fst (run_invoker P x (i1, b1)) = Inl AssertionFailed"
    using a assms(7) by (cases "service_dispatch P x 0 0 (inv_client_data i1) b1") (auto simp: run_invoker_def)
  with w(1) show ?thesis by blast
qed

theorem truncated_hello_aborts_witness:
  "\<exists>w. invoke demo_protobuf 7 (caller 0 65536 True, backend_2) = (Inr False, w) \<and>
     fst (run_invoker demo_protobuf 7 w) = Inl AssertionFailed"
  using truncated_hello_aborts [OF list_boost_library backend_2_ok(2) _ backend_2_ok(3), of "caller 0 65536 True"
      demo_protobuf "\<lparr>hq_source_type = SOURCE_GENERATOR, hq_expected_target = TARGET_RELAY, hq_node_name = ''node''\<rparr>" 7]
  by (simp add: backend_2_types) (simp add: demo_protobuf_def caller_def ClientData_new_def InvokerBase_new_def)

text \<open>
  C16: \<open>hello\<close>. The connection types are checked in the order target, source; a mismatch is
  reported with its own error and asks for a disconnection without establishing the client,
  and a matching request establishes the client under the name it gave.
\<close>
theorem hello_outcomes:
  assumes "\<not> cd_client_established cd"
  shows "\<exists>res cd'. bp_hello hr cd b = (Inr (res, cd'), b) \<and>
    (hq_expected_target hr \<noteq> m_backend_type b \<longrightarrow>
       hs_error_type res = Some DESTINATION_EXPECTATION_MISMATCH \<and> cd_should_disconect cd' \<and> \<not> cd_client_established cd' \<and>
       cd_ec cd' = ec_assign RBL_BACKEND_CLIENT_TARGET_TYPE_MISMATCH rpc_backend_error) \<and>
    (hq_expected_target hr = m_backend_type b \<and> hq_source_type hr \<noteq> m_source_type b \<longrightarrow>
       hs_error_type res = Some SOURCE_EXPECTATION_MISMATCH \<and> cd_should_disconect cd' \<and> \<not> cd_client_established cd' \<and>
       cd_ec cd' = ec_assign RBL_BACKEND_CLIENT_SOURCE_TYPE_MISMATCH rpc_backend_error) \<and>
    (hq_expected_target hr = m_backend_type b \<and> hq_source_type hr = m_source_type b \<longrightarrow>
       hs_error_type res = Some NO_HELLO_ERRORS \<and> cd_client_established cd' \<and> cd_name cd' = hq_node_name hr \<and>
       cd_ec cd' = cd_ec cd \<and> cd_should_disconect cd' = cd_should_disconect cd)"
  using assms by (simp add: bp_hello_cases)

theorem hello_outcomes_witness:
  "\<exists>res cd'. bp_hello \<lparr>hq_source_type = SOURCE_GENERATOR, hq_expected_target = TARGET_RELAY, hq_node_name = ''node''\<rparr>
      ClientData_new backend_2 = (Inr (res, cd'), backend_2) \<and> cd_client_established cd' \<and> cd_name cd' = ''node''"
  using hello_outcomes [of ClientData_new "\<lparr>hq_source_type = SOURCE_GENERATOR, hq_expected_target = TARGET_RELAY, hq_node_name = ''node''\<rparr>" backend_2]
  by (auto simp: backend_2_types ClientData_new_def)

end
