(* ===== verification/Protocol_Properties.thy ===== *)
theory Protocol_Properties
  imports Call_Properties
begin

text \<open>
  The properties of the basic protocol: subscribing, unsubscribing and the two listings, on
  every branch.
\<close>

text \<open>
  C16: subscribing. For a service the client is not subscribed to, the service's \<open>subscribe\<close>
  is called with the client's cookie; if it leaves no error code the client is subscribed and
  the response says so, otherwise the client stays unsubscribed and the response carries no
  error field at all. A second subscription and an unknown ordinal are refused with their own
  errors. No other pair of service and client is affected.
\<close>
theorem subscribe_outcomes:
  assumes "boost_library L elems ordered" "run_ok elems ordered n b" "k = unat (sq_service_ordinal req)"
  shows "\<exists>res cd' b'. bp_rpc_subscribe_service x req cd b = (Inr (res, cd'), b') \<and> run_ok elems ordered n b' \<and>
    (n \<le> k \<longrightarrow> b' = b \<and> ss_error res = Some SERVICE_ORDINAL_NOT_IN_USE \<and>
       cd' = cd_assign_error RBL_BACKEND_SUBSCRIBE_NO_SERVICE_WITH_ORDINAL cd) \<and>
    (k < n \<and> subscribed (m_client_service_cookies b) k x \<longrightarrow>
       subscribed (m_client_service_cookies b') k x \<and> ss_error res = Some SERVICE_ALLREADY_SUBSCRIBED \<and>
       cd' = cd_assign_error RBL_BACKEND_ALLREADY_SUBSCRIBED cd) \<and>
    (k < n \<and> \<not> subscribed (m_client_service_cookies b) k x \<longrightarrow>
       subscribed (m_client_service_cookies b') k x = (\<not> ec_fails (cd_ec cd')) \<and>
       ss_error res = (if ec_fails (cd_ec cd') then None else Some NO_SUBSCRIBE_SERVICE_ERROR)) \<and>
    (\<forall>j y. (j, y) \<noteq> (k, x) \<longrightarrow>
       cookies_abs (m_client_service_cookies b') (j, y) = cookies_abs (m_client_service_cookies b) (j, y))"
proof (cases "k < n")
  case False
  then show ?thesis using boost_library.bp_no_service(1) [OF assms(1,2)] assms(2,3) by simp
next
  case True
  then have kn: "unat (sq_service_ordinal req) < n" using assms(3) by simp
  have k: "unat (ucast (sq_service_ordinal req) :: uint16) = k" "k < n"
    using kn assms(3) run_okD(3) [OF assms(2)] by (simp_all add: unat_ucast_small)
  show ?thesis
  proof (cases "subscribed (m_client_service_cookies b) k x")
    case True
    then obtain v where "bp_rpc_subscribe_service x req cd b =
        (Inr (\<lparr>ss_error = Some SERVICE_ALLREADY_SUBSCRIBED, ss_subscribe_result_string = None\<rparr>,
           cd_assign_error RBL_BACKEND_ALLREADY_SUBSCRIBED cd), b\<lparr>m_client_service_cookies := v\<rparr>)"
      "cookies_ok n v" "cookies_abs v = cookies_abs (m_client_service_cookies b)"
      using boost_library.bp_subscribe_again [OF assms(1,2) kn, of x cd] assms(3) by blast
    then show ?thesis using True k(2) run_ok_cookies [OF assms(2)] by (simp add: subscribed_def)
  next
    case False
    then have new: "\<not> subscribed (m_client_service_cookies b) (unat (sq_service_ordinal req)) x" using assms(3) by simp
    obtain s s' cc cd' r v where sub: "bp_rpc_subscribe_service x req cd b =
        (Inr (\<lparr>ss_error = (if ec_fails (cd_ec cd') then None else Some NO_SUBSCRIBE_SERVICE_ERROR),
               ss_subscribe_result_string = Some r\<rparr>, cd'),
         (store_service (ucast (sq_service_ordinal req)) s' b)\<lparr>m_client_service_cookies := v\<rparr>)"
      "cookies_ok n v" "cookies_abs v = (cookies_abs (m_client_service_cookies b))((k, x) \<mapsto>
          (if ec_fails (cd_ec cd') then cc else cookie_subscribe cc))"
      "service_wf elems ordered s'" "\<not> m_subscribed cc" "is_basic s' = (k = 0)"
      by (rule boost_library.bp_subscribe_new [OF assms(1,2) kn new, of cd]) (simp add: k)
    have "run_ok elems ordered n (store_service (ucast (sq_service_ordinal req)) s' b)"
      using boost_library.run_ok_store [OF assms(1,2)] sub(4,6) k by simp
    from run_ok_cookies [OF this sub(2)] sub(1) show ?thesis
      using False k(2) sub(3,5) subscribed_upd [OF sub(3)]
      by (auto simp: is_subscribed_def cookie_subscribe_def)
  qed
qed

theorem subscribe_outcomes_witness:
  "(\<exists>res cd' b'. bp_rpc_subscribe_service 7 \<lparr>sq_service_ordinal = 9, sq_subscribe_request_string = None\<rparr> ClientData_new backend_2 =
     (Inr (res, cd'), b') \<and> b' = backend_2 \<and> ss_error res = Some SERVICE_ORDINAL_NOT_IN_USE) \<and>
   (\<exists>res cd' b'. bp_rpc_subscribe_service 7 \<lparr>sq_service_ordinal = 1, sq_subscribe_request_string = None\<rparr> ClientData_new backend_2 =
     (Inr (res, cd'), b') \<and> subscribed (m_client_service_cookies b') 1 7 = (\<not> ec_fails (cd_ec cd')) \<and>
     ss_error res = (if ec_fails (cd_ec cd') then None else Some NO_SUBSCRIBE_SERVICE_ERROR))"
proof -
  note sub = subscribe_outcomes [OF list_boost_library backend_2_ok(2) refl, of 7 _ ClientData_new]
  have new: "\<not> subscribed (m_client_service_cookies backend_2) 1 7" using backend_2_ok(5) by (simp add: subscribed_def)
  obtain res cd' b' where "bp_rpc_subscribe_service 7 \<lparr>sq_service_ordinal = 1, sq_subscribe_request_string = None\<rparr> ClientData_new backend_2 =
      (Inr (res, cd'), b')" "subscribed (m_client_service_cookies b') 1 7 = (\<not> ec_fails (cd_ec cd'))"
    "ss_error res = (if ec_fails (cd_ec cd') then None else Some NO_SUBSCRIBE_SERVICE_ERROR)"
    using sub [of "\<lparr>sq_service_ordinal = 1, sq_subscribe_request_string = None\<rparr>"] new by auto
  moreover have "\<exists>res cd' b'. bp_rpc_subscribe_service 7 \<lparr>sq_service_ordinal = 9, sq_subscribe_request_string = None\<rparr> ClientData_new backend_2 =
      (Inr (res, cd'), b') \<and> b' = backend_2 \<and> ss_error res = Some SERVICE_ORDINAL_NOT_IN_USE"
    using sub [of "\<lparr>sq_service_ordinal = 9, sq_subscribe_request_string = None\<rparr>"] by auto
  ultimately show ?thesis by blast
qed

text \<open>
  C17: unsubscribing. The service of a subscribed client is told, the cookie is destroyed and
  forgotten, and the response says success, so that the client's next call finds a fresh
  cookie and is refused. A client without subscription and an unknown ordinal are refused with
  their own errors. No other pair of service and client is affected.
\<close>
theorem unsubscribe_outcomes:
  assumes "boost_library L elems ordered" "run_ok elems ordered n b" "k = unat (uq_service_ordinal req)"
  shows "\<exists>res cd' b'. bp_rpc_unsubscribe_service x req cd b = (Inr (res, cd'), b') \<and> run_ok elems ordered n b' \<and>
    (n \<le> k \<longrightarrow> b' = b \<and> us_error res = Some SERVICE_ORDINAL_NOT_IN_USE \<and>
       cd' = cd_assign_error RBL_BACKEND_SUBSCRIBE_NO_SERVICE_WITH_ORDINAL cd) \<and>
    (k < n \<and> \<not> subscribed (m_client_service_cookies b) k x \<longrightarrow>
       us_error res = Some NO_SUBSCRIPTION_FOR_SERVICE \<and> m_services b' = m_services b \<and>
       cd' = cd_assign_error RBL_BACKEND_NOT_SUBSCRIBED cd) \<and>
    (k < n \<and> subscribed (m_client_service_cookies b) k x \<longrightarrow>
       us_error res = Some NO_SUBSCRIBE_SERVICE_ERROR \<and> cookies_abs (m_client_service_cookies b') (k, x) = None) \<and>
    \<not> subscribed (m_client_service_cookies b') k x \<and>
    (\<forall>j y. (j, y) \<noteq> (k, x) \<longrightarrow> subscribed (m_client_service_cookies b') j y = subscribed (m_client_service_cookies b) j y)"
proof (cases "k < n")
  case False
  have "length (m_client_service_cookies b) = n" using run_okD(1) [OF assms(2)] by (simp add: cookies_ok_def)
  with False have "\<not> subscribed (m_client_service_cookies b) k x" by (simp add: subscribed_def cookies_abs_def)
  with False show ?thesis using boost_library.bp_no_service(2) [OF assms(1,2)] assms(2,3) by simp
next
  case True
  then have kn: "unat (uq_service_ordinal req) < n" using assms(3) by simp
  have k: "unat (ucast (uq_service_ordinal req) :: uint16) = k" "k < n"
    using kn assms(3) run_okD(3) [OF assms(2)] by (simp_all add: unat_ucast_small)
  show ?thesis
  proof (cases "subscribed (m_client_service_cookies b) k x")
    case False
    then have not: "\<not> subscribed (m_client_service_cookies b) (unat (uq_service_ordinal req)) x" using assms(3) by simp
    obtain v where "bp_rpc_unsubscribe_service x req cd b =
        (Inr (\<lparr>us_error = Some NO_SUBSCRIPTION_FOR_SERVICE\<rparr>, cd_assign_error RBL_BACKEND_NOT_SUBSCRIBED cd),
         b\<lparr>m_client_service_cookies := v\<rparr>)"
      "cookies_ok n v" "\<And>j y. subscribed v j y = subscribed (m_client_service_cookies b) j y"
      by (rule boost_library.bp_unsubscribe_not [OF assms(1,2) kn not, of cd]) blast
    then show ?thesis using False k(2) run_ok_cookies [OF assms(2)] by simp
  next
    case True
    then have sub: "subscribed (m_client_service_cookies b) (unat (uq_service_ordinal req)) x" using assms(3) by simp
    obtain s' cd' v where un: "bp_rpc_unsubscribe_service x req cd b =
        (Inr (\<lparr>us_error = Some NO_SUBSCRIBE_SERVICE_ERROR\<rparr>, cd'),
         (store_service (ucast (uq_service_ordinal req)) s' b)\<lparr>m_client_service_cookies := v\<rparr>)"
      "cookies_ok n v" "cookies_abs v = (cookies_abs (m_client_service_cookies b))((k, x) := None)"
      "service_wf elems ordered s'" "is_basic s' = (k = 0)"
      by (rule boost_library.bp_unsubscribe_subscribed [OF assms(1,2) kn sub, of cd]) (simp add: k)
    have "run_ok elems ordered n (store_service (ucast (uq_service_ordinal req)) s' b)"
      using boost_library.run_ok_store [OF assms(1,2)] un(4,5) k by simp
    from run_ok_cookies [OF this un(2)] un(1) show ?thesis
      using True k(2) un(3) subscribed_upd [OF un(3)] by auto
  qed
qed

theorem unsubscribe_outcomes_witness:
  "\<exists>res cd' b'. bp_rpc_unsubscribe_service 7 \<lparr>uq_service_ordinal = 1\<rparr> ClientData_new backend_2 = (Inr (res, cd'), b') \<and>
     us_error res = Some NO_SUBSCRIPTION_FOR_SERVICE"
  using unsubscribe_outcomes [OF list_boost_library backend_2_ok(2) refl, of 7 "\<lparr>uq_service_ordinal = 1\<rparr>" ClientData_new]
    backend_2_ok(5) by (auto simp: subscribed_def)

text \<open>
  C18: the listings. \<open>list_services\<close> reports every service exactly once, in the order of the
  ordinals and under its name; \<open>list_methods\<close> does the same for the methods of the service it
  is asked for and refuses an unknown ordinal. Neither changes anything or throws.
\<close>
theorem listings_complete:
  assumes "boost_library L elems ordered" "run_ok elems ordered n b" "k = unat (lq_service_ordinal req)"
  shows "bp_list_services u cd b =
      (Inr (\<lparr>ls_services = map (\<lambda>i. \<lparr>se_service_ordinal = of_nat i, se_service_name = display_name (m_services b) i\<rparr>) [0..<n]\<rparr>, cd), b) \<and>
    (k < n \<longrightarrow> (\<exists>nm s. oid_abs (m_services b) k = Some (nm, Some s) \<and>
       bp_list_methods req cd b =
         (Inr (\<lparr>lm_error = Some NO_LIST_METHOD_ERROR,
                lm_methods = map (\<lambda>i. \<lparr>me_service_ordinal = of_nat i,
                  me_service_name = display_name (svc_dispatch_table s) i\<rparr>) [0..<method_count s]\<rparr>, cd), b))) \<and>
    (n \<le> k \<longrightarrow> bp_list_methods req cd b =
       (Inr (\<lparr>lm_error = Some NO_SERVICE_WITH_ORDINAL, lm_methods = []\<rparr>,
          cd_assign_error RBL_BACKEND_LIST_METHOD_NO_SERVICE_WITH_ORDINAL cd), b))"
proof (intro conjI impI)
  show "bp_list_services u cd b =
      (Inr (\<lparr>ls_services = map (\<lambda>i. \<lparr>se_service_ordinal = of_nat i, se_service_name = display_name (m_services b) i\<rparr>) [0..<n]\<rparr>, cd), b)"
    using assms(2) by (rule boost_library.bp_list_services_ok [OF assms(1)])
  show "\<exists>nm s. oid_abs (m_services b) k = Some (nm, Some s) \<and> bp_list_methods req cd b =
         (Inr (\<lparr>lm_error = Some NO_LIST_METHOD_ERROR,
                lm_methods = map (\<lambda>i. \<lparr>me_service_ordinal = of_nat i,
                  me_service_name = display_name (svc_dispatch_table s) i\<rparr>) [0..<method_count s]\<rparr>, cd), b)" if "k < n"
    by (rule boost_library.bp_list_methods_ok [OF assms(1,2), of req cd]) (use that assms(3) in \<open>auto\<close>)
  show "bp_list_methods req cd b =
       (Inr (\<lparr>lm_error = Some NO_SERVICE_WITH_ORDINAL, lm_methods = []\<rparr>,
          cd_assign_error RBL_BACKEND_LIST_METHOD_NO_SERVICE_WITH_ORDINAL cd), b)" if "n \<le> k"
    using that assms(3) run_okD(2) [OF assms(2)] by (simp add: bp_list_methods_def ListMethodsResponse_new_def Let_def)
qed

theorem listings_complete_witness:
  "\<exists>res. bp_list_services () ClientData_new backend_2 = (Inr (res, ClientData_new), backend_2) \<and>
     map se_service_ordinal (ls_services res) = [0, 1]"
  using listings_complete [OF list_boost_library backend_2_ok(2) refl, of "()" ClientData_new "\<lparr>lq_service_ordinal = 0\<rparr>"]
  by (simp add: comp_def upt_rec)

end
