(* ===== verification/Disconnect.thy ===== *)
theory Disconnect
  imports Dispatch
begin

text \<open>
  Disconnecting a client from the running backend: its subscriptions are ended service by
  service and its cookies are dropped.
\<close>

context boost_library
begin

lemma disconnect_service_ok:
  assumes run: "run_ok elems ordered n b" and k: "unat k < n"
  obtains cd' b' where "disconnect_service x k (cd, b) = (Inr (), (cd', b'))" "run_ok elems ordered n b'"
    "same_control b b'" "cd_rpc_active cd' = cd_rpc_active cd"
    "cookies_abs (m_client_service_cookies b') = (cookies_abs (m_client_service_cookies b))((unat k, x) := None)"
    "table_shape (m_services b') = table_shape (m_services b)"
proof -
  note r = run_okD [OF run]
  let ?c = "cookie_of (m_client_service_cookies b) (unat k) x"
  obtain v1 where v1: "create_or_retrieve_cookie k x (m_client_service_cookies b) = Inr (?c, v1)" "cookies_ok n v1"
    "cookies_abs v1 = (cookies_abs (m_client_service_cookies b))((unat k, x) \<mapsto> ?c)"
    using ck.obt_spec [OF r(1) k, of x] unfolding cookie_of_def by blast
  obtain s where s: "service_at k b = Inr s" "at_ordinal (m_services b) k = Some (Some s)" "service_wf elems ordered s"
    "map_option snd (oid_abs (m_services b) (unat k)) = Some (Some s)" "is_basic s = (unat k = 0)"
    using run k by (rule run_ok_service)
  have drop: "\<exists>v. ebind (cookie_write k x c v1) (delete_cookie k x) = Inr v \<and> cookies_ok n (snd v) \<and>
      cookies_abs (snd v) = (cookies_abs (m_client_service_cookies b))((unat k, x) := None)" for c
  proof -
    have "cookies_abs v1 (unat k, x) = Some ?c" using v1(3) by simp
    from ck.wr_spec [OF v1(2) k this, of c] obtain v2 where v2: "cookie_write k x c v1 = Inr v2" "cookies_ok n v2"
      "cookies_abs v2 = (cookies_abs (m_client_service_cookies b))((unat k, x) \<mapsto> c)" using v1(3) by auto
    from ck.del_spec [OF v2(2) k, of x] show ?thesis using v2 by auto
  qed
  show ?thesis
  proof (cases "is_subscribed ?c")
    case True
    obtain s' cc cd' where un: "service_unsubscribe s ?c cd = (s', cc, cd')" by (metis prod_cases3)
    note kp = service_unsubscribe_keeps [OF s(3) un]
    note shape = table_shape_store [OF run s(4) kp(4)]
    obtain o1 v where v: "ebind (cookie_write k x (destroy_cookie cc) v1) (delete_cookie k x) = Inr (o1, v)" "cookies_ok n v"
      "cookies_abs v = (cookies_abs (m_client_service_cookies b))((unat k, x) := None)"
      using drop [of "destroy_cookie cc"] by auto
    have basic: "is_basic s' = (unat k = 0)" using kp(3) s(5) by simp
    let ?b = "(store_service k s' b)\<lparr>m_client_service_cookies := v\<rparr>"
    have eq: "disconnect_service x k (cd, b) = (Inr (), (cd', ?b))"
      using v1(1) s(2) True un v(1) by (simp add: disconnect_service_def Let_def store_service_def)
    show ?thesis
      by (rule that [OF eq run_ok_cookies [OF run_ok_store [OF run k kp(2) basic] v(2)]]) (simp_all add: kp(1) v(3) shape)
  next
    case False
    obtain o1 v where v: "ebind (cookie_write k x (destroy_cookie ?c) v1) (delete_cookie k x) = Inr (o1, v)" "cookies_ok n v"
      "cookies_abs v = (cookies_abs (m_client_service_cookies b))((unat k, x) := None)"
      using drop [of "destroy_cookie ?c"] by auto
    have eq: "disconnect_service x k (cd, b) = (Inr (), (cd, b\<lparr>m_client_service_cookies := v\<rparr>))"
      using v1(1) s(2) False v(1) by (simp add: disconnect_service_def Let_def)
    show ?thesis
      by (rule that [OF eq run_ok_cookies [OF run v(2)]]) (simp_all add: v(3))
  qed
qed

lemma disconnect_services_ok:
  assumes "run_ok elems ordered n b" "set is \<subseteq> {..<n}"
  shows "\<exists>cd' b'. disconnect_services x is (cd, b) = (Inr (), (cd', b')) \<and> run_ok elems ordered n b' \<and>
    same_control b b' \<and> cd_rpc_active cd' = cd_rpc_active cd \<and>
    table_shape (m_services b') = table_shape (m_services b) \<and>
    (\<forall>j y. cookies_abs (m_client_service_cookies b') (j, y) =
       (if y = x \<and> j \<in> set is then None else cookies_abs (m_client_service_cookies b) (j, y)))"
  using assms
proof (induction "is" arbitrary: cd b)
  case (Cons i "is")
  have n: "n \<le> 65536" using Cons.prems(1) by (rule run_okD)
  have "i < n" using Cons.prems(2) by simp
  then have i: "unat (of_nat i :: uint16) = i" "unat (of_nat i :: uint16) < n" using n by simp_all
  obtain cd1 b1 where d: "disconnect_service x (of_nat i) (cd, b) = (Inr (), (cd1, b1))" "run_ok elems ordered n b1"
    "same_control b b1" "cd_rpc_active cd1 = cd_rpc_active cd"
    "cookies_abs (m_client_service_cookies b1) = (cookies_abs (m_client_service_cookies b))((i, x) := None)"
    "table_shape (m_services b1) = table_shape (m_services b)"
    by (rule disconnect_service_ok [OF Cons.prems(1) i(2), of x cd]) (simp add: i(1))
  obtain cd2 b2 where "disconnect_services x is (cd1, b1) = (Inr (), (cd2, b2))" "run_ok elems ordered n b2"
    "same_control b1 b2" "cd_rpc_active cd2 = cd_rpc_active cd1" "table_shape (m_services b2) = table_shape (m_services b1)"
    "\<forall>j y. cookies_abs (m_client_service_cookies b2) (j, y) =
       (if y = x \<and> j \<in> set is then None else cookies_abs (m_client_service_cookies b1) (j, y))"
    using Cons.IH [OF d(2), of cd1] Cons.prems(2) by auto
  then show ?case using d same_control_trans [OF d(3)] by auto
qed simp

text \<open>The whole of \<open>disconnect\<close> on a running backend.\<close>

lemma BackEnd_disconnect_ok:
  assumes run: "run_ok elems ordered n b" "\<not> m_io_stopped b" "x \<in> m_connected_clients b"
  obtains cd' b1 where "BackEnd_disconnect x (cd, b) = (Inr (), (cd', b1\<lparr>m_connected_clients := m_connected_clients b - {x}\<rparr>))"
    "run_ok elems ordered n b1" "same_control b b1" "cd_rpc_active cd' = cd_rpc_active cd"
    "table_shape (m_services b1) = table_shape (m_services b)"
    "\<forall>j y. cookies_abs (m_client_service_cookies b1) (j, y) =
       (if y = x \<and> 0 < j then None else cookies_abs (m_client_service_cookies b) (j, y))"
proof -
  have n: "OidContainer_size (m_services b) = n" "m_is_sealed b" "length (m_client_service_cookies b) = n"
    using run(1) run_okD(1) [OF run(1)] by (simp_all add: run_okD) (simp_all add: run_ok_def cookies_ok_def)
  have "set [1..<n] \<subseteq> {..<n}" by auto
  then obtain cd' b1 where d: "disconnect_services x [1..<n] (cd, b) = (Inr (), (cd', b1))" "run_ok elems ordered n b1"
    "same_control b b1" "cd_rpc_active cd' = cd_rpc_active cd" "table_shape (m_services b1) = table_shape (m_services b)"
    "\<forall>j y. cookies_abs (m_client_service_cookies b1) (j, y) =
       (if y = x \<and> j \<in> set [1..<n] then None else cookies_abs (m_client_service_cookies b) (j, y))"
    using disconnect_services_ok [OF run(1), of "[1..<n]" x cd] by blast
  have eq: "BackEnd_disconnect x (cd, b) = (Inr (), (cd', b1\<lparr>m_connected_clients := m_connected_clients b - {x}\<rparr>))"
    using n run(2,3) d(1) same_controlD(3) [OF d(3)] by (simp add: BackEnd_disconnect_def clients_erase_def Let_def)
  have "cookies_abs (m_client_service_cookies b) (j, y) = None" if "n \<le> j" for j y
    using that n(3) by (simp add: cookies_abs_def)
  then have "cookies_abs (m_client_service_cookies b1) (j, y) =
      (if y = x \<and> 0 < j then None else cookies_abs (m_client_service_cookies b) (j, y))" for j y
    using d(6) by (cases "j < n") auto
  then have all: "\<forall>j y. cookies_abs (m_client_service_cookies b1) (j, y) =
      (if y = x \<and> 0 < j then None else cookies_abs (m_client_service_cookies b) (j, y))" by blast
  show ?thesis using eq d(2-5) all by (rule that)
qed

end

section \<open>Properties\<close>

text \<open>
  C22: disconnecting. On a running backend, a connected client is disconnected without an
  exception: it is gone from the connected clients, it has no cookie and so no subscription for
  any service but service 0 any more, its cookie for service 0 is still there if it had one, and
  the cookies of all other clients are unchanged.
\<close>
theorem disconnect_cleans_up:
  assumes "boost_library L elems ordered" "run_ok elems ordered n b" "\<not> m_io_stopped b" "x \<in> m_connected_clients b"
  shows "\<exists>cd' b'. BackEnd_disconnect x (cd, b) = (Inr (), (cd', b')) \<and> run_ok elems ordered n b' \<and>
    m_connected_clients b' = m_connected_clients b - {x} \<and>
    m_synchronised_state b' = m_synchronised_state b \<and>
    (\<forall>k. 0 < k \<longrightarrow> cookies_abs (m_client_service_cookies b') (k, x) = None) \<and>
    cookies_abs (m_client_service_cookies b') (0, x) = cookies_abs (m_client_service_cookies b) (0, x) \<and>
    (\<forall>j y. y \<noteq> x \<longrightarrow> cookies_abs (m_client_service_cookies b') (j, y) = cookies_abs (m_client_service_cookies b) (j, y))"
proof -
  obtain cd' b1 where d: "BackEnd_disconnect x (cd, b) = (Inr (), (cd', b1\<lparr>m_connected_clients := m_connected_clients b - {x}\<rparr>))"
    "run_ok elems ordered n b1" "same_control b b1"
    "\<forall>j y. cookies_abs (m_client_service_cookies b1) (j, y) =
       (if y = x \<and> 0 < j then None else cookies_abs (m_client_service_cookies b) (j, y))"
    by (rule boost_library.BackEnd_disconnect_ok [OF assms, of cd]) blast
  then show ?thesis using same_controlD(1) [OF d(3)] by (simp add: run_ok_def)
qed

theorem disconnect_cleans_up_witness:
  "\<exists>cd' b'. BackEnd_disconnect 7 (ClientData_new, BackEnd_connect 7 backend_2) = (Inr (), (cd', b')) \<and>
     run_ok set lst_ordered 2 b' \<and> 7 \<notin> m_connected_clients b'"
proof -
  have "run_ok set lst_ordered 2 (BackEnd_connect 7 backend_2)" "7 \<in> m_connected_clients (BackEnd_connect 7 backend_2)"
    using backend_2_ok(2) by (simp_all add: BackEnd_connect_def clients_insert_def run_ok_def)
  then show ?thesis
    using disconnect_cleans_up [OF list_boost_library, of 2 "BackEnd_connect 7 backend_2" 7 ClientData_new] backend_2_quiet(3)
    by (fastforce simp: BackEnd_connect_def)
qed

end
