(* ===== verification/In_Process_Invoker.thy ===== *)
theory In_Process_Invoker
  imports Back_End
begin

text \<open>
  The invoker for clients inside the server's own process
  (\<^verbatim>\<open>include/rpc/invoker/InProcessInvoker.h\<close>) and the notification object its caller
  waits on.

  An invoker owns its client data and is its own manager, so one number names the invoker, its
  client and its slot in the backend's signal. \<open>invoke()\<close> keeps the invoker's mutex while
  it waits for the call to finish: \<open>ip_mutex\<close> says that a thread is inside, and
  the outcome \<open>Blocked\<close> leaves that thread at the point where it waits, from where
  \<open>ip_after_post\<close> resumes it.
\<close>

section \<open>NotificationObject\<close>

record NotificationObject =
  ready :: bool

definition notification_reset :: "NotificationObject \<Rightarrow> NotificationObject" where
  "notification_reset n = n\<lparr>ready := False\<rparr>"

definition NotificationObject_new :: NotificationObject where
  "NotificationObject_new = \<lparr>ready = False\<rparr>"

definition notify_one :: "NotificationObject \<Rightarrow> NotificationObject" where
  "notify_one n = n\<lparr>ready := True\<rparr>"

definition notify_all :: "NotificationObject \<Rightarrow> NotificationObject" where
  "notify_all n = n\<lparr>ready := True\<rparr>"

text \<open>
  \<open>if(!ready) cond.wait(lock)\<close>: a condition variable may also return from \<open>wait\<close> without
  a notification, which is the case \<open>spurious\<close>; the code does not look at \<open>ready\<close> again.
\<close>

definition wait_for_notification :: "bool \<Rightarrow> NotificationObject \<Rightarrow> (exn, unit) res" where
  "wait_for_notification spurious n = (if \<not> ready n \<and> \<not> spurious then Inl Blocked else Inr ())"

section \<open>InProcessInvoker\<close>

record InProcessInvoker =
  ip_base :: InvokerBase
  ip_notification :: NotificationObject
  ip_connected :: bool
  ip_mutex :: bool

definition InProcessInvoker_members :: InProcessInvoker where
  "InProcessInvoker_members =
     \<lparr>ip_base = InvokerBase_new, ip_notification = NotificationObject_new, ip_connected = False, ip_mutex = False\<rparr>"

definition upd_client :: "(ClientData \<Rightarrow> ClientData) \<Rightarrow> InProcessInvoker \<Rightarrow> InProcessInvoker" where
  "upd_client f i = i\<lparr>ip_base := (ip_base i)\<lparr>inv_client_data := f (inv_client_data (ip_base i))\<rparr>\<rparr>"

definition ip_connect_to_backend :: "cid \<Rightarrow> InProcessInvoker \<times> ('ix, 'st, 'ck, 'm) BackEnd
    \<Rightarrow> (exn, unit, InProcessInvoker \<times> ('ix, 'st, 'ck, 'm) BackEnd) sres" where
  "ip_connect_to_backend x w =
     (case w of (i, b) \<Rightarrow>
        if ip_connected i then (Inl AssertionFailed, (i, b))
        else (Inr (), (i\<lparr>ip_connected := True\<rparr>, BackEnd_connect x b)))"

definition InProcessInvoker_new :: "cid \<Rightarrow> ('ix, 'st, 'ck, 'm) BackEnd
    \<Rightarrow> (exn, unit, InProcessInvoker \<times> ('ix, 'st, 'ck, 'm) BackEnd) sres" where
  "InProcessInvoker_new x b =
     register_invoker_manager (ip_connect_to_backend x) x (InProcessInvoker_members, b)"

definition ip_is_connected :: "InProcessInvoker \<Rightarrow> bool" where
  "ip_is_connected i = ip_connected i"

definition ip_disconnect_from_backend :: "cid \<Rightarrow> InProcessInvoker \<times> ('ix, 'st, 'ck, 'm) BackEnd
    \<Rightarrow> (exn, unit, InProcessInvoker \<times> ('ix, 'st, 'ck, 'm) BackEnd) sres" where
  "ip_disconnect_from_backend x w =
     (case w of (i, b) \<Rightarrow>
        if ip_mutex i then (Inl Blocked, (i, b))
        else sbind
          (if ip_connected i
           then (case BackEnd_disconnect x (inv_client_data (ip_base i), b) of
                   (Inl e, (cd, b)) \<Rightarrow> (Inl e, (upd_client (\<lambda>_. cd) i, b))
                 | (Inr _, (cd, b)) \<Rightarrow> (Inr (), ((upd_client (\<lambda>_. cd) i)\<lparr>ip_connected := False\<rparr>, b)))
           else (Inr (), (i, b)))
          (\<lambda>_ (i, b). (Inr (), (i, upd_sync (snd \<circ> connection_disconnect x) b))))"

text \<open>The destructor; \<open>unique\<close> is \<open>m_client_data.unique()\<close>.\<close>

definition ip_destroy :: "bool \<Rightarrow> cid \<Rightarrow> InProcessInvoker \<times> ('ix, 'st, 'ck, 'm) BackEnd
    \<Rightarrow> (exn, unit, InProcessInvoker \<times> ('ix, 'st, 'ck, 'm) BackEnd) sres" where
  "ip_destroy unique x w =
     (if unique \<and> ip_connected (fst w) then ip_disconnect_from_backend x w else (Inr (), w))"

definition ip_is_useable :: "InProcessInvoker \<times> ('ix, 'st, 'ck, 'm) BackEnd \<Rightarrow> bool" where
  "ip_is_useable w = is_useable (snd w)"

definition ip_reset :: "InProcessInvoker \<Rightarrow> (exn, unit, InProcessInvoker) sres" where
  "ip_reset i =
     (let i = (upd_client (\<lambda>cd. cd\<lparr>cd_request := ClientRequest_Clear, cd_response := ClientResponse_Clear,
                                   cd_ec := ec_clear\<rparr>) i)
                \<lparr>ip_notification := notification_reset (ip_notification i)\<rparr>
      in if cd_rpc_active (inv_client_data (ip_base i)) then (Inl AssertionFailed, i) else (Inr (), i))"

text \<open>Waiting for the end of a posted call, then leaving \<open>invoke()\<close>, which releases the mutex.\<close>

definition ip_after_post :: "bool \<Rightarrow> InProcessInvoker \<Rightarrow> (exn, bool, InProcessInvoker) sres" where
  "ip_after_post spurious i =
     (case wait_for_notification spurious (ip_notification i) of
        Inl e \<Rightarrow> (Inl e, i)
      | Inr _ \<Rightarrow> (Inr False, i\<lparr>ip_mutex := False\<rparr>))"

definition ip_invoke :: "protobuf \<Rightarrow> cid \<Rightarrow> InProcessInvoker \<times> ('ix, 'st, 'ck, 'm) BackEnd
    \<Rightarrow> (exn, bool, InProcessInvoker \<times> ('ix, 'st, 'ck, 'm) BackEnd) sres" where
  "ip_invoke P x w =
     (case w of (i, b) \<Rightarrow>
        if ip_mutex i then (Inl Blocked, (i, b))
        else if \<not> ip_connected i then (Inl (InvokerException None), (i, b))
        else (case invoke P x (ip_base i, b) of
                (Inl e, (base, b)) \<Rightarrow> (Inl e, (i\<lparr>ip_base := base\<rparr>, b))
              | (Inr finished, (base, b)) \<Rightarrow>
                  if finished then (Inr True, (i\<lparr>ip_base := base\<rparr>, b))
                  else (case ip_after_post False (i\<lparr>ip_base := base, ip_mutex := True\<rparr>) of
                          (r, i) \<Rightarrow> (r, (i, b)))))"

text \<open>\<open>operator()\<close>, which a pool thread runs: dispatch, \<open>end_rpc\<close>, notification.\<close>

definition ip_operator :: "protobuf \<Rightarrow> cid \<Rightarrow> InProcessInvoker \<times> ('ix, 'st, 'ck, 'm) BackEnd
    \<Rightarrow> (exn, unit, InProcessInvoker \<times> ('ix, 'st, 'ck, 'm) BackEnd) sres" where
  "ip_operator P x w =
     (case w of (i, b) \<Rightarrow>
        case run_invoker P x (ip_base i, b) of
          (Inl e, (base, b)) \<Rightarrow> (Inl e, (i\<lparr>ip_base := base\<rparr>, b))
        | (Inr _, (base, b)) \<Rightarrow>
            (Inr (), (i\<lparr>ip_base := base, ip_notification := notify_one (ip_notification i)\<rparr>, b)))"

text \<open>A pool thread takes the handler of \<open>x\<close> from the I/O service.\<close>

definition io_take :: "cid \<Rightarrow> ('ix, 'st, 'ck, 'm) BackEnd \<Rightarrow> ('ix, 'st, 'ck, 'm) BackEnd" where
  "io_take x b = b\<lparr>m_io_posted := remove1 x (m_io_posted b)\<rparr>"

section \<open>First facts\<close>

lemma upd_client_simps [simp]:
  "inv_client_data (ip_base (upd_client f i)) = f (inv_client_data (ip_base i))"
  "ip_connected (upd_client f i) = ip_connected i" "ip_mutex (upd_client f i) = ip_mutex i"
  "ip_notification (upd_client f i) = ip_notification i"
  "inv_service (ip_base (upd_client f i)) = inv_service (ip_base i)"
  "inv_client_cookie (ip_base (upd_client f i)) = inv_client_cookie (ip_base i)"
  by (simp_all add: upd_client_def)

lemma notify_wakes [simp]: "wait_for_notification sp (notify_one n) = Inr ()"
  by (simp add: wait_for_notification_def notify_one_def)

lemma reset_waits [simp]: "wait_for_notification False (notification_reset n) = Inl Blocked"
  by (simp add: wait_for_notification_def notification_reset_def)

lemma io_take_simps [simp]:
  "m_services (io_take x b) = m_services b" "m_client_service_cookies (io_take x b) = m_client_service_cookies b"
  "m_is_sealed (io_take x b) = m_is_sealed b" "m_synchronised_state (io_take x b) = m_synchronised_state b"
  "m_io_posted (io_take x b) = remove1 x (m_io_posted b)" "m_connected_clients (io_take x b) = m_connected_clients b"
  "m_io_stopped (io_take x b) = m_io_stopped b"
  by (simp_all add: io_take_def)

end
