(* ===== verification/System.thy ===== *)
theory System
  imports Call_Properties Disconnect In_Process_Invoker
begin

text \<open>
  Several in-process clients and the thread pool working on one backend: the interleavings of
  creating invokers, preparing requests, calling, running posted handlers, waking waiting
  callers, disconnecting, and pausing the backend.

  Each step is what one thread does between two points where it may be overtaken: the backend's
  shared state is under its mutex, a posted call is a handler in the I/O service until a pool
  thread takes it, and a caller waits in \<open>after_post\<close> with its invoker's mutex. One
  thread drives each invoker.

  \<open>sys_step\<close> are the steps of clients that work as the generated stubs do: they reset the invoker before each
  request, and their ordinals have 16 bits. The code does not enforce this, nor does it guard its wait against spurious wake-ups:
  \<open>sys_event\<close> adds the three kinds of step that leave this discipline.
\<close>

section \<open>State and steps\<close>

record ('ix, 'st, 'ck, 'm) System =
  sys_backend :: "('ix, 'st, 'ck, 'm) BackEnd"
  sys_invokers :: "cid \<rightharpoonup> InProcessInvoker"

definition put :: "cid \<Rightarrow> InProcessInvoker \<Rightarrow> ('ix, 'st, 'ck, 'm) BackEnd \<Rightarrow> ('ix, 'st, 'ck, 'm) System
    \<Rightarrow> ('ix, 'st, 'ck, 'm) System" where
  "put x i b s = s\<lparr>sys_backend := b, sys_invokers := (sys_invokers s)(x \<mapsto> i)\<rparr>"

definition outcome :: "(exn, 'a) res \<Rightarrow> exn option" where
  "outcome r = (case r of Inl e \<Rightarrow> Some e | Inr a \<Rightarrow> None)"

definition set_request :: "ClientRequest \<Rightarrow> InProcessInvoker \<Rightarrow> InProcessInvoker" where
  "set_request rq i = upd_client (\<lambda>cd. cd\<lparr>cd_request := rq\<rparr>) i"

text \<open>Ordinals that survive the narrowing to 16 bits.\<close>

definition narrow :: "ClientRequest \<Rightarrow> bool" where
  "narrow rq \<longleftrightarrow> unat (service_ordinal rq) < 65536 \<and> unat (request_ordinal rq) < 65536"

inductive sys_step :: "protobuf \<Rightarrow> ('ix, 'st, 'ck, 'm) System \<Rightarrow> exn option \<Rightarrow> ('ix, 'st, 'ck, 'm) System \<Rightarrow> bool"
  for P where
  create: "sys_invokers s x = None \<Longrightarrow> InProcessInvoker_new x (sys_backend s) = (r, (i, b)) \<Longrightarrow>
    sys_step P s (outcome r) (put x i b s)"
| prepare: "sys_invokers s x = Some i \<Longrightarrow> \<not> ip_mutex i \<Longrightarrow> narrow rq \<Longrightarrow> ip_reset i = (r, i') \<Longrightarrow>
    sys_step P s (outcome r) (put x (set_request rq i') (sys_backend s) s)"
| call: "sys_invokers s x = Some i \<Longrightarrow> \<not> ip_mutex i \<Longrightarrow> \<not> ready (ip_notification i) \<Longrightarrow>
    ip_invoke P x (i, sys_backend s) = (r, (i', b')) \<Longrightarrow> sys_step P s (outcome r) (put x i' b' s)"
| run: "sys_invokers s x = Some i \<Longrightarrow> x \<in> set (m_io_posted (sys_backend s)) \<Longrightarrow>
    ip_operator P x (i, io_take x (sys_backend s)) = (r, (i', b')) \<Longrightarrow> sys_step P s (outcome r) (put x i' b' s)"
| wake: "sys_invokers s x = Some i \<Longrightarrow> ip_mutex i \<Longrightarrow> ip_after_post False i = (r, i') \<Longrightarrow>
    sys_step P s (outcome r) (put x i' (sys_backend s) s)"
| leave: "sys_invokers s x = Some i \<Longrightarrow> ip_disconnect_from_backend x (i, sys_backend s) = (r, (i', b')) \<Longrightarrow>
    sys_step P s (outcome r) (put x i' b' s)"
| pause: "sys_step P s None (s\<lparr>sys_backend := pause_requests (sys_backend s)\<rparr>)"
| resume: "sys_step P s None (s\<lparr>sys_backend := resume_requests (sys_backend s)\<rparr>)"

inductive reachable :: "protobuf \<Rightarrow> ('ix, 'st, 'ck, 'm) System \<Rightarrow> ('ix, 'st, 'ck, 'm) System \<Rightarrow> bool" for P s0 where
  start: "reachable P s0 s0"
| more: "reachable P s0 s \<Longrightarrow> sys_step P s r s' \<Longrightarrow> reachable P s0 s'"

text \<open>
  All steps that the code admits. The flag says whether the step keeps to the discipline: it does not when a request has an ordinal
  that is wider than 16 bits, when an invoker is called again without a reset, and when a wait ends spuriously.
\<close>

inductive sys_event :: "protobuf \<Rightarrow> ('ix, 'st, 'ck, 'm) System \<Rightarrow> bool \<Rightarrow> exn option \<Rightarrow> ('ix, 'st, 'ck, 'm) System \<Rightarrow> bool"
  for P where
  regular: "sys_step P s r s' \<Longrightarrow> sys_event P s True r s'"
| wide: "sys_invokers s x = Some i \<Longrightarrow> \<not> ip_mutex i \<Longrightarrow> \<not> narrow rq \<Longrightarrow> ip_reset i = (r, i') \<Longrightarrow>
    sys_event P s False (outcome r) (put x (set_request rq i') (sys_backend s) s)"
| stale: "sys_invokers s x = Some i \<Longrightarrow> \<not> ip_mutex i \<Longrightarrow> ready (ip_notification i) \<Longrightarrow>
    ip_invoke P x (i, sys_backend s) = (r, (i', b')) \<Longrightarrow> sys_event P s False (outcome r) (put x i' b' s)"
| spurious: "sys_invokers s x = Some i \<Longrightarrow> ip_mutex i \<Longrightarrow> \<not> ready (ip_notification i) \<Longrightarrow> ip_after_post True i = (r, i') \<Longrightarrow>
    sys_event P s False (outcome r) (put x i' (sys_backend s) s)"

inductive_cases sys_event_regularE: "sys_event P s True r s'"

text \<open>A run, and whether all of its steps kept to the discipline.\<close>

inductive sys_run :: "protobuf \<Rightarrow> ('ix, 'st, 'ck, 'm) System \<Rightarrow> bool \<Rightarrow> ('ix, 'st, 'ck, 'm) System \<Rightarrow> bool" for P s0 where
  start: "sys_run P s0 True s0"
| more: "sys_run P s0 d s \<Longrightarrow> sys_event P s k r s' \<Longrightarrow> sys_run P s0 (d \<and> k) s'"

lemma sys_run_reachable: "sys_run P s0 d s \<Longrightarrow> d \<Longrightarrow> reachable P s0 s"
  by (induction rule: sys_run.induct) (auto intro: reachable.intros elim: sys_event_regularE)

section \<open>Invariant\<close>

text \<open>
  A posted call can be dispatched: the pointers left in the invoker are those of one service,
  which has the requested method, and the cookie is in the store. A hello request is posted
  only while the client is not established.
\<close>

definition callable :: "('ix, 'st, 'ck, 'm) BackEnd \<Rightarrow> cid \<Rightarrow> InvokerBase \<Rightarrow> bool" where
  "callable b x i \<longleftrightarrow>
     (\<exists>k nm sn t td. inv_service i = Some k \<and> inv_client_cookie i = Some k \<and>
        table_shape (m_services b) (unat k) = Some (nm, Some (sn, t, td)) \<and>
        at_ordinal t (ucast (request_ordinal (cd_request (inv_client_data i)))) \<noteq> None \<and>
        cookies_abs (m_client_service_cookies b) (unat k, x) \<noteq> None \<and>
        (td = None \<and> (ucast (request_ordinal (cd_request (inv_client_data i))) :: uint16) = 0 \<longrightarrow>
           \<not> cd_client_established (inv_client_data i)))"

definition client_ok :: "('ix, 'st, 'ck, 'm) BackEnd \<Rightarrow> cid \<Rightarrow> InProcessInvoker \<Rightarrow> bool" where
  "client_ok b x i \<longleftrightarrow>
     (cd_rpc_active (inv_client_data (ip_base i)) \<longleftrightarrow> x \<in> set (m_io_posted b)) \<and>
     (ip_mutex i \<and> \<not> ready (ip_notification i) \<longleftrightarrow> x \<in> set (m_io_posted b)) \<and>
     (ip_connected i \<longleftrightarrow> x \<in> m_connected_clients b) \<and>
     (ip_connected i \<longleftrightarrow> x \<in> set (f_disc_invoker_sig (m_synchronised_state b))) \<and>
     (x \<in> set (m_io_posted b) \<longrightarrow> callable b x (ip_base i)) \<and>
     (ip_connected i \<and> \<not> ready (ip_notification i) \<longrightarrow> narrow (cd_request (inv_client_data (ip_base i))))"

definition pool_ok :: "('ix \<Rightarrow> nat set) \<Rightarrow> ((nat \<Rightarrow> OidName) \<Rightarrow> 'ix \<Rightarrow> bool) \<Rightarrow> nat
    \<Rightarrow> ('ix, 'st, 'ck, 'm) BackEnd \<Rightarrow> bool" where
  "pool_ok elems ordered n b \<longleftrightarrow>
     run_ok elems ordered n b \<and> \<not> m_io_stopped b \<and> distinct (m_io_posted b) \<and>
     rpc_count (m_synchronised_state b) = int (length (m_io_posted b)) \<and>
     distinct (f_disc_invoker_sig (m_synchronised_state b))"

definition sys_ok :: "('ix \<Rightarrow> nat set) \<Rightarrow> ((nat \<Rightarrow> OidName) \<Rightarrow> 'ix \<Rightarrow> bool) \<Rightarrow> nat
    \<Rightarrow> ('ix, 'st, 'ck, 'm) System \<Rightarrow> bool" where
  "sys_ok elems ordered n s \<longleftrightarrow>
     pool_ok elems ordered n (sys_backend s) \<and>
     (\<forall>x i. sys_invokers s x = Some i \<longrightarrow> client_ok (sys_backend s) x i) \<and>
     set (m_io_posted (sys_backend s)) \<union> m_connected_clients (sys_backend s) \<union>
       set (f_disc_invoker_sig (m_synchronised_state (sys_backend s))) \<subseteq> dom (sys_invokers s)"

text \<open>What a step of client \<open>x\<close> leaves alone of the others.\<close>

definition others_kept :: "cid \<Rightarrow> ('ix, 'st, 'ck, 'm) BackEnd \<Rightarrow> ('ix, 'st, 'ck, 'm) BackEnd \<Rightarrow> bool" where
  "others_kept x b b' \<longleftrightarrow>
     table_shape (m_services b') = table_shape (m_services b) \<and>
     (\<forall>y. y \<noteq> x \<longrightarrow>
        (y \<in> set (m_io_posted b') \<longleftrightarrow> y \<in> set (m_io_posted b)) \<and>
        (y \<in> m_connected_clients b' \<longleftrightarrow> y \<in> m_connected_clients b) \<and>
        (y \<in> set (f_disc_invoker_sig (m_synchronised_state b')) \<longleftrightarrow>
           y \<in> set (f_disc_invoker_sig (m_synchronised_state b))) \<and>
        (\<forall>j. cookies_abs (m_client_service_cookies b) (j, y) \<noteq> None \<longrightarrow>
           cookies_abs (m_client_service_cookies b') (j, y) \<noteq> None))"

lemma client_ok_kept: "others_kept x b b' \<Longrightarrow> y \<noteq> x \<Longrightarrow> client_ok b y i \<Longrightarrow> client_ok b' y i"
  unfolding client_ok_def others_kept_def callable_def by metis

text \<open>A step of one client keeps the invariant if it does so for the pool and for that client.\<close>

lemma sys_ok_put:
  assumes "sys_ok elems ordered n s" "others_kept x (sys_backend s) b'" "pool_ok elems ordered n b'" "client_ok b' x i'"
  shows "sys_ok elems ordered n (put x i' b' s)"
proof -
  have "\<forall>y i. sys_invokers (put x i' b' s) y = Some i \<longrightarrow> client_ok b' y i"
    using assms client_ok_kept [OF assms(2)] by (auto simp: sys_ok_def put_def)
  moreover have "set (m_io_posted b') \<union> m_connected_clients b' \<union> set (f_disc_invoker_sig (m_synchronised_state b')) \<subseteq>
      dom (sys_invokers (put x i' b' s))"
    using assms(1,2) unfolding sys_ok_def others_kept_def put_def by auto
  ultimately show ?thesis using assms(3) by (simp add: sys_ok_def put_def)
qed

lemma sys_ok_client: "sys_ok elems ordered n s \<Longrightarrow> sys_invokers s x = Some i \<Longrightarrow> client_ok (sys_backend s) x i"
  by (simp add: sys_ok_def)

lemma others_kept_refl [simp]: "others_kept x b b"
  by (simp add: others_kept_def)

section \<open>The steps keep the invariant\<close>

text \<open>Outcomes that are not failures: returning, waiting, and calling a disconnected invoker.\<close>

definition benign :: "exn option \<Rightarrow> bool" where
  "benign r \<longleftrightarrow> r \<in> {None, Some Blocked, Some (InvokerException None)}"

lemma outcome_simps [simp]: "outcome (Inl e) = Some e" "outcome (Inr a) = None"
  by (simp_all add: outcome_def)

lemma benign_simps [simp]: "benign None" "benign (Some Blocked)" "benign (Some (InvokerException None))"
  by (simp_all add: benign_def)

lemma create_ok:
  assumes "sys_ok elems ordered n s" "sys_invokers s x = None" "InProcessInvoker_new x (sys_backend s) = (r, (i, b))"
  shows "benign (outcome r) \<and> sys_ok elems ordered n (put x i b s)"
proof -
  have x: "x \<notin> set (m_io_posted (sys_backend s))" "x \<notin> m_connected_clients (sys_backend s)"
    "x \<notin> set (f_disc_invoker_sig (m_synchronised_state (sys_backend s)))"
    using assms(1,2) unfolding sys_ok_def by blast+
  have eq: "r = Inr ()" "i = InProcessInvoker_members\<lparr>ip_connected := True\<rparr>"
    "b = upd_sync (sig_connect x) (BackEnd_connect x (sys_backend s))"
    using assms(3) by (auto simp: InProcessInvoker_new_def register_invoker_manager_def ip_connect_to_backend_def
        InProcessInvoker_members_def)
  have "others_kept x (sys_backend s) b"
    by (simp add: eq others_kept_def BackEnd_connect_def clients_insert_def sync_defs)
  moreover have "pool_ok elems ordered n b"
    using assms(1) x by (simp add: eq sys_ok_def pool_ok_def run_ok_def BackEnd_connect_def sync_defs)
  moreover have "client_ok b x i"
    using x by (simp add: eq client_ok_def BackEnd_connect_def clients_insert_def sync_defs narrow_def
        InProcessInvoker_members_def InvokerBase_new_def ClientData_new_def ClientRequest_Clear_def NotificationObject_new_def)
  ultimately show ?thesis using sys_ok_put [OF assms(1)] eq(1) by simp
qed

lemma prepare_ok:
  assumes "sys_ok elems ordered n s" "sys_invokers s x = Some i" "\<not> ip_mutex i" "narrow rq" "ip_reset i = (r, i')"
  shows "benign (outcome r) \<and> sys_ok elems ordered n (put x (set_request rq i') (sys_backend s) s)"
proof -
  have c: "client_ok (sys_backend s) x i" using assms(1,2) by (rule sys_ok_client)
  then have idle: "x \<notin> set (m_io_posted (sys_backend s))" "\<not> cd_rpc_active (inv_client_data (ip_base i))"
    using assms(3) by (auto simp: client_ok_def)
  then have "r = Inr ()" "client_ok (sys_backend s) x (set_request rq i')"
    using c assms(3-5) by (auto simp: ip_reset_def Let_def client_ok_def set_request_def notification_reset_def)
  then show ?thesis using sys_ok_put [OF assms(1) others_kept_refl, of x "set_request rq i'"] assms(1)
    by (simp add: sys_ok_def)
qed

lemma wake_ok:
  assumes "sys_ok elems ordered n s" "sys_invokers s x = Some i" "ip_mutex i" "ip_after_post False i = (r, i')"
  shows "benign (outcome r) \<and> sys_ok elems ordered n (put x i' (sys_backend s) s)"
proof -
  have c: "client_ok (sys_backend s) x i" using assms(1,2) by (rule sys_ok_client)
  then have "client_ok (sys_backend s) x i'" "benign (outcome r)"
    using assms(3,4) by (auto simp: client_ok_def ip_after_post_def wait_for_notification_def split: if_splits)
  then show ?thesis using sys_ok_put [OF assms(1) others_kept_refl, of x i'] assms(1) by (simp add: sys_ok_def)
qed

lemma client_ok_upd_sync:
  "f_disc_invoker_sig (f (m_synchronised_state b)) = f_disc_invoker_sig (m_synchronised_state b) \<Longrightarrow>
     client_ok (upd_sync f b) x i = client_ok b x i"
  by (simp add: client_ok_def callable_def)

lemma gate_ok:
  assumes "sys_ok elems ordered n s"
  shows "sys_ok elems ordered n (s\<lparr>sys_backend := pause_requests (sys_backend s)\<rparr>)"
    "sys_ok elems ordered n (s\<lparr>sys_backend := resume_requests (sys_backend s)\<rparr>)"
  using assms
  by (simp_all add: sys_ok_def pool_ok_def run_ok_def pause_requests_def resume_requests_def client_ok_upd_sync sync_defs)

text \<open>What \<open>invoke\<close> posted can be dispatched.\<close>

lemma posted_callable:
  assumes run: "run_ok elems ordered n b" and posted: "verdict_of x i b = Posted"
    and after: "after_call P Posted x n (i, b) (i', b')" and small: "narrow (cd_request (inv_client_data i))"
  shows "callable b' x i'"
proof -
  note a = after_callD [OF after]
  let ?r = "cd_request (inv_client_data i)"
  obtain sv where sv: "unat (ucast (service_ordinal ?r) :: uint16) < n"
    "at_ordinal (m_services b) (ucast (service_ordinal ?r)) = Some (Some sv)" "service_wf elems ordered sv"
    "contains_function_at_ordinal sv (ucast (request_ordinal ?r))"
    "is_basic sv = (unat (ucast (service_ordinal ?r) :: uint16) = 0)"
    "is_accepting_requests (m_synchronised_state b)"
    "service_ordinal ?r = 0 \<or> subscribed (m_client_service_cookies b) (unat (service_ordinal ?r) mod 65536) x"
    "cd_client_established (inv_client_data i) \<noteq> (service_ordinal ?r = 0 \<and> request_ordinal ?r = 0)"
    by (rule verdict_Posted [OF run posted])
  let ?k = "ucast (service_ordinal ?r) :: uint16"
  have k: "unat ?k = unat (service_ordinal ?r)" "unat (ucast (request_ordinal ?r) :: uint16) = unat (request_ordinal ?r)"
    using small by (simp_all add: narrow_def unat_ucast_32_16)
  obtain nm where "oid_abs (m_services b) (unat ?k) = Some (nm, Some sv)" using sv(2) by (auto simp: at_ordinal_abs)
  then have "table_shape (m_services b') (unat ?k) = Some (nm, Some (svc_name sv, svc_dispatch_table sv, impl_code sv))"
    using a by (simp add: table_shape_def service_shape_def)
  moreover have "impl_code sv = None \<and> (ucast (request_ordinal ?r) :: uint16) = 0 \<longrightarrow> \<not> cd_client_established (inv_client_data i')"
    using sv(5,8) k a(2) unfolding is_basic_impl_code by (metis unat_0 unsigned_0 word_unat_eq_iff)
  ultimately show ?thesis
    using a(1,13-15) posted sv(4) k small unfolding callable_def contains_function_at_ordinal_def
    by (intro exI [of _ ?k] exI [of _ nm] exI [of _ "svc_name sv"] exI [of _ "svc_dispatch_table sv"] exI [of _ "impl_code sv"])
      (simp add: narrow_def)
qed

lemma call_ok:
  assumes "sys_ok elems ordered n s" "sys_invokers s x = Some i" "\<not> ip_mutex i" "\<not> ready (ip_notification i)"
    "ip_invoke P x (i, sys_backend s) = (r, (i', b'))"
  shows "benign (outcome r) \<and> sys_ok elems ordered n (put x i' b' s)"
proof (cases "ip_connected i")
  case False
  then have "r = Inl (InvokerException None)" "i' = i" "b' = sys_backend s"
    using assms(3,5) by (auto simp: ip_invoke_def)
  then show ?thesis
    using sys_ok_put [OF assms(1) others_kept_refl, of x i] sys_ok_client [OF assms(1,2)] assms(1) by (simp add: sys_ok_def)
next
  case True
  let ?b = "sys_backend s"
  have pool: "pool_ok elems ordered n ?b" and c: "client_ok ?b x i"
    using assms(1,2) by (simp_all add: sys_ok_def)
  then have run: "run_ok elems ordered n ?b" and idle: "\<not> cd_rpc_active (inv_client_data (ip_base i))"
    "x \<notin> set (m_io_posted ?b)" and small: "narrow (cd_request (inv_client_data (ip_base i)))"
    using assms(3,4) True by (auto simp: pool_ok_def client_ok_def)
  let ?v = "verdict_of x (ip_base i) ?b"
  obtain base b1 where inv: "invoke P x (ip_base i, ?b) = (Inr (?v \<noteq> Posted), (base, b1))"
    and after: "after_call P ?v x n (ip_base i, ?b) (base, b1)"
    using invoke_after_call [OF run idle(1), of P x] by auto
  note a = after_callD [OF after]
  have eq: "b' = b1" "i' = i\<lparr>ip_base := base, ip_mutex := (?v = Posted)\<rparr>" "benign (outcome r)"
    using assms(3-5) True inv
    by (auto simp: ip_invoke_def ip_after_post_def wait_for_notification_def split: if_splits)
  have cookies: "cookies_abs (m_client_service_cookies b1) (j, y) \<noteq> None"
    if "cookies_abs (m_client_service_cookies ?b) (j, y) \<noteq> None" for j y
    using that a(12) by blast
  have kept: "others_kept x ?b b'"
    using a(4,5,8,9) cookies unfolding others_kept_def eq(1) by (cases "?v = Posted") simp_all
  have pool': "pool_ok elems ordered n b'" using a pool idle(2) by (auto simp: pool_ok_def run_ok_def eq rpc_count_def)
  have "callable b' x base" if posted: "?v = Posted"
    unfolding eq(1) using posted_callable [OF run posted _ small] after [unfolded posted] .
  then have "client_ok b' x i'" using c a(1,3,5,8,9) idle small assms(3,4) unfolding client_ok_def eq by auto
  then show ?thesis using sys_ok_put [OF assms(1) kept pool'] eq(3) by simp
qed

lemma leave_idle:
  "ip_mutex i \<Longrightarrow> ip_disconnect_from_backend x (i, b) = (Inl Blocked, (i, b))"
  "\<not> ip_mutex i \<Longrightarrow> \<not> ip_connected i \<Longrightarrow> x \<notin> set (f_disc_invoker_sig (m_synchronised_state b)) \<Longrightarrow>
     ip_disconnect_from_backend x (i, b) = (Inr (), (i, b))"
  by (simp_all add: ip_disconnect_from_backend_def sync_defs upd_sync_def)

context boost_library
begin

text \<open>A connected invoker that is not inside a call is disconnected.\<close>

lemma leave_connected:
  assumes "run_ok elems ordered n b" "\<not> m_io_stopped b" "x \<in> m_connected_clients b" "ip_connected i" "\<not> ip_mutex i"
  obtains cd' b1 where "ip_disconnect_from_backend x (i, b) =
      (Inr (), ((upd_client (\<lambda>_. cd') i)\<lparr>ip_connected := False\<rparr>,
        upd_sync (snd \<circ> connection_disconnect x) (b1\<lparr>m_connected_clients := m_connected_clients b - {x}\<rparr>)))"
    "run_ok elems ordered n b1" "same_control b b1" "cd_rpc_active cd' = cd_rpc_active (inv_client_data (ip_base i))"
    "table_shape (m_services b1) = table_shape (m_services b)"
    "\<forall>j y. cookies_abs (m_client_service_cookies b1) (j, y) =
       (if y = x \<and> 0 < j then None else cookies_abs (m_client_service_cookies b) (j, y))"
proof -
  obtain cd' b1 where d: "BackEnd_disconnect x (inv_client_data (ip_base i), b) =
      (Inr (), (cd', b1\<lparr>m_connected_clients := m_connected_clients b - {x}\<rparr>))"
    "run_ok elems ordered n b1" "same_control b b1" "cd_rpc_active cd' = cd_rpc_active (inv_client_data (ip_base i))"
    "table_shape (m_services b1) = table_shape (m_services b)"
    "\<forall>j y. cookies_abs (m_client_service_cookies b1) (j, y) =
       (if y = x \<and> 0 < j then None else cookies_abs (m_client_service_cookies b) (j, y))"
    by (rule BackEnd_disconnect_ok [OF assms(1-3), of "inv_client_data (ip_base i)"])
  have "ip_disconnect_from_backend x (i, b) =
      (Inr (), ((upd_client (\<lambda>_. cd') i)\<lparr>ip_connected := False\<rparr>,
        upd_sync (snd \<circ> connection_disconnect x) (b1\<lparr>m_connected_clients := m_connected_clients b - {x}\<rparr>)))"
    using assms(4,5) d(1) by (simp add: ip_disconnect_from_backend_def)
  then show ?thesis using d(2-6) by (rule that)
qed

end

lemma leave_ok:
  assumes "boost_library L elems ordered" "sys_ok elems ordered n s" "sys_invokers s x = Some i"
    "ip_disconnect_from_backend x (i, sys_backend s) = (r, (i', b'))"
  shows "benign (outcome r) \<and> sys_ok elems ordered n (put x i' b' s)"
proof -
  let ?b = "sys_backend s"
  have c: "client_ok ?b x i" using assms(2,3) by (rule sys_ok_client)
  have pool: "pool_ok elems ordered n ?b" using assms(2) by (simp add: sys_ok_def)
  consider "ip_mutex i" | "\<not> ip_mutex i" "\<not> ip_connected i" | "\<not> ip_mutex i" "ip_connected i" by blast
  then show ?thesis
  proof cases
    case 1
    then have "outcome r = Some Blocked" "i' = i" "b' = ?b" using assms(4) by (auto simp: leave_idle)
    then show ?thesis using sys_ok_put [OF assms(2) others_kept_refl pool c] by simp
  next
    case 2
    then have "outcome r = None" "i' = i" "b' = ?b" using assms(4) c by (auto simp: leave_idle client_ok_def)
    then show ?thesis using sys_ok_put [OF assms(2) others_kept_refl pool c] by simp
  next
    case 3
    have x: "x \<in> m_connected_clients ?b" "x \<notin> set (m_io_posted ?b)" using c 3 by (auto simp: client_ok_def)
    have run: "run_ok elems ordered n ?b" "\<not> m_io_stopped ?b" using pool by (simp_all add: pool_ok_def)
    obtain cd' b1 where d: "ip_disconnect_from_backend x (i, ?b) =
        (Inr (), ((upd_client (\<lambda>_. cd') i)\<lparr>ip_connected := False\<rparr>,
          upd_sync (snd \<circ> connection_disconnect x) (b1\<lparr>m_connected_clients := m_connected_clients ?b - {x}\<rparr>)))"
      "run_ok elems ordered n b1" "same_control ?b b1" "cd_rpc_active cd' = cd_rpc_active (inv_client_data (ip_base i))"
      "table_shape (m_services b1) = table_shape (m_services ?b)"
      "\<forall>j y. cookies_abs (m_client_service_cookies b1) (j, y) =
         (if y = x \<and> 0 < j then None else cookies_abs (m_client_service_cookies ?b) (j, y))"
      by (rule boost_library.leave_connected [OF assms(1) run x(1) 3(2,1)])
    note k = same_controlD [OF d(3)]
    have eq: "r = Inr ()" "i' = (upd_client (\<lambda>_. cd') i)\<lparr>ip_connected := False\<rparr>"
      "b' = upd_sync (snd \<circ> connection_disconnect x) (b1\<lparr>m_connected_clients := m_connected_clients ?b - {x}\<rparr>)"
      using assms(4) d(1) by simp_all
    have sig: "f_disc_invoker_sig (m_synchronised_state b') = removeAll x (f_disc_invoker_sig (m_synchronised_state ?b))"
      "rpc_count (m_synchronised_state b') = rpc_count (m_synchronised_state ?b)"
      by (simp_all add: eq(3) k sync_defs)
    have "others_kept x ?b b'" using d(5,6) sig by (simp add: others_kept_def eq(3) k)
    moreover have "pool_ok elems ordered n b'"
      using d(2) pool sig by (simp add: pool_ok_def run_ok_def distinct_removeAll) (simp add: eq(3) k)
    moreover have "client_ok b' x i'"
      using x c sig d(4) 3(1) by (simp add: client_ok_def eq(2)) (simp add: eq(3) k)
    ultimately show ?thesis using sys_ok_put [OF assms(2)] eq(1) by simp
  qed
qed

context boost_library
begin

text \<open>A posted call that can be dispatched runs to its end.\<close>

lemma run_callable:
  assumes run: "run_ok elems ordered n b" and call: "callable b x i" and act: "cd_rpc_active (inv_client_data i)"
  obtains cd' b1 where "run_invoker P x (i, b) =
      (Inr (), (i\<lparr>inv_client_data := cd'\<lparr>cd_rpc_active := False\<rparr>\<rparr>, upd_sync end_a_request b1))"
    "keeps elems ordered n x (inv_client_data i, b) (cd', b1)"
proof -
  let ?m = "ucast (request_ordinal (cd_request (inv_client_data i))) :: uint16"
  obtain k nm sn t td where c: "inv_service i = Some k" "inv_client_cookie i = Some k"
    "table_shape (m_services b) (unat k) = Some (nm, Some (sn, t, td))" "at_ordinal t ?m \<noteq> None"
    "cookies_abs (m_client_service_cookies b) (unat k, x) \<noteq> None"
    "td = None \<and> ?m = 0 \<longrightarrow> \<not> cd_client_established (inv_client_data i)"
    using call unfolding callable_def by metis
  obtain s where s: "oid_abs (m_services b) (unat k) = Some (nm, Some s)" "service_shape s = (sn, t, td)"
    using c(3) by (auto simp: table_shape_def)
  have at: "at_ordinal (m_services b) k = Some (Some s)" using s(1) by (simp add: at_ordinal_abs)
  have "at_ordinal (m_services b) k \<noteq> None" using at by simp
  then have k: "unat k < n" using table_ok_at_ordinal [OF run_okD(4) [OF run], of k] by linarith
  have "contains_function_at_ordinal s ?m" using c(4) s(2) by (simp add: contains_function_at_ordinal_def service_shape_def)
  moreover have "\<not> cd_client_established (inv_client_data i)" if "svc_impl s = BasicProtocolImpl" "?m = 0"
    using c(6) s(2) that by (auto simp: service_shape_def impl_code_def)
  ultimately obtain cd' b1 where d: "service_dispatch P x k k (inv_client_data i) b = (Inr cd', b1)"
    "keeps elems ordered n x (inv_client_data i, b) (cd', b1)"
    using service_dispatch_keeps [OF run k at _ c(5), of "inv_client_data i" P] by blast
  have "cd_rpc_active cd'" using d(2) act by (simp add: keeps_def)
  then have "run_invoker P x (i, b) =
      (Inr (), (i\<lparr>inv_client_data := cd'\<lparr>cd_rpc_active := False\<rparr>\<rparr>, upd_sync end_a_request b1))"
    using c(1,2) d(1) by (simp add: run_invoker_def BackEnd_end_rpc_def end_rpc_def)
  then show ?thesis using d(2) by (rule that)
qed

lemma run_ok_step:
  assumes "sys_ok elems ordered n s" "sys_invokers s x = Some i" "x \<in> set (m_io_posted (sys_backend s))"
    "ip_operator P x (i, io_take x (sys_backend s)) = (r, (i', b'))"
  shows "outcome r = None \<and> sys_ok elems ordered n (put x i' b' s)"
proof -
  let ?b = "sys_backend s" and ?bt = "io_take x (sys_backend s)"
  have c: "client_ok ?b x i" using assms(1,2) by (rule sys_ok_client)
  have pool: "pool_ok elems ordered n ?b" using assms(1) by (simp add: sys_ok_def)
  have run: "run_ok elems ordered n ?bt" using pool by (simp add: pool_ok_def run_ok_def)
  have call: "callable ?bt x (ip_base i)" "cd_rpc_active (inv_client_data (ip_base i))" "ip_mutex i"
    using c assms(3) by (auto simp: client_ok_def callable_def)
  obtain cd' b1 where d: "run_invoker P x (ip_base i, ?bt) =
      (Inr (), ((ip_base i)\<lparr>inv_client_data := cd'\<lparr>cd_rpc_active := False\<rparr>\<rparr>, upd_sync end_a_request b1))"
    "keeps elems ordered n x (inv_client_data (ip_base i), ?bt) (cd', b1)"
    by (rule run_callable [OF run call(1,2)])
  have eq: "r = Inr ()" "b' = upd_sync end_a_request b1"
    "i' = i\<lparr>ip_base := (ip_base i)\<lparr>inv_client_data := cd'\<lparr>cd_rpc_active := False\<rparr>\<rparr>,
            ip_notification := notify_one (ip_notification i)\<rparr>"
    using assms(4) d(1) by (simp_all add: ip_operator_def)
  have kp: "run_ok elems ordered n b1" "same_control ?bt b1" "table_shape (m_services b1) = table_shape (m_services ?b)"
    "\<forall>j y. y \<noteq> x \<longrightarrow> cookies_abs (m_client_service_cookies b1) (j, y) = cookies_abs (m_client_service_cookies ?b) (j, y)"
    using d(2) by (simp_all add: keeps_def)
  note k = same_controlD [OF kp(2)]
  have dis: "distinct (m_io_posted ?b)" using pool by (simp add: pool_ok_def)
  then have posted: "set (m_io_posted b') = set (m_io_posted ?b) - {x}" "distinct (m_io_posted b')"
    "Suc (length (m_io_posted b')) = length (m_io_posted ?b)"
    using assms(3) length_pos_if_in_set [OF assms(3)] by (simp_all add: eq(2) k length_remove1)
  have sig: "f_disc_invoker_sig (m_synchronised_state b') = f_disc_invoker_sig (m_synchronised_state ?b)"
    "rpc_count (m_synchronised_state b') = rpc_count (m_synchronised_state ?b) - 1"
    by (simp_all add: eq(2) k sync_defs)
  have "others_kept x ?b b'" using kp(3,4) posted(1) sig by (simp add: others_kept_def eq(2) k)
  moreover have "pool_ok elems ordered n b'"
    using kp(1) pool posted sig unfolding pool_ok_def run_ok_def by (simp add: eq(2) k)
  moreover have "client_ok b' x i'"
    using c posted(1) sig call(3) unfolding client_ok_def eq(3) notify_one_def by (auto simp: eq(2) k)
  ultimately show ?thesis using sys_ok_put [OF assms(1)] eq(1) by simp
qed

end

section \<open>Every interleaving\<close>

inductive_cases sys_stepE: "sys_step P s r s'"

lemma sys_step_ok:
  assumes "boost_library L elems ordered" "sys_step P s r s'" "sys_ok elems ordered n s"
  shows "benign r \<and> sys_ok elems ordered n s'"
  using assms(2,3)
proof (induction rule: sys_step.induct)
  case (create s x r i b)
  show ?case by (rule create_ok [OF create(3,1,2)])
next
  case (prepare s x i rq r i')
  show ?case by (rule prepare_ok [OF prepare(5,1-4)])
next
  case (call s x i r i' b')
  show ?case by (rule call_ok [OF call(5,1-4)])
next
  case (run s x i r i' b')
  show ?case using boost_library.run_ok_step [OF assms(1) run(4,1-3)] by simp
next
  case (wake s x i r i')
  show ?case by (rule wake_ok [OF wake(4,1-3)])
next
  case (leave s x i r i' b')
  show ?case by (rule leave_ok [OF assms(1) leave(3,1,2)])
next
  case (pause s)
  then show ?case by (simp add: gate_ok)
next
  case (resume s)
  then show ?case by (simp add: gate_ok)
qed

lemma reachable_ok:
  assumes "boost_library L elems ordered" "reachable P s0 s" "sys_ok elems ordered n s0"
  shows "sys_ok elems ordered n s"
  using assms(2,3) by induction (simp_all add: sys_step_ok [OF assms(1)])

text \<open>A step that leaves the discipline does not fail itself; it breaks the invariant for the steps after it.\<close>

lemma stale_call_benign:
  assumes "sys_ok elems ordered n s" "sys_invokers s x = Some i" "\<not> ip_mutex i" "ready (ip_notification i)"
    "ip_invoke P x (i, sys_backend s) = (r, (i', b'))"
  shows "benign (outcome r)"
proof (cases "ip_connected i")
  case False
  then show ?thesis using assms(3,5) by (auto simp: ip_invoke_def)
next
  case True
  have c: "client_ok (sys_backend s) x i" using assms(1,2) by (rule sys_ok_client)
  have run: "run_ok elems ordered n (sys_backend s)" and idle: "\<not> cd_rpc_active (inv_client_data (ip_base i))"
    using assms(1,3) c by (auto simp: sys_ok_def pool_ok_def client_ok_def)
  then show ?thesis
    using assms(3-5) True invoke_after_call [OF run idle, of P x]
    by (auto simp: ip_invoke_def ip_after_post_def wait_for_notification_def split: if_splits)
qed

lemma sys_event_benign:
  assumes "boost_library L elems ordered" "sys_event P s k r s'" "sys_ok elems ordered n s"
  shows "benign r"
  using assms(2,3)
proof (induction rule: sys_event.induct)
  case (regular s r s')
  then show ?case using sys_step_ok [OF assms(1)] by blast
next
  case (wide s x i rq r i')
  have "\<not> cd_rpc_active (inv_client_data (ip_base i))"
    using sys_ok_client [OF wide(5,1)] wide(2) by (auto simp: client_ok_def)
  then show ?case using wide(4) by (auto simp: ip_reset_def Let_def)
next
  case (stale s x i r i' b')
  then show ?case by (intro stale_call_benign)
next
  case (spurious s x i r i')
  then show ?case by (auto simp: ip_after_post_def wait_for_notification_def)
qed

text \<open>A backend that was just started, without clients.\<close>

definition sys_init :: "('ix, 'st, 'ck, 'm) BackEnd \<Rightarrow> ('ix, 'st, 'ck, 'm) System" where
  "sys_init b = \<lparr>sys_backend = b, sys_invokers = Map.empty\<rparr>"

lemma sys_init_ok: "sys_ok set lst_ordered 2 (sys_init backend_2)"
  using backend_2_ok(2) backend_2_quiet
  by (simp add: sys_ok_def sys_init_def pool_ok_def sync_defs SynchronisedBackEndState_new_def)

text \<open>The concrete system after a client was created, prepared a hello request and called.\<close>

definition fresh_invoker :: InProcessInvoker where
  "fresh_invoker = InProcessInvoker_members\<lparr>ip_connected := True\<rparr>"

definition sys_one :: "(nat list, unit, unit, string) System" where
  "sys_one = put 7 fresh_invoker (upd_sync (sig_connect 7) (BackEnd_connect 7 backend_2)) (sys_init backend_2)"

lemma sys_one_step: "sys_step P (sys_init backend_2) None sys_one"
proof -
  have "InProcessInvoker_new 7 (sys_backend (sys_init backend_2)) =
      (Inr (), (fresh_invoker, upd_sync (sig_connect 7) (BackEnd_connect 7 backend_2)))"
    by (simp add: InProcessInvoker_new_def register_invoker_manager_def ip_connect_to_backend_def fresh_invoker_def
        InProcessInvoker_members_def sys_init_def)
  from sys_step.create [OF _ this] show ?thesis by (simp add: sys_one_def sys_init_def)
qed

lemma sys_one_reachable: "reachable P (sys_init backend_2) sys_one"
  using reachable.more [OF reachable.start sys_one_step] .

lemma sys_one_client: "sys_invokers sys_one 7 = Some fresh_invoker"
  by (simp add: sys_one_def put_def)

section \<open>Properties\<close>

text \<open>
  C26: safety of the interleavings of in-process clients and the pool, one thread driving each invoker. From a system that satisfies the
  invariant, such as a freshly started backend, every run whose clients reset the invoker before each request, use ordinals of
  16 bits and are not woken up spuriously keeps the invariant: the number
  of active calls is the number of posted handlers, a client has an active call exactly while its
  handler is posted and its caller waits, each posted call has its service, its method and its
  cookie, and the connected clients are the connected managers. After such a run no step of any thread
  trips an assertion, touches a dangling pointer or throws, except that a call on a
  disconnected invoker is refused with the exception for that; this holds also for a step that leaves the discipline,
  whose consequences show only in later steps.
\<close>
theorem interleavings_safe:
  assumes "boost_library L elems ordered" "sys_ok elems ordered n s0" "sys_run P s0 True s"
  shows "sys_ok elems ordered n s \<and>
    (\<forall>k r s'. sys_event P s k r s' \<longrightarrow>
       (r = None \<or> r = Some Blocked \<or> r = Some (InvokerException None)) \<and> (k \<longrightarrow> sys_ok elems ordered n s'))"
proof -
  have ok: "sys_ok elems ordered n s" by (rule reachable_ok [OF assms(1) sys_run_reachable [OF assms(3) TrueI] assms(2)])
  moreover have "sys_ok elems ordered n s'" if "sys_event P s k r s'" k for k r s'
    using that sys_step_ok [OF assms(1) _ ok] by (auto elim: sys_event_regularE)
  moreover have "r = None \<or> r = Some Blocked \<or> r = Some (InvokerException None)" if "sys_event P s k r s'" for k r s'
    using sys_event_benign [OF assms(1) that ok] by (simp add: benign_def)
  ultimately show ?thesis by blast
qed

theorem interleavings_safe_witness: "sys_ok set lst_ordered 2 sys_one"
proof -
  have "sys_run demo_protobuf (sys_init backend_2) (True \<and> True) sys_one"
    by (rule sys_run.more [OF sys_run.start sys_event.regular [OF sys_one_step]])
  then show ?thesis using interleavings_safe [OF list_boost_library sys_init_ok, of demo_protobuf sys_one] by simp
qed

text \<open>
  C27: waiting callers return. In every reachable state, a caller that waits inside
  \<open>invoke()\<close> comes back after at most one run of a handler: either it was notified already, or its
  own handler is posted, and running it finishes the call without an exception and notifies it.
  Nothing any other client does can prevent that.
\<close>
theorem waiting_caller_returns:
  assumes "boost_library L elems ordered" "sys_ok elems ordered n s0" "reachable P s0 s"
    "sys_invokers s x = Some i" "ip_mutex i"
  shows "\<exists>s1 s2 i2. (s1 = s \<or> sys_step P s None s1) \<and> sys_step P s1 None s2 \<and> sys_invokers s2 x = Some i2 \<and>
    \<not> ip_mutex i2 \<and> \<not> cd_rpc_active (inv_client_data (ip_base i2)) \<and> x \<notin> set (m_io_posted (sys_backend s2)) \<and>
    (\<forall>y. y \<noteq> x \<longrightarrow> sys_invokers s2 y = sys_invokers s y)"
proof -
  have ok: "sys_ok elems ordered n s" by (rule reachable_ok [OF assms(1,3,2)])
  have wake: "sys_step P t None (put x (j\<lparr>ip_mutex := False\<rparr>) (sys_backend t) t)"
    if "sys_invokers t x = Some j" "ip_mutex j" "ready (ip_notification j)" for t :: "('a, 'b, 'c, 'd) System" and j
    using sys_step.wake [OF that(1,2), of "Inr False" "j\<lparr>ip_mutex := False\<rparr>" P] that(3)
    by (simp add: ip_after_post_def wait_for_notification_def)
  show ?thesis
  proof (cases "ready (ip_notification i)")
    case True
    have c: "client_ok (sys_backend s) x i" using ok assms(4) by (rule sys_ok_client)
    show ?thesis
      using wake [OF assms(4,5) True] c True
      by (intro exI [of _ s] exI [of _ "put x (i\<lparr>ip_mutex := False\<rparr>) (sys_backend s) s"]) (auto simp: put_def client_ok_def)
  next
    case False
    have c: "client_ok (sys_backend s) x i" using ok assms(4) by (rule sys_ok_client)
    then have x: "x \<in> set (m_io_posted (sys_backend s))" using assms(5) False by (simp add: client_ok_def)
    obtain r i' b' where op: "ip_operator P x (i, io_take x (sys_backend s)) = (r, (i', b'))" by (metis prod_cases3)
    let ?s = "put x i' b' s"
    have step: "outcome r = None" "sys_ok elems ordered n ?s"
      using boost_library.run_ok_step [OF assms(1) ok assms(4) x op] by simp_all
    have r: "sys_step P s None ?s" using sys_step.run [OF assms(4) x op] step(1) by simp
    have i': "ip_mutex i'" "ready (ip_notification i')"
      using op step(1) assms(5) by (auto simp: ip_operator_def notify_one_def split: sum.splits prod.splits)
    have inv: "sys_invokers ?s x = Some i'" by (simp add: put_def)
    have "client_ok (sys_backend ?s) x i'" using step(2) inv by (rule sys_ok_client)
    then show ?thesis
      using r wake [OF inv i'] i'
      by (intro exI [of _ ?s] exI [of _ "put x (i'\<lparr>ip_mutex := False\<rparr>) (sys_backend ?s) ?s"])
        (auto simp: put_def client_ok_def)
  qed
qed

text \<open>The concrete client calls \<open>hello\<close>: its call is posted and it waits.\<close>

lemma sys_one_call:
  "\<exists>i b. ip_invoke demo_protobuf 7 (fresh_invoker, sys_backend sys_one) = (Inl Blocked, (i, b)) \<and> ip_mutex i"
proof -
  let ?b = "sys_backend sys_one"
  have run: "run_ok set lst_ordered 2 ?b" using reachable_ok [OF list_boost_library sys_one_reachable sys_init_ok]
    by (simp add: sys_ok_def pool_ok_def)
  have "view_of 7 cd ?b = view_of 7 cd backend_2" for cd
    by (simp add: view_of_def sys_one_def put_def sync_defs BackEnd_connect_def)
  then have "verdict_of 7 (ip_base fresh_invoker) ?b = Posted"
    using backend_2_view [of 7 "inv_client_data (ip_base fresh_invoker)"]
    by (simp add: verdict_of_def decide_def Let_def)
      (simp add: fresh_invoker_def InProcessInvoker_members_def InvokerBase_new_def ClientData_new_def ClientRequest_Clear_def)
  moreover have "\<not> cd_rpc_active (inv_client_data (ip_base fresh_invoker))" "\<not> ip_mutex fresh_invoker"
    "ip_connected fresh_invoker" "\<not> ready (ip_notification fresh_invoker)"
    by (simp_all add: fresh_invoker_def InProcessInvoker_members_def InvokerBase_new_def ClientData_new_def NotificationObject_new_def)
  ultimately show ?thesis
    using invoke_after_call [OF run, of "ip_base fresh_invoker" demo_protobuf 7]
    by (auto simp: ip_invoke_def ip_after_post_def wait_for_notification_def)
qed

lemma sys_two:
  obtains s i where "reachable demo_protobuf (sys_init backend_2) s" "sys_invokers s 7 = Some i" "ip_mutex i"
    "7 \<in> set (m_io_posted (sys_backend s))"
proof -
  obtain i b where c: "ip_invoke demo_protobuf 7 (fresh_invoker, sys_backend sys_one) = (Inl Blocked, (i, b))" "ip_mutex i"
    using sys_one_call by blast
  have f: "\<not> ip_mutex fresh_invoker" "\<not> ready (ip_notification fresh_invoker)"
    by (simp_all add: fresh_invoker_def InProcessInvoker_members_def NotificationObject_new_def)
  let ?s = "put 7 i b sys_one"
  have r: "reachable demo_protobuf (sys_init backend_2) ?s"
    by (rule reachable.more [OF sys_one_reachable sys_step.call [OF sys_one_client f c(1)]])
  have ok: "sys_ok set lst_ordered 2 ?s" by (rule reachable_ok [OF list_boost_library r sys_init_ok])
  have i: "sys_invokers ?s 7 = Some i" by (simp add: put_def)
  have "\<not> ready (ip_notification i)"
    using c(1) f(2) by (auto simp: ip_invoke_def ip_after_post_def wait_for_notification_def split: if_splits sum.splits prod.splits)
  then have "7 \<in> set (m_io_posted (sys_backend ?s))" using sys_ok_client [OF ok i] c(2) by (simp add: client_ok_def)
  with r i c(2) show ?thesis by (rule that)
qed

theorem waiting_caller_returns_witness:
  "\<exists>s i s1 s2 i2. reachable demo_protobuf (sys_init backend_2) s \<and> sys_invokers s 7 = Some i \<and> ip_mutex i \<and>
     (s1 = s \<or> sys_step demo_protobuf s None s1) \<and> sys_step demo_protobuf s1 None s2 \<and>
     sys_invokers s2 7 = Some i2 \<and> \<not> ip_mutex i2"
proof -
  obtain s i where s: "reachable demo_protobuf (sys_init backend_2) s" "sys_invokers s 7 = Some i" "ip_mutex i"
    "7 \<in> set (m_io_posted (sys_backend s))"
    by (rule sys_two)
  show ?thesis using waiting_caller_returns [OF list_boost_library sys_init_ok s(1-3)] s by blast
qed

text \<open>
  C28: the wait is not guarded by a loop. A caller whose call is posted returns from
  \<open>invoke()\<close> at once when its condition variable wakes up spuriously, while its call is
  still active: the next \<open>reset()\<close> then fails its assertion. The same happens without any
  spurious wake-up when an invoker is used again without a reset: \<open>ready\<close> is still set from
  the last call, so that a posted call is reported back before it ran.
\<close>
theorem unguarded_wait_returns_early:
  assumes "sys_ok elems ordered n s" "sys_invokers s x = Some i"
  shows "(x \<in> set (m_io_posted (sys_backend s)) \<longrightarrow>
      (\<exists>i'. ip_after_post True i = (Inr False, i') \<and> cd_rpc_active (inv_client_data (ip_base i')) \<and>
            fst (ip_reset i') = Inl AssertionFailed)) \<and>
    (ip_connected i \<and> \<not> ip_mutex i \<and> ready (ip_notification i) \<and> verdict_of x (ip_base i) (sys_backend s) = Posted \<longrightarrow>
      (\<exists>i' b'. ip_invoke P x (i, sys_backend s) = (Inr False, (i', b')) \<and> x \<in> set (m_io_posted b') \<and>
            fst (ip_reset i') = Inl AssertionFailed))"
proof -
  have c: "client_ok (sys_backend s) x i" using assms by (rule sys_ok_client)
  have run: "run_ok elems ordered n (sys_backend s)" using assms(1) by (simp add: sys_ok_def pool_ok_def)
  have reset: "fst (ip_reset j) = Inl AssertionFailed" if "cd_rpc_active (inv_client_data (ip_base j))" for j
    using that by (simp add: ip_reset_def Let_def)
  have "\<exists>i' b'. ip_invoke P x (i, sys_backend s) = (Inr False, (i', b')) \<and> x \<in> set (m_io_posted b') \<and>
      cd_rpc_active (inv_client_data (ip_base i'))"
    if "ip_connected i" "\<not> ip_mutex i" "ready (ip_notification i)" and v: "verdict_of x (ip_base i) (sys_backend s) = Posted"
  proof -
    have "\<not> cd_rpc_active (inv_client_data (ip_base i))" using c that(2) by (auto simp: client_ok_def)
    then obtain base b1 where inv: "invoke P x (ip_base i, sys_backend s) = (Inr False, (base, b1))"
      "after_call P Posted x n (ip_base i, sys_backend s) (base, b1)"
      using invoke_after_call [OF run, of "ip_base i" P x] v by auto
    then show ?thesis
      using that after_callD(3,8) [OF inv(2)]
      by (simp add: ip_invoke_def ip_after_post_def wait_for_notification_def)
  qed
  moreover have "\<exists>i'. ip_after_post True i = (Inr False, i') \<and> cd_rpc_active (inv_client_data (ip_base i'))"
    if "x \<in> set (m_io_posted (sys_backend s))"
    using c that by (simp add: client_ok_def ip_after_post_def wait_for_notification_def)
  ultimately show ?thesis using reset by blast
qed

theorem unguarded_wait_returns_early_witness:
  "\<exists>s i i'. reachable demo_protobuf (sys_init backend_2) s \<and> sys_invokers s 7 = Some i \<and>
     ip_after_post True i = (Inr False, i') \<and> fst (ip_reset i') = Inl AssertionFailed"
proof -
  obtain s i where s: "reachable demo_protobuf (sys_init backend_2) s" "sys_invokers s 7 = Some i" "ip_mutex i"
    "7 \<in> set (m_io_posted (sys_backend s))"
    by (rule sys_two)
  have "sys_ok set lst_ordered 2 s" by (rule reachable_ok [OF list_boost_library s(1) sys_init_ok])
  from unguarded_wait_returns_early [OF this s(2), of demo_protobuf] s show ?thesis by blast
qed

end
