(* ===== verification/Shutdown.thy ===== *)
theory Shutdown
  imports Dispatch
begin

text \<open>
  Shutting the backend down: the phases of \<open>shutdown_step\<close>, the teardown of the services, and
  who may start it.
\<close>

section \<open>Teardown\<close>

text \<open>A service whose \<open>teardown\<close> does not turn success into an error.\<close>

definition tears_down :: "('ix, 'st, 'ck, 'm) Service \<Rightarrow> bool" where
  "tears_down s \<longleftrightarrow> (\<forall>ec. \<not> ec_fails ec \<longrightarrow> \<not> ec_fails (snd (service_teardown s ec)))"

text \<open>The table with the pointers in the slots \<open>is\<close> reset.\<close>

definition reset_slots :: "nat set \<Rightarrow> (nat \<rightharpoonup> OidName \<times> 'e option) \<Rightarrow> (nat \<rightharpoonup> OidName \<times> 'e option)" where
  "reset_slots is m = (\<lambda>i. if i \<in> is then map_option (apsnd (\<lambda>_. None)) (m i) else m i)"

context boost_library
begin

lemma teardown_services_ok:
  assumes "oid_inv elems ordered (m_services b)" "\<not> ec_fails (m_ec b)" "distinct is" "set is \<subseteq> {..<65536}"
    "\<forall>i \<in> set is. \<exists>nm s. oid_abs (m_services b) i = Some (nm, Some s) \<and> tears_down s"
  shows "\<exists>t ec. teardown_services is b = (Inr (), b\<lparr>m_ec := ec, m_services := t\<rparr>) \<and> \<not> ec_fails ec \<and>
    oid_inv elems ordered t \<and> OidContainer_size t = OidContainer_size (m_services b) \<and>
    oid_abs t = reset_slots (set is) (oid_abs (m_services b))"
  using assms
proof (induction "is" arbitrary: b)
  case Nil
  have "teardown_services [] b = (Inr (), b\<lparr>m_ec := m_ec b, m_services := m_services b\<rparr>)" by simp
  moreover have "oid_abs (m_services b) = reset_slots (set []) (oid_abs (m_services b))" by (simp add: reset_slots_def)
  ultimately show ?case using Nil by blast
next
  case (Cons i "is")
  obtain nm s where s: "oid_abs (m_services b) i = Some (nm, Some s)" "tears_down s" using Cons.prems(5) by auto
  have i: "unat (of_nat i :: uint16) = i" using Cons.prems(4) by simp
  obtain s' ec where td: "service_teardown s (m_ec b) = (s', ec)" by fastforce
  have ec: "\<not> ec_fails ec" using s(2) Cons.prems(2) td unfolding tears_down_def by (metis snd_conv)
  note st = store_entry_ok [OF Cons.prems(1) s(1), of None]
  let ?b = "b\<lparr>m_ec := ec, m_services := store_entry i None (m_services b)\<rparr>"
  have live: "\<forall>j \<in> set is. \<exists>nm s. oid_abs (m_services ?b) j = Some (nm, Some s) \<and> tears_down s"
    using Cons.prems(3,5) st(2) by auto
  have "oid_inv elems ordered (m_services ?b)" "\<not> ec_fails (m_ec ?b)" "distinct is" "set is \<subseteq> {..<65536}"
    using st(1) ec Cons.prems(3,4) by simp_all
  from Cons.IH [OF this live] obtain t ec' where t:
    "teardown_services is ?b = (Inr (), ?b\<lparr>m_ec := ec', m_services := t\<rparr>)" "\<not> ec_fails ec'" "oid_inv elems ordered t"
    "OidContainer_size t = OidContainer_size (m_services ?b)" "oid_abs t = reset_slots (set is) (oid_abs (m_services ?b))"
    by blast
  have "reset_slots (set is) ((oid_abs (m_services b))(i \<mapsto> (nm, None))) = reset_slots (set (i # is)) (oid_abs (m_services b))"
    using s(1) Cons.prems(3) by (auto simp: reset_slots_def fun_eq_iff)
  then have "oid_abs t = reset_slots (set (i # is)) (oid_abs (m_services b))" using t(5) st(2) by simp
  moreover have "at_ordinal (m_services b) (of_nat i) = Some (Some s)" using s(1) i by (simp add: at_ordinal_abs)
  then have "teardown_services (i # is) b = (Inr (), b\<lparr>m_ec := ec', m_services := t\<rparr>)"
    using td ec t(1) by simp
  moreover have "OidContainer_size t = OidContainer_size (m_services b)" using t(4) st(3) by simp
  ultimately show ?case using t(2,3) by blast
qed

text \<open>A pointer that was reset already: dereferencing it trips the assertion of \<open>shared_ptr\<close>.\<close>

lemma teardown_again:
  assumes "map_option snd (oid_abs (m_services b) 0) = Some None"
  shows "fst (teardown_services (0 # is) b) = Inl AssertionFailed"
  using assms by (auto simp: at_ordinal_abs)

section \<open>The last phase\<close>

text \<open>The phase that waits for the managers, for any number of managers that are still connected.\<close>

lemma shutdown_last_phase:
  assumes run: "run_ok elems ordered n b" and state: "shutdown_state (m_synchronised_state b) = BACKEND_SHUTDOWN_WAITING_ON_MANAGER_DISCONECTIONS"
    and clients: "manager_count (m_synchronised_state b) = 0 \<longrightarrow> clients_size (m_connected_clients b) = 0"
    and io: "m_io_posted b = []" and ec: "\<not> ec_fails (m_ec b)"
    and td: "\<forall>i nm s. oid_abs (m_services b) i = Some (nm, Some s) \<longrightarrow> tears_down s"
  obtains b' where "shutdown_step L disc (y, b) = (Inr BACKEND_SHUTDOWN_COMPLETE, (y, b'))"
    "oid_abs (m_services b') = reset_slots UNIV (oid_abs (m_services b))" "OidContainer_size (m_services b') = n"
    "oid_inv elems ordered (m_services b')" "m_synchronised_state b' = m_synchronised_state b"
    "m_thread_group b > 0 \<longrightarrow> m_io_stopped b'" "m_connected_clients b' = m_connected_clients b"
    "m_thread_group b' = m_thread_group b" "\<not> m_work b'" "m_io_posted b' = []"
    "m_client_service_cookies b' = m_client_service_cookies b"
proof -
  note r = run_okD [OF run]
  have inv: "oid_inv elems ordered (m_services b)" "\<forall>i < n. \<exists>nm s. oid_abs (m_services b) i = Some (nm, Some s)"
    using r(4) by (auto simp: table_ok_def dense_def)
  have occ: "occupied_size L (m_services b) = n" using r(4) by (rule table_ok_occupied_size)
  define b1 where "b1 = (if m_thread_group b = 0 then b\<lparr>m_work := False\<rparr> else b\<lparr>m_work := False, m_io_stopped := True\<rparr>)"
  have join: "join_all (b\<lparr>m_work := False\<rparr>) = (Inr (), b1)" using io by (simp add: join_all_def b1_def)
  have b1: "m_services b1 = m_services b" "m_ec b1 = m_ec b" by (simp_all add: b1_def)
  have live: "\<forall>i \<in> set [0..<n]. \<exists>nm s. oid_abs (m_services b1) i = Some (nm, Some s) \<and> tears_down s"
    using inv(2) td b1(1) by fastforce
  have "oid_inv elems ordered (m_services b1)" "\<not> ec_fails (m_ec b1)" "distinct [0..<n]" "set [0..<n] \<subseteq> {..<65536}"
    using inv(1) ec r(3) b1 by auto
  from teardown_services_ok [OF this live] obtain t ec' where t:
    "teardown_services [0..<n] b1 = (Inr (), b1\<lparr>m_ec := ec', m_services := t\<rparr>)" "oid_inv elems ordered t"
    "OidContainer_size t = n" "oid_abs t = reset_slots {0..<n} (oid_abs (m_services b))"
    unfolding b1 set_upt r(2) by blast
  have "reset_slots {0..<n} (oid_abs (m_services b)) = reset_slots UNIV (oid_abs (m_services b))"
  proof
    fix i
    have "oid_abs (m_services b) i = None" if "\<not> i < n"
      using table_ok_occupied(1) [OF r(4)] that by (simp add: oid_abs_def)
    then show "reset_slots {0..<n} (oid_abs (m_services b)) i = reset_slots UNIV (oid_abs (m_services b)) i"
      by (cases "i < n") (simp_all add: reset_slots_def)
  qed
  with t(4) have abs: "oid_abs t = reset_slots UNIV (oid_abs (m_services b))" by simp
  have "shutdown_step L disc (y, b) = (Inr BACKEND_SHUTDOWN_COMPLETE, (y, b1\<lparr>m_ec := ec', m_services := t\<rparr>))"
    using state clients join t(1) occ b1(1)
    by (cases "manager_count (m_synchronised_state b) = 0") (simp_all add: shutdown_step_def Let_def)
  then show ?thesis
    by (rule that) (use t abs io in \<open>auto simp: b1_def\<close>)
qed

end

context boost_library
begin

text \<open>A step of the last phase on a table whose pointers were reset.\<close>

lemma shutdown_step_again:
  assumes "oid_inv elems ordered (m_services b)" "map_option snd (oid_abs (m_services b) 0) = Some None"
    "shutdown_state (m_synchronised_state b) = BACKEND_SHUTDOWN_WAITING_ON_MANAGER_DISCONECTIONS"
    "clients_size (m_connected_clients b) = 0" "\<not> m_work b" "m_io_posted b = []"
  shows "fst (shutdown_step L disc (y, b)) = Inl AssertionFailed"
proof -
  define b1 where "b1 = (if m_thread_group b = 0 then b\<lparr>m_work := False\<rparr> else b\<lparr>m_work := False, m_io_stopped := True\<rparr>)"
  have join: "join_all (b\<lparr>m_work := False\<rparr>) = (Inr (), b1)" using assms(6) by (simp add: join_all_def b1_def)
  have b1: "m_services b1 = m_services b" by (simp add: b1_def)
  have "0 \<in> occupied (m_services b)" using assms(2) by (auto simp: oid_abs_def split: if_splits)
  then have "occupied_size L (m_services b) > 0"
    unfolding occupied_size_ok [OF assms(1)] by (auto simp: card_gt_0_iff)
  then obtain m where m: "[0..<occupied_size L (m_services b1)] = 0 # m"
    unfolding b1 by (metis upt_rec)
  have "fst (teardown_services (0 # m) b1) = Inl AssertionFailed"
    by (rule teardown_again) (simp add: assms(2) b1)
  then obtain b2 where "teardown_services (0 # m) b1 = (Inl AssertionFailed, b2)" by (metis prod.collapse)
  then show ?thesis using assms(3,4) join m by (simp add: shutdown_step_def Let_def)
qed

end

section \<open>Properties\<close>

text \<open>
  C23: shutdown waits for the active calls. While calls are active, a step closes the backend
  for new calls and reports that it is waiting; it disconnects no manager, drops no client,
  tears nothing down, and repeating it changes nothing more.
\<close>
theorem shutdown_waits_for_calls:
  assumes "shutdown_state (m_synchronised_state b) = BACKEND_SHUTDOWN_INITIATED" "rpc_count (m_synchronised_state b) \<noteq> 0"
  shows "\<exists>b'. shutdown_step L disc (y, b) = (Inr BACKEND_SHUTDOWN_WAITING_ON_ACTIVE_RPC_END, (y, b')) \<and>
    \<not> is_accepting_requests (m_synchronised_state b') \<and> rpc_count (m_synchronised_state b') = rpc_count (m_synchronised_state b) \<and>
    f_disc_invoker_sig (m_synchronised_state b') = f_disc_invoker_sig (m_synchronised_state b) \<and>
    m_services b' = m_services b \<and> m_connected_clients b' = m_connected_clients b \<and> m_work b' = m_work b \<and>
    shutdown_step L disc (y, b') = (Inr BACKEND_SHUTDOWN_WAITING_ON_ACTIVE_RPC_END, (y, b'))"
  using assms by (simp add: shutdown_step_def Let_def sync_defs)

text \<open>The concrete backend at the beginning of its shutdown, with \<open>k\<close> active calls.\<close>

definition closing :: "int \<Rightarrow> demo_backend" where
  "closing k = backend_2\<lparr>m_synchronised_state :=
     \<lparr>m_accepting_requests = True, m_active_rpc_count = k, f_disc_invoker_sig = [],
      m_shutdown_state = BACKEND_SHUTDOWN_INITIATED\<rparr>, m_connected_clients := {}, m_io_posted := [], m_ec := ec_clear\<rparr>"

lemma closing_ok: "run_ok set lst_ordered 2 (closing k)" "m_services (closing k) = m_services backend_2"
  using backend_2_ok(2) by (simp_all add: closing_def run_ok_def)

lemma closing_tears_down:
  "\<forall>i nm s. oid_abs (m_services (closing k)) i = Some (nm, Some s) \<longrightarrow> tears_down s"
  unfolding closing_ok(2)
proof (intro allI impI)
  fix i nm s assume "oid_abs (m_services backend_2) i = Some (nm, Some s)"
  then show "tears_down s"
    using backend_2_services [of i nm s]
    by (auto simp: tears_down_def service_teardown_def is_basic_def echo_service_ok(3) split: Impl.splits)
      (simp add: echo_impl_def)
qed

theorem shutdown_waits_for_calls_witness:
  "\<exists>b'. shutdown_step list_boost (\<lambda>m w. (Inr (), w)) ((), closing 1) =
     (Inr BACKEND_SHUTDOWN_WAITING_ON_ACTIVE_RPC_END, ((), b')) \<and> m_services b' = m_services backend_2"
proof -
  have "shutdown_state (m_synchronised_state (closing 1)) = BACKEND_SHUTDOWN_INITIATED"
    "rpc_count (m_synchronised_state (closing 1)) \<noteq> 0" by (simp_all add: closing_def sync_defs)
  from shutdown_waits_for_calls [OF this, of list_boost "\<lambda>m w. (Inr (), w)" "()"] show ?thesis
    unfolding closing_ok(2) by blast
qed

text \<open>
  C24: shutdown completes. With no active call, no connected manager or client and no posted
  handler, one step after the initiation refuses further calls, lets the pool threads return,
  tears down every service and reports completion. The phase it records is not advanced to
  completion, so that a further step would dereference the pointers that were reset and fail the
  assertion in \<open>shared_ptr\<close>.
\<close>
theorem shutdown_completes:
  assumes "boost_library L elems ordered" "run_ok elems ordered n b" "n > 0"
    "shutdown_state (m_synchronised_state b) = BACKEND_SHUTDOWN_INITIATED" "rpc_count (m_synchronised_state b) = 0"
    "f_disc_invoker_sig (m_synchronised_state b) = []" "m_connected_clients b = {}" "m_io_posted b = []" "\<not> ec_fails (m_ec b)"
    "\<forall>i nm s. oid_abs (m_services b) i = Some (nm, Some s) \<longrightarrow> tears_down s"
  shows "\<exists>b'. shutdown_step L disc (y, b) = (Inr BACKEND_SHUTDOWN_COMPLETE, (y, b')) \<and>
    oid_abs (m_services b') = reset_slots UNIV (oid_abs (m_services b)) \<and>
    \<not> is_accepting_requests (m_synchronised_state b') \<and> (m_thread_group b > 0 \<longrightarrow> m_io_stopped b') \<and>
    shutdown_state (m_synchronised_state b') = BACKEND_SHUTDOWN_WAITING_ON_MANAGER_DISCONECTIONS \<and>
    fst (shutdown_step L disc (y, b')) = Inl AssertionFailed"
proof -
  define b1 where "b1 = upd_sync (set_shutdown_state BACKEND_SHUTDOWN_WAITING_ON_MANAGER_DISCONECTIONS \<circ> stop_accepting_requests) b"
  have eq: "shutdown_step L disc (y, b) = shutdown_step L disc (y, b1)"
    using assms(4-6) by (simp add: shutdown_step_def Let_def sync_defs upd_sync_def b1_def)
  have b1: "run_ok elems ordered n b1" "m_io_posted b1 = []" "\<not> ec_fails (m_ec b1)" "m_services b1 = m_services b"
    "shutdown_state (m_synchronised_state b1) = BACKEND_SHUTDOWN_WAITING_ON_MANAGER_DISCONECTIONS"
    "clients_size (m_connected_clients b1) = 0" "manager_count (m_synchronised_state b1) = 0"
    "\<not> is_accepting_requests (m_synchronised_state b1)" "m_thread_group b1 = m_thread_group b"
    using assms(2,6-9) by (simp_all add: b1_def upd_sync_def run_ok_def sync_defs clients_size_def)
  have td: "\<forall>i nm s. oid_abs (m_services b1) i = Some (nm, Some s) \<longrightarrow> tears_down s"
    using assms(10) unfolding b1(4) .
  have clients: "manager_count (m_synchronised_state b1) = 0 \<longrightarrow> clients_size (m_connected_clients b1) = 0" using b1(6) by simp
  obtain b' where b': "shutdown_step L disc (y, b1) = (Inr BACKEND_SHUTDOWN_COMPLETE, (y, b'))"
    "oid_abs (m_services b') = reset_slots UNIV (oid_abs (m_services b1))" "OidContainer_size (m_services b') = n"
    "oid_inv elems ordered (m_services b')" "m_synchronised_state b' = m_synchronised_state b1"
    "m_thread_group b1 > 0 \<longrightarrow> m_io_stopped b'" "m_connected_clients b' = m_connected_clients b1"
    "m_thread_group b' = m_thread_group b1" "\<not> m_work b'" "m_io_posted b' = []"
    "m_client_service_cookies b' = m_client_service_cookies b1"
    by (rule boost_library.shutdown_last_phase [OF assms(1) b1(1,5) clients b1(2,3) td, where disc = disc and y = y])
  have "table_ok elems ordered n (m_services b)" using assms(2) by (rule run_okD)
  then obtain nm s where "oid_abs (m_services b) 0 = Some (nm, Some s)"
    by (rule table_okD [OF _ assms(3)])
  then have "map_option snd (oid_abs (m_services b') 0) = Some None" using b'(2) b1(4) by (simp add: reset_slots_def)
  then have again: "fst (shutdown_step L disc (y, b')) = Inl AssertionFailed"
    by (rule boost_library.shutdown_step_again [OF assms(1) b'(4)]) (use b' b1 in simp_all)
  show ?thesis
    using eq b' b1 again by (intro exI [of _ b']) simp
qed

theorem shutdown_completes_witness:
  "\<exists>b'. shutdown_step list_boost (\<lambda>m w. (Inr (), w)) ((), closing 0) = (Inr BACKEND_SHUTDOWN_COMPLETE, ((), b')) \<and>
     fst (shutdown_step list_boost (\<lambda>m w. (Inr (), w)) ((), b')) = Inl AssertionFailed"
proof -
  have "shutdown_state (m_synchronised_state (closing 0)) = BACKEND_SHUTDOWN_INITIATED"
    "rpc_count (m_synchronised_state (closing 0)) = 0" "f_disc_invoker_sig (m_synchronised_state (closing 0)) = []"
    "m_connected_clients (closing 0) = {}" "m_io_posted (closing 0) = []" "\<not> ec_fails (m_ec (closing 0))"
    by (simp_all add: closing_def sync_defs)
  from shutdown_completes [OF list_boost_library closing_ok(1) _ this closing_tears_down] show ?thesis by fastforce
qed

text \<open>
  C25: the last phase does not wait for the managers. Once the backend is in the phase that is
  named after the disconnection of the managers, a step completes and tears down every service
  even though managers are still connected, and with them their clients.
\<close>
theorem shutdown_ignores_connected_managers:
  assumes "boost_library L elems ordered" "run_ok elems ordered n b"
    "shutdown_state (m_synchronised_state b) = BACKEND_SHUTDOWN_WAITING_ON_MANAGER_DISCONECTIONS"
    "manager_count (m_synchronised_state b) > 0" "m_io_posted b = []" "\<not> ec_fails (m_ec b)"
    "\<forall>i nm s. oid_abs (m_services b) i = Some (nm, Some s) \<longrightarrow> tears_down s"
  shows "\<exists>b'. shutdown_step L disc (y, b) = (Inr BACKEND_SHUTDOWN_COMPLETE, (y, b')) \<and>
    manager_count (m_synchronised_state b') > 0 \<and> m_connected_clients b' = m_connected_clients b \<and>
    oid_abs (m_services b') = reset_slots UNIV (oid_abs (m_services b))"
proof -
  have "manager_count (m_synchronised_state b) = 0 \<longrightarrow> clients_size (m_connected_clients b) = 0"
    using assms(4) by simp
  from boost_library.shutdown_last_phase [OF assms(1-3) this assms(5-7), where disc = disc and y = y] show ?thesis
    using assms(4) by metis
qed

theorem shutdown_ignores_connected_managers_witness:
  "\<exists>b'. shutdown_step list_boost (\<lambda>m w. (Inr (), w)) ((), upd_sync (sig_connect 4 \<circ>
       set_shutdown_state BACKEND_SHUTDOWN_WAITING_ON_MANAGER_DISCONECTIONS) (closing 0)) =
     (Inr BACKEND_SHUTDOWN_COMPLETE, ((), b')) \<and> manager_count (m_synchronised_state b') > 0"
proof -
  let ?b = "upd_sync (sig_connect 4 \<circ> set_shutdown_state BACKEND_SHUTDOWN_WAITING_ON_MANAGER_DISCONECTIONS) (closing 0)"
  have "run_ok set lst_ordered 2 ?b" using closing_ok(1) by (simp add: run_ok_def)
  moreover have "shutdown_state (m_synchronised_state ?b) = BACKEND_SHUTDOWN_WAITING_ON_MANAGER_DISCONECTIONS"
    "manager_count (m_synchronised_state ?b) > 0" by (simp_all add: sync_defs)
  moreover have "m_io_posted ?b = []" "\<not> ec_fails (m_ec ?b)" by (simp_all add: closing_def)
  moreover have "\<forall>i nm s. oid_abs (m_services ?b) i = Some (nm, Some s) \<longrightarrow> tears_down s"
    using closing_tears_down by simp
  ultimately show ?thesis
    using shutdown_ignores_connected_managers [OF list_boost_library, of 2 ?b "\<lambda>m w. (Inr (), w)" "()"] by blast
qed

text \<open>
  One shutdown. Whatever the number of callers, the first one initiates the shutdown; every
  later call of \<open>shutdown\<close> returns at once and changes nothing.
\<close>
theorem shutdown_runs_once:
  assumes "check_and_initiate_shutdown (m_synchronised_state b) = (r, s)"
    "BACKEND_ACTIVE < shutdown_state (m_synchronised_state b')"
  shows "r = (shutdown_state (m_synchronised_state b) = BACKEND_ACTIVE) \<and> BACKEND_ACTIVE < shutdown_state s \<and>
    BackEnd_shutdown L disc env (y, b') = (Inr (Some ()), (y, b'))"
  using assms
  by (cases "shutdown_state (m_synchronised_state b)")
    (auto simp: sync_defs BackEnd_shutdown_def less_BackEndShutdownState_def split: if_splits)

theorem shutdown_runs_once_witness:
  "BackEnd_shutdown list_boost (\<lambda>m w. (Inr (), w)) [] ((), closing 0) = (Inr (Some ()), ((), closing 0))"
  using shutdown_runs_once [of "closing 0" False "m_synchronised_state (closing 0)" "closing 0" list_boost "\<lambda>m w. (Inr (), w)" "[]" "()"]
  by (simp add: closing_def sync_defs less_BackEndShutdownState_def)

end
