(* ===== verification/System_Shutdown.thy ===== *)
theory System_Shutdown
  imports System Shutdown
begin

text \<open>
  Shutting down a backend whose managers are in-process invokers: the signal disconnects every
  one of them, and with them their clients, before the services are torn down.
\<close>

section \<open>Raising the signal\<close>

text \<open>The slot of manager \<open>m\<close> of the signal is \<open>disconnect_from_backend\<close> of invoker \<open>m\<close>.\<close>

definition invoker_slot :: "mid \<Rightarrow> (cid \<rightharpoonup> InProcessInvoker) \<times> ('ix, 'st, 'ck, 'm) BackEnd
    \<Rightarrow> (exn, unit, (cid \<rightharpoonup> InProcessInvoker) \<times> ('ix, 'st, 'ck, 'm) BackEnd) sres" where
  "invoker_slot m w =
     (case fst w m of
        None \<Rightarrow> (Inl UndefinedBehaviour, w)
      | Some i \<Rightarrow>
          (case ip_disconnect_from_backend m (i, snd w) of
             (r, (i, b)) \<Rightarrow> (r, ((fst w)(m \<mapsto> i), b))))"

definition sys_of :: "(cid \<rightharpoonup> InProcessInvoker) \<times> ('ix, 'st, 'ck, 'm) BackEnd \<Rightarrow> ('ix, 'st, 'ck, 'm) System" where
  "sys_of w = \<lparr>sys_backend = snd w, sys_invokers = fst w\<rparr>"

text \<open>No thread is inside an invoker.\<close>

definition all_idle :: "(cid \<rightharpoonup> InProcessInvoker) \<Rightarrow> bool" where
  "all_idle iv \<longleftrightarrow> (\<forall>x i. iv x = Some i \<longrightarrow> \<not> ip_mutex i)"

text \<open>What raising the signal leaves alone.\<close>

definition kept_by_signal :: "('ix, 'st, 'ck, 'm) BackEnd \<Rightarrow> ('ix, 'st, 'ck, 'm) BackEnd \<Rightarrow> bool" where
  "kept_by_signal b b' \<longleftrightarrow>
     table_shape (m_services b') = table_shape (m_services b) \<and> m_ec b' = m_ec b \<and>
     m_thread_group b' = m_thread_group b \<and> m_io_posted b' = m_io_posted b \<and>
     shutdown_state (m_synchronised_state b') = shutdown_state (m_synchronised_state b) \<and>
     is_accepting_requests (m_synchronised_state b') = is_accepting_requests (m_synchronised_state b)"

lemma same_control_ec: "same_control b b' \<Longrightarrow> m_ec b' = m_ec b" "same_control b b' \<Longrightarrow> m_thread_group b' = m_thread_group b"
  unfolding same_control_def by (metis BackEnd.surjective BackEnd.update_convs(6,9) BackEnd.select_convs(4,5))+

context boost_library
begin

lemma invoker_slot_ok:
  assumes ok: "sys_ok elems ordered n (sys_of (iv, b))" and idle: "all_idle iv"
    and m: "m \<in> set (f_disc_invoker_sig (m_synchronised_state b))"
  obtains iv' b' where "invoker_slot m (iv, b) = (Inr (), (iv', b'))" "sys_ok elems ordered n (sys_of (iv', b'))"
    "all_idle iv'" "kept_by_signal b b'" "dom iv' = dom iv"
    "f_disc_invoker_sig (m_synchronised_state b') = removeAll m (f_disc_invoker_sig (m_synchronised_state b))"
    "\<forall>j y. cookies_abs (m_client_service_cookies b') (j, y) =
       (if y = m \<and> 0 < j then None else cookies_abs (m_client_service_cookies b) (j, y))"
proof -
  obtain i where i: "iv m = Some i" using ok m by (auto simp: sys_ok_def sys_of_def)
  have c: "client_ok b m i" using sys_ok_client [OF ok, of m i] i by (simp add: sys_of_def)
  have pre: "run_ok elems ordered n b" "\<not> m_io_stopped b" "m \<in> m_connected_clients b" "ip_connected i" "\<not> ip_mutex i"
    using ok c m idle i by (auto simp: sys_ok_def sys_of_def pool_ok_def client_ok_def all_idle_def)
  obtain cd' b1 where d: "ip_disconnect_from_backend m (i, b) =
      (Inr (), ((upd_client (\<lambda>_. cd') i)\<lparr>ip_connected := False\<rparr>,
        upd_sync (snd \<circ> connection_disconnect m) (b1\<lparr>m_connected_clients := m_connected_clients b - {m}\<rparr>)))"
    "run_ok elems ordered n b1" "same_control b b1" "cd_rpc_active cd' = cd_rpc_active (inv_client_data (ip_base i))"
    "table_shape (m_services b1) = table_shape (m_services b)"
    "\<forall>j y. cookies_abs (m_client_service_cookies b1) (j, y) =
       (if y = m \<and> 0 < j then None else cookies_abs (m_client_service_cookies b) (j, y))"
    by (rule leave_connected [OF pre])
  define i' where "i' = (upd_client (\<lambda>_. cd') i)\<lparr>ip_connected := False\<rparr>"
  define b' where "b' = upd_sync (snd \<circ> connection_disconnect m) (b1\<lparr>m_connected_clients := m_connected_clients b - {m}\<rparr>)"
  note d1 = d(1) [folded i'_def b'_def]
  have "sys_ok elems ordered n (put m i' b' (sys_of (iv, b)))"
    using leave_ok [OF boost_library_axioms ok, of m i "Inr ()" i' b'] i d1 by (simp add: sys_of_def)
  then have ok': "sys_ok elems ordered n (sys_of (iv(m \<mapsto> i'), b'))" by (simp add: put_def sys_of_def)
  have eq: "invoker_slot m (iv, b) = (Inr (), (iv(m \<mapsto> i'), b'))" using i d1 by (simp add: invoker_slot_def)
  have "all_idle (iv(m \<mapsto> i'))" using idle pre(5) by (auto simp: all_idle_def i'_def)
  moreover have "kept_by_signal b b'"
    using same_controlD [OF d(3)] same_control_ec [OF d(3)] d(5) by (simp add: kept_by_signal_def b'_def sync_defs)
  moreover have "dom (iv(m \<mapsto> i')) = dom iv" using i by auto
  moreover have "f_disc_invoker_sig (m_synchronised_state b') = removeAll m (f_disc_invoker_sig (m_synchronised_state b))"
    using same_controlD [OF d(3)] by (simp add: b'_def sync_defs)
  moreover have "\<forall>j y. cookies_abs (m_client_service_cookies b') (j, y) =
      (if y = m \<and> 0 < j then None else cookies_abs (m_client_service_cookies b) (j, y))"
    using d(6) by (simp add: b'_def)
  ultimately show ?thesis by (rule that [OF eq ok'])
qed

end

lemma kept_by_signal_trans: "kept_by_signal a b \<Longrightarrow> kept_by_signal b c \<Longrightarrow> kept_by_signal a c"
  by (simp add: kept_by_signal_def)

context boost_library
begin

lemma signal_ok:
  assumes "sys_ok elems ordered n (sys_of (iv, b))" "all_idle iv"
    "set ms \<subseteq> set (f_disc_invoker_sig (m_synchronised_state b))" "distinct ms"
  shows "\<exists>iv' b'. disconect_managers invoker_slot ms (iv, b) = (Inr (), (iv', b')) \<and>
    sys_ok elems ordered n (sys_of (iv', b')) \<and> all_idle iv' \<and> kept_by_signal b b' \<and> dom iv' = dom iv \<and>
    set (f_disc_invoker_sig (m_synchronised_state b')) = set (f_disc_invoker_sig (m_synchronised_state b)) - set ms \<and>
    (\<forall>j y. cookies_abs (m_client_service_cookies b') (j, y) =
       (if y \<in> set ms \<and> 0 < j then None else cookies_abs (m_client_service_cookies b) (j, y)))"
  using assms
proof (induction ms arbitrary: iv b)
  case Nil
  then show ?case by (simp add: kept_by_signal_def)
next
  case (Cons m ms)
  have m: "m \<in> set (f_disc_invoker_sig (m_synchronised_state b))" using Cons.prems(3) by simp
  obtain iv1 b1 where s: "invoker_slot m (iv, b) = (Inr (), (iv1, b1))" "sys_ok elems ordered n (sys_of (iv1, b1))"
    "all_idle iv1" "kept_by_signal b b1" "dom iv1 = dom iv"
    "f_disc_invoker_sig (m_synchronised_state b1) = removeAll m (f_disc_invoker_sig (m_synchronised_state b))"
    "\<forall>j y. cookies_abs (m_client_service_cookies b1) (j, y) =
       (if y = m \<and> 0 < j then None else cookies_abs (m_client_service_cookies b) (j, y))"
    by (rule invoker_slot_ok [OF Cons.prems(1,2) m])
  have "set ms \<subseteq> set (f_disc_invoker_sig (m_synchronised_state b1))" "distinct ms"
    using Cons.prems(3,4) s(6) by auto
  from Cons.IH [OF s(2,3) this] obtain iv2 b2 where r:
    "disconect_managers invoker_slot ms (iv1, b1) = (Inr (), (iv2, b2))" "sys_ok elems ordered n (sys_of (iv2, b2))"
    "all_idle iv2" "kept_by_signal b1 b2" "dom iv2 = dom iv1"
    "set (f_disc_invoker_sig (m_synchronised_state b2)) = set (f_disc_invoker_sig (m_synchronised_state b1)) - set ms"
    "\<forall>j y. cookies_abs (m_client_service_cookies b2) (j, y) =
       (if y \<in> set ms \<and> 0 < j then None else cookies_abs (m_client_service_cookies b1) (j, y))"
    by (elim exE conjE)
  have "disconect_managers invoker_slot (m # ms) (iv, b) = (Inr (), (iv2, b2))"
    using m s(1) r(1) by (simp add: connection_is_connected_def)
  moreover have "set (f_disc_invoker_sig (m_synchronised_state b2)) =
      set (f_disc_invoker_sig (m_synchronised_state b)) - set (m # ms)" using r(6) s(6) by auto
  moreover have "\<forall>j y. cookies_abs (m_client_service_cookies b2) (j, y) =
      (if y \<in> set (m # ms) \<and> 0 < j then None else cookies_abs (m_client_service_cookies b) (j, y))" using r(7) s(7) by simp
  ultimately show ?case using r(2,3,5) s(5) kept_by_signal_trans [OF s(4) r(4)] by auto
qed

end

section \<open>Properties\<close>

text \<open>A linked service whose teardown turns no success into an error, in whatever state it is.\<close>

definition teardown_safe :: "('st, 'ck, 'm) code option \<Rightarrow> bool" where
  "teardown_safe td = (case td of None \<Rightarrow> True | Some g \<Rightarrow> \<forall>st ec. \<not> ec_fails ec \<longrightarrow> \<not> ec_fails (snd (u_teardown (g st) st ec)))"

lemma teardown_safe_tears_down: "teardown_safe (impl_code s) \<Longrightarrow> tears_down s"
  by (auto simp: teardown_safe_def impl_code_def tears_down_def service_teardown_def case_prod_beta split: Impl.splits)

lemma table_shape_tears_down:
  assumes "\<forall>i nm sn t td. table_shape tb i = Some (nm, Some (sn, t, td)) \<longrightarrow> teardown_safe td"
  shows "\<forall>i nm s. oid_abs tb i = Some (nm, Some s) \<longrightarrow> tears_down s"
proof (intro allI impI)
  fix i nm s assume "oid_abs tb i = Some (nm, Some s)"
  then have "table_shape tb i = Some (nm, Some (svc_name s, svc_dispatch_table s, impl_code s))"
    by (simp add: table_shape_def service_shape_def)
  with assms have "teardown_safe (impl_code s)" by blast
  then show "tears_down s" by (rule teardown_safe_tears_down)
qed

text \<open>
  C29: shutting down with in-process clients. When no call is active, no thread is inside an
  invoker and no teardown reports an error, the first step after the initiation disconnects every invoker, however many there
  are: no manager and no client stays connected, the cookies of the connected clients for the linked services are gone,
  those for service 0 stay behind, further calls are refused, all services are torn down, and the
  step reports completion.
\<close>
theorem shutdown_disconnects_everyone:
  assumes "boost_library L elems ordered" "sys_ok elems ordered n s" "all_idle (sys_invokers s)"
    "shutdown_state (m_synchronised_state (sys_backend s)) = BACKEND_SHUTDOWN_INITIATED" "\<not> ec_fails (m_ec (sys_backend s))"
    "\<forall>i nm sn t td. table_shape (m_services (sys_backend s)) i = Some (nm, Some (sn, t, td)) \<longrightarrow> teardown_safe td"
  shows "\<exists>iv' b'. shutdown_step L invoker_slot (sys_invokers s, sys_backend s) = (Inr BACKEND_SHUTDOWN_COMPLETE, (iv', b')) \<and>
    manager_count (m_synchronised_state b') = 0 \<and> m_connected_clients b' = {} \<and>
    dom iv' = dom (sys_invokers s) \<and> (\<forall>x i. iv' x = Some i \<longrightarrow> \<not> ip_is_connected i) \<and>
    \<not> is_accepting_requests (m_synchronised_state b') \<and>
    (\<forall>j x. cookies_abs (m_client_service_cookies b') (j, x) =
       (if 0 < j \<and> x \<in> m_connected_clients (sys_backend s) then None else cookies_abs (m_client_service_cookies (sys_backend s)) (j, x))) \<and>
    (\<forall>i e. map_option snd (oid_abs (m_services b') i) = Some e \<longrightarrow> e = None)"
proof -
  let ?b = "sys_backend s"
  define b0 where "b0 = upd_sync (set_shutdown_state BACKEND_SHUTDOWN_WAITING_ON_MANAGER_DISCONECTIONS \<circ> stop_accepting_requests) ?b"
  have ok0: "sys_ok elems ordered n (sys_of (sys_invokers s, b0))"
    using assms(2) by (simp add: sys_ok_def pool_ok_def run_ok_def sys_of_def b0_def client_ok_upd_sync sync_defs)
  have none: "m_io_posted ?b = []"
  proof (rule ccontr)
    assume "m_io_posted ?b \<noteq> []"
    then obtain x where x: "x \<in> set (m_io_posted ?b)" by fastforce
    then obtain i where i: "sys_invokers s x = Some i" using assms(2) by (auto simp: sys_ok_def)
    then have "ip_mutex i" using sys_ok_client [OF assms(2) i] x by (auto simp: client_ok_def)
    with i assms(3) show False by (simp add: all_idle_def)
  qed
  then have count: "rpc_count (m_synchronised_state ?b) = 0" using assms(2) by (simp add: sys_ok_def pool_ok_def)
  have sig0: "f_disc_invoker_sig (m_synchronised_state b0) = f_disc_invoker_sig (m_synchronised_state ?b)"
    by (simp add: b0_def sync_defs)
  have "distinct (f_disc_invoker_sig (m_synchronised_state ?b))" using assms(2) by (simp add: sys_ok_def pool_ok_def)
  from boost_library.signal_ok [OF assms(1) ok0 assms(3) _ this] obtain iv' b1 where d:
    "disconect_managers invoker_slot (f_disc_invoker_sig (m_synchronised_state ?b)) (sys_invokers s, b0) = (Inr (), (iv', b1))"
    "sys_ok elems ordered n (sys_of (iv', b1))" "all_idle iv'" "kept_by_signal b0 b1" "dom iv' = dom (sys_invokers s)"
    "set (f_disc_invoker_sig (m_synchronised_state b1)) = {}"
    "\<forall>j y. cookies_abs (m_client_service_cookies b1) (j, y) =
       (if y \<in> set (f_disc_invoker_sig (m_synchronised_state ?b)) \<and> 0 < j then None else cookies_abs (m_client_service_cookies b0) (j, y))"
    unfolding sig0 by auto
  have st: "shutdown_state (m_synchronised_state b1) = BACKEND_SHUTDOWN_WAITING_ON_MANAGER_DISCONECTIONS"
    "m_io_posted b1 = []" "\<not> ec_fails (m_ec b1)" "\<not> is_accepting_requests (m_synchronised_state b1)"
    "table_shape (m_services b1) = table_shape (m_services ?b)"
    using d(4) none assms(5) by (simp_all add: kept_by_signal_def b0_def sync_defs)
  have mgr: "manager_count (m_synchronised_state b1) = 0" using d(6) by (simp add: manager_count_def)
  have off: "\<forall>x i. iv' x = Some i \<longrightarrow> \<not> ip_is_connected i \<and> x \<notin> m_connected_clients b1"
    using d(2,6) unfolding sys_ok_def sys_of_def client_ok_def ip_is_connected_def by auto
  moreover have "m_connected_clients b1 \<subseteq> dom iv'" using d(2) by (simp add: sys_ok_def sys_of_def)
  ultimately have conn: "m_connected_clients b1 = {}" by blast
  have eq: "shutdown_step L invoker_slot (sys_invokers s, ?b) = shutdown_step L invoker_slot (iv', b1)"
    using assms(4) count st(1) d(1)
    by (simp add: shutdown_step_def Let_def upd_sync_def b0_def sync_defs)
  have td: "\<forall>i nm s. oid_abs (m_services b1) i = Some (nm, Some s) \<longrightarrow> tears_down s"
    by (rule table_shape_tears_down) (use assms(6) st(5) in simp)
  have run: "run_ok elems ordered n b1" using d(2) by (simp add: sys_ok_def sys_of_def pool_ok_def)
  have cl: "manager_count (m_synchronised_state b1) = 0 \<longrightarrow> clients_size (m_connected_clients b1) = 0"
    using conn by (simp add: clients_size_def)
  obtain b' where b': "shutdown_step L invoker_slot (iv', b1) = (Inr BACKEND_SHUTDOWN_COMPLETE, (iv', b'))"
    "oid_abs (m_services b') = reset_slots UNIV (oid_abs (m_services b1))" "OidContainer_size (m_services b') = n"
    "oid_inv elems ordered (m_services b')" "m_synchronised_state b' = m_synchronised_state b1"
    "m_thread_group b1 > 0 \<longrightarrow> m_io_stopped b'" "m_connected_clients b' = m_connected_clients b1"
    "m_thread_group b' = m_thread_group b1" "\<not> m_work b'" "m_io_posted b' = []"
    "m_client_service_cookies b' = m_client_service_cookies b1"
    by (rule boost_library.shutdown_last_phase [OF assms(1) run st(1) cl st(2,3) td, where disc = invoker_slot and y = iv'])
  have "\<forall>i e. map_option snd (oid_abs (m_services b') i) = Some e \<longrightarrow> e = None"
    unfolding b'(2) by (auto simp: reset_slots_def)
  moreover have "\<forall>j x. cookies_abs (m_client_service_cookies b') (j, x) =
      (if 0 < j \<and> x \<in> m_connected_clients ?b then None else cookies_abs (m_client_service_cookies ?b) (j, x))"
  proof (intro allI)
    fix j :: nat and x
    have "x \<in> set (f_disc_invoker_sig (m_synchronised_state ?b)) \<longleftrightarrow> x \<in> m_connected_clients ?b"
    proof (cases "sys_invokers s x")
      case None
      then show ?thesis using assms(2) unfolding sys_ok_def by blast
    next
      case (Some i)
      then show ?thesis using sys_ok_client [OF assms(2) Some] unfolding client_ok_def by blast
    qed
    then show "cookies_abs (m_client_service_cookies b') (j, x) =
        (if 0 < j \<and> x \<in> m_connected_clients ?b then None else cookies_abs (m_client_service_cookies ?b) (j, x))"
      using d(7) unfolding b'(11) by (auto simp: b0_def)
  qed
  ultimately show ?thesis using eq b' d(5) mgr conn off st(4) by (intro exI [of _ iv'] exI [of _ b']) simp
qed

text \<open>The concrete system with one client, after its shutdown was initiated.\<close>

definition sys_closing :: "(nat list, unit, unit, string) System" where
  "sys_closing = sys_one\<lparr>sys_backend := (upd_sync (snd \<circ> check_and_initiate_shutdown) (sys_backend sys_one))\<lparr>m_ec := ec_clear\<rparr>\<rparr>"

lemma sys_closing_ok: "sys_ok set lst_ordered 2 sys_closing" "all_idle (sys_invokers sys_closing)"
  "shutdown_state (m_synchronised_state (sys_backend sys_closing)) = BACKEND_SHUTDOWN_INITIATED"
proof -
  have "client_ok (b\<lparr>m_ec := ec\<rparr>) x i = client_ok b x i" for b :: demo_backend and ec x i
    by (simp add: client_ok_def callable_def)
  moreover have "f_disc_invoker_sig (snd (check_and_initiate_shutdown st)) = f_disc_invoker_sig st"
    "m_active_rpc_count (snd (check_and_initiate_shutdown st)) = m_active_rpc_count st" for st
    by (simp_all add: sync_defs)
  ultimately show "sys_ok set lst_ordered 2 sys_closing"
    using reachable_ok [OF list_boost_library sys_one_reachable sys_init_ok]
    by (simp add: sys_ok_def sys_closing_def pool_ok_def run_ok_def client_ok_upd_sync rpc_count_def)
  show "all_idle (sys_invokers sys_closing)"
    by (simp add: all_idle_def sys_closing_def sys_one_def put_def sys_init_def fresh_invoker_def InProcessInvoker_members_def)
  show "shutdown_state (m_synchronised_state (sys_backend sys_closing)) = BACKEND_SHUTDOWN_INITIATED"
    by (simp add: sys_closing_def sys_one_def put_def BackEnd_connect_def backend_2_quiet sync_defs SynchronisedBackEndState_new_def)
qed

lemma sys_closing_safe:
  "\<forall>i nm sn t td. table_shape (m_services (sys_backend sys_closing)) i = Some (nm, Some (sn, t, td)) \<longrightarrow> teardown_safe td"
proof (intro allI impI)
  fix i nm sn t and td :: "(unit, unit, string) code option"
  have sv: "m_services (sys_backend sys_closing) = m_services backend_2"
    by (simp add: sys_closing_def sys_one_def put_def BackEnd_connect_def)
  assume "table_shape (m_services (sys_backend sys_closing)) i = Some (nm, Some (sn, t, td))"
  then obtain s where s: "oid_abs (m_services backend_2) i = Some (nm, Some s)" "td = impl_code s"
    unfolding sv by (auto simp: table_shape_def service_shape_def)
  show "teardown_safe td"
    using backend_2_services [OF s(1)] s(2)
    by (auto simp: teardown_safe_def impl_code_def is_basic_def echo_service_ok(3) split: Impl.splits)
      (simp add: echo_impl_def)
qed

theorem shutdown_disconnects_everyone_witness:
  "\<exists>iv' b'. shutdown_step list_boost invoker_slot (sys_invokers sys_closing, sys_backend sys_closing) =
     (Inr BACKEND_SHUTDOWN_COMPLETE, (iv', b')) \<and> m_connected_clients b' = {} \<and> manager_count (m_synchronised_state b') = 0"
proof -
  have "\<not> ec_fails (m_ec (sys_backend sys_closing))" by (simp add: sys_closing_def)
  from shutdown_disconnects_everyone [OF list_boost_library sys_closing_ok this sys_closing_safe] show ?thesis by blast
qed

end
