(* ===== verification/Tcp_Wire.thy ===== *)
theory Tcp_Wire
  imports Client_Data
begin

text \<open>
  What the TCP front end and the TCP invoker use of the protobuf runtime to move messages over
  a connection, and the reading and writing of \<open>Buffer\<close>.

  The coded streams and the encoding of the two envelope messages belong to protobuf: they are
  the fields of a record that the definitions take as an argument, with their documented laws
  in the locale \<open>wire_format\<close>. \<open>ByteSize()\<close> is the length of the encoding. The result of
  \<open>ParseFromArray\<close> and \<open>ParseFromCodedStream\<close> is ignored by the code, so parsing is the
  function to the message that is left behind.
\<close>

unbundle bit_operations_syntax

record wire =
  WriteLittleEndian32 :: "uint32 \<Rightarrow> byte list"
  ReadLittleEndian32 :: "byte list \<Rightarrow> uint32"
  ser_ClientRequest :: "ClientRequest \<Rightarrow> byte list"
  parse_ClientRequest :: "byte list \<Rightarrow> ClientRequest"
  ser_ClientResponse :: "ClientResponse \<Rightarrow> byte list"
  parse_ClientResponse :: "byte list \<Rightarrow> ClientResponse"

text \<open>Messages whose required fields are set.\<close>

definition request_complete :: "ClientRequest \<Rightarrow> bool" where
  "request_complete r \<longleftrightarrow> cr_service_ordinal r \<noteq> None \<and> cr_request_ordinal r \<noteq> None \<and> cr_request_string r \<noteq> None"

definition response_complete :: "ClientResponse \<Rightarrow> bool" where
  "response_complete r \<longleftrightarrow> cs_error r \<noteq> None"

locale wire_format =
  fixes W :: wire
  assumes write_length [simp]: "length (WriteLittleEndian32 W w) = 4"
    and read_write [simp]: "ReadLittleEndian32 W (WriteLittleEndian32 W w) = w"
    and request_roundtrip: "request_complete r \<Longrightarrow> parse_ClientRequest W (ser_ClientRequest W r) = r"
    and response_roundtrip: "response_complete s \<Longrightarrow> parse_ClientResponse W (ser_ClientResponse W s) = s"

section \<open>Frames\<close>

text \<open>A message on the wire: 32 bits of flags, 32 bits for the size of all of it, the encoding.\<close>

definition frame :: "wire \<Rightarrow> uint32 \<Rightarrow> byte list \<Rightarrow> byte list" where
  "frame W flags body =
     WriteLittleEndian32 W flags @ WriteLittleEndian32 W (8 + of_nat (length body)) @ body"

definition header_flags :: "wire \<Rightarrow> byte list \<Rightarrow> uint32" where
  "header_flags W bs = ReadLittleEndian32 W (take 4 bs)"

definition header_size :: "wire \<Rightarrow> byte list \<Rightarrow> uint32" where
  "header_size W bs = ReadLittleEndian32 W (take 4 (drop 4 bs))"

context wire_format
begin

lemma frame_header [simp]:
  "header_flags W (take 8 (frame W f body)) = f"
  "header_size W (take 8 (frame W f body)) = 8 + of_nat (length body)"
  by (simp_all add: header_flags_def header_size_def frame_def take_drop)

lemma frame_split: "take 8 (frame W f body) = WriteLittleEndian32 W f @ WriteLittleEndian32 W (8 + of_nat (length body))"
  "drop 8 (frame W f body) = body" "length (frame W f body) = 8 + length body"
  by (simp_all add: frame_def)

end

text \<open>A message that fits the 32 bits of the size field.\<close>

definition sendable :: "byte list \<Rightarrow> bool" where
  "sendable body \<longleftrightarrow> 8 + length body < 2 ^ 32"

lemma sendable_size: "sendable body \<Longrightarrow> unat (8 + of_nat (length body) :: uint32) = 8 + length body"
proof -
  assume "sendable body"
  then have "8 + length body < 4294967296" by (simp add: sendable_def)
  moreover have "(8 + of_nat (length body) :: uint32) = of_nat (8 + length body)" by simp
  ultimately show ?thesis by (simp only: unat_of_nat) simp
qed

section \<open>Writing into a buffer\<close>

text \<open>
  Storing bytes from the start of the array: beyond its end that is undefined. Reading the
  first \<open>n\<close> bytes of it.
\<close>

definition Buffer_store :: "byte list \<Rightarrow> Buffer \<Rightarrow> (exn, Buffer) res" where
  "Buffer_store bs b =
     (if length bs > buf_size b then Inl UndefinedBehaviour
      else Inr (b\<lparr>buf := bs @ drop (length bs) (buf b)\<rparr>))"

definition Buffer_bytes :: "nat \<Rightarrow> Buffer \<Rightarrow> byte list" where
  "Buffer_bytes n b = take n (buf b)"

lemma Buffer_store_ok:
  "length bs \<le> buf_size b \<Longrightarrow> Buffer_store bs b = Inr (b\<lparr>buf := bs @ drop (length bs) (buf b)\<rparr>)"
  by (simp add: Buffer_store_def)

lemma Buffer_bytes_store: "Buffer_store bs b = Inr b' \<Longrightarrow> Buffer_bytes (length bs) b' = bs"
  by (auto simp: Buffer_store_def Buffer_bytes_def split: if_splits)

section \<open>A reference encoding\<close>

text \<open>Little-endian words, and an encoding of the messages that satisfies the laws.\<close>

definition le32 :: "uint32 \<Rightarrow> byte list" where
  "le32 w = [ucast w, ucast (drop_bit 8 w), ucast (drop_bit 16 w), ucast (drop_bit 24 w)]"

fun of_le32 :: "byte list \<Rightarrow> uint32" where
  "of_le32 [] = 0"
| "of_le32 (b # bs) = ucast b OR push_bit 8 (of_le32 bs)"

lemma of_le32_le32: "of_le32 (le32 w) = w"
proof (rule bit_word_eqI)
  fix n assume n: "n < LENGTH(32)"
  have "n - 8 - 8 = n - 16" "n - 16 - 8 = n - 24" by simp_all
  then show "bit (of_le32 (le32 w)) n = bit w n"
    using n by (auto simp: le32_def bit_simps) (cases "24 \<le> n"; simp)
qed

definition enc_word :: "uint32 option \<Rightarrow> byte list" where
  "enc_word x = (case x of None \<Rightarrow> [0, 0, 0, 0, 0] | Some w \<Rightarrow> 1 # le32 w)"

definition dec_word :: "byte list \<Rightarrow> uint32 option" where
  "dec_word bs = (if hd bs = 0 then None else Some (of_le32 (take 4 (tl bs))))"

definition enc_string :: "string option \<Rightarrow> byte list" where
  "enc_string x = (case x of None \<Rightarrow> [] | Some s \<Rightarrow> 1 # map (\<lambda>c. of_nat (of_char c)) s)"

definition dec_string :: "byte list \<Rightarrow> string option" where
  "dec_string bs = (case bs of [] \<Rightarrow> None | _ # cs \<Rightarrow> Some (map (\<lambda>b. char_of (unat b)) cs))"

fun enc_error :: "ClientResponseErrorType option \<Rightarrow> byte" where
  "enc_error None = 0"
| "enc_error (Some REQUEST_SUCCESS) = 1"
| "enc_error (Some REQUEST_BACKEND_NOT_ACCEPTING_REQUESTS) = 2"
| "enc_error (Some REQUEST_CLIENT_NOT_ESTABLISHED) = 3"
| "enc_error (Some REQUEST_NO_SERVICE_WITH_ORDINAL) = 4"
| "enc_error (Some REQUEST_NO_FUNCTION_WITH_ORDINAL) = 5"
| "enc_error (Some REQUEST_NOT_SUBSCRIBED) = 6"
| "enc_error (Some REQUEST_STRING_PARSE_ERROR) = 7"
| "enc_error (Some REQUEST_STRING_SERIALIZE_ERROR) = 8"

definition dec_error :: "byte \<Rightarrow> ClientResponseErrorType option" where
  "dec_error b =
     (if b = 0 then None else if b = 1 then Some REQUEST_SUCCESS
      else if b = 2 then Some REQUEST_BACKEND_NOT_ACCEPTING_REQUESTS else if b = 3 then Some REQUEST_CLIENT_NOT_ESTABLISHED
      else if b = 4 then Some REQUEST_NO_SERVICE_WITH_ORDINAL else if b = 5 then Some REQUEST_NO_FUNCTION_WITH_ORDINAL
      else if b = 6 then Some REQUEST_NOT_SUBSCRIBED else if b = 7 then Some REQUEST_STRING_PARSE_ERROR
      else Some REQUEST_STRING_SERIALIZE_ERROR)"

definition demo_wire :: wire where
  "demo_wire =
     \<lparr>WriteLittleEndian32 = le32, ReadLittleEndian32 = of_le32,
      ser_ClientRequest = \<lambda>r. enc_word (cr_service_ordinal r) @ enc_word (cr_request_ordinal r) @ enc_string (cr_request_string r),
      parse_ClientRequest = \<lambda>bs. \<lparr>cr_service_ordinal = dec_word bs, cr_request_ordinal = dec_word (drop 5 bs),
                                  cr_request_string = dec_string (drop 10 bs)\<rparr>,
      ser_ClientResponse = \<lambda>s. enc_error (cs_error s) # enc_string (cs_response_string s),
      parse_ClientResponse = \<lambda>bs. \<lparr>cs_response_string = dec_string (tl bs), cs_error = dec_error (hd bs)\<rparr>\<rparr>"

lemma enc_dec [simp]:
  "length (enc_word x) = 5" "dec_word (enc_word x @ bs) = x" "dec_string (enc_string y) = y" "dec_error (enc_error z) = z"
proof -
  show "length (enc_word x) = 5" by (simp add: enc_word_def le32_def split: option.split)
  have "take 4 (le32 w @ bs) = le32 w" for w by (simp add: le32_def)
  then show "dec_word (enc_word x @ bs) = x"
    by (simp add: enc_word_def dec_word_def of_le32_le32 split: option.split)
  have "char_of (unat (of_nat (of_char c) :: byte)) = c" for c
    using nat_of_char_less_256 [of c] by (simp add: unat_of_nat)
  then show "dec_string (enc_string y) = y"
    by (auto simp: enc_string_def dec_string_def o_def split: option.split)
  show "dec_error (enc_error z) = z" by (cases z rule: enc_error.cases) (simp_all add: dec_error_def)
qed

lemma demo_wire_format: "wire_format demo_wire"
proof
  show "length (WriteLittleEndian32 demo_wire w) = 4" "ReadLittleEndian32 demo_wire (WriteLittleEndian32 demo_wire w) = w" for w
    by (simp_all add: demo_wire_def of_le32_le32) (simp add: le32_def)
  show "parse_ClientRequest demo_wire (ser_ClientRequest demo_wire r) = r" for r
    by (simp add: demo_wire_def)
  show "parse_ClientResponse demo_wire (ser_ClientResponse demo_wire s) = s" for s
    by (simp add: demo_wire_def)
qed

interpretation dw: wire_format demo_wire
  by (rule demo_wire_format)

end
