(* ===== verification/Tcp_Front_End.thy ===== *)
theory Tcp_Front_End
  imports Tcp_Wire In_Process_Invoker
begin

text \<open>
  The TCP front end (\<^verbatim>\<open>include/rpc/frontend/TcpFrontEnd.h\<close>,
  \<^verbatim>\<open>src/rpc/server/TcpFrontEnd.cc\<close>): the invoker of one connection with the handlers of its
  asynchronous reads and writes, and the front end that accepts connections and takes them down.

  A connection invoker owns its client data, so the client's number names it. \<open>tc_io\<close> is
  the asynchronous operation that is outstanding on its socket; an operation completes by calling
  its handler with the number of bytes and an error code, of which the handlers only use whether
  it is set. The set of connections is an association list in the order of its iteration. A
  handler that runs for a connection that is gone has a dangling \<open>this\<close>.
  Errors of the sockets are arguments. The mutex of the front end makes \<open>start\<close>,
  \<open>connect_to_backend\<close> and \<open>disconnect_from_backend\<close> atomic.
\<close>

section \<open>State\<close>

datatype FRONT_END_CONNECTION_IO_STATE =
    IO_READ_HEADER_WAIT_REQUEST_START_INACTIVE
  | IO_READ_BODY_REQUEST_ACTIVE
  | IO_REQUEST_DISPATCHED_ACTIVE
  | IO_REQUEST_RESPONSE_WRITE_ACTIVE

datatype async_io = NoIo | ReadHeader | ReadBody nat | WriteResponse "byte list"

record TcpFrontEndConnectionInvoker =
  tc_base :: InvokerBase
  tc_buffer :: Buffer
  tc_io_state :: FRONT_END_CONNECTION_IO_STATE
  tc_io :: async_io

type_synonym t_connection_set = "(cid \<times> TcpFrontEndConnectionInvoker) list"

record TcpFrontEnd =
  tf_rpc_count :: int
  tf_port :: int
  tf_accepting_requests :: bool
  tf_accept_outstanding :: bool
  tf_acceptor :: bool
  tf_connections :: t_connection_set
  tf_started :: bool
  tf_connected_to_backend :: bool
  tf_shutdown_initiated :: bool
  tf_shutdown_notification :: NotificationObject

type_synonym ('ix, 'st, 'ck, 'm) tcp_world = "TcpFrontEnd \<times> ('ix, 'st, 'ck, 'm) BackEnd"

definition TcpFrontEnd_members :: "int \<Rightarrow> TcpFrontEnd" where
  "TcpFrontEnd_members port =
     \<lparr>tf_rpc_count = 0, tf_port = port, tf_accepting_requests = False, tf_accept_outstanding = False,
      tf_acceptor = False, tf_connections = [], tf_started = False, tf_connected_to_backend = False,
      tf_shutdown_initiated = False, tf_shutdown_notification = NotificationObject_new\<rparr>"

definition conn :: "cid \<Rightarrow> TcpFrontEnd \<Rightarrow> TcpFrontEndConnectionInvoker option" where
  "conn x tf = map_of (tf_connections tf) x"

definition set_conn :: "cid \<Rightarrow> TcpFrontEndConnectionInvoker \<Rightarrow> TcpFrontEnd \<Rightarrow> TcpFrontEnd" where
  "set_conn x c tf = tf\<lparr>tf_connections := AList.update x c (tf_connections tf)\<rparr>"

definition add_rpc :: "int \<Rightarrow> TcpFrontEnd \<Rightarrow> TcpFrontEnd" where
  "add_rpc d tf = tf\<lparr>tf_rpc_count := tf_rpc_count tf + d\<rparr>"

definition tc_client :: "TcpFrontEndConnectionInvoker \<Rightarrow> ClientData" where
  "tc_client c = inv_client_data (tc_base c)"

definition tc_upd_client :: "(ClientData \<Rightarrow> ClientData) \<Rightarrow> TcpFrontEndConnectionInvoker \<Rightarrow> TcpFrontEndConnectionInvoker" where
  "tc_upd_client f c = c\<lparr>tc_base := (tc_base c)\<lparr>inv_client_data := f (inv_client_data (tc_base c))\<rparr>\<rparr>"

section \<open>TcpFrontEndConnectionInvoker\<close>

definition TcpFrontEndConnectionInvoker_new :: "cid \<Rightarrow> ('ix, 'st, 'ck, 'm) BackEnd
    \<Rightarrow> TcpFrontEndConnectionInvoker \<times> ('ix, 'st, 'ck, 'm) BackEnd" where
  "TcpFrontEndConnectionInvoker_new x b =
     (\<lparr>tc_base = InvokerBase_new, tc_buffer = Buffer_new,
       tc_io_state = IO_READ_HEADER_WAIT_REQUEST_START_INACTIVE, tc_io = NoIo\<rparr>, BackEnd_connect x b)"

definition TcpFrontEndConnectionInvoker_destroy :: "cid \<Rightarrow> TcpFrontEndConnectionInvoker \<Rightarrow> ('ix, 'st, 'ck, 'm) BackEnd
    \<Rightarrow> (exn, unit, ('ix, 'st, 'ck, 'm) BackEnd) sres" where
  "TcpFrontEndConnectionInvoker_destroy x c b =
     (case BackEnd_disconnect x (tc_client c, b) of (r, (cd, b)) \<Rightarrow> (r, b))"

definition tcp_is_useable :: "('ix, 'st, 'ck, 'm) tcp_world \<Rightarrow> bool" where
  "tcp_is_useable w = is_useable (snd w)"

definition tcp_reset :: "TcpFrontEndConnectionInvoker \<Rightarrow> TcpFrontEndConnectionInvoker" where
  "tcp_reset c =
     tc_upd_client (\<lambda>cd. cd\<lparr>cd_request := ClientRequest_Clear, cd_response := ClientResponse_Clear, cd_ec := ec_clear\<rparr>) c"

text \<open>\<open>after_post\<close> does nothing: the response is written when the handler ran.\<close>

definition tcp_invoke :: "protobuf \<Rightarrow> cid \<Rightarrow> TcpFrontEndConnectionInvoker \<times> ('ix, 'st, 'ck, 'm) BackEnd
    \<Rightarrow> (exn, bool, TcpFrontEndConnectionInvoker \<times> ('ix, 'st, 'ck, 'm) BackEnd) sres" where
  "tcp_invoke P x w =
     (case w of (c, b) \<Rightarrow>
        case invoke P x (tc_base c, b) of (r, (base, b)) \<Rightarrow> (r, (c\<lparr>tc_base := base\<rparr>, b)))"

text \<open>
  Writing the response: the size counts the header of 8 bytes, the buffer grows if it is too
  small, the coded stream writes no further than the end of the array.
\<close>

definition handle_write_response :: "wire \<Rightarrow> cid \<Rightarrow> ('ix, 'st, 'ck, 'm) tcp_world
    \<Rightarrow> (exn, unit, ('ix, 'st, 'ck, 'm) tcp_world) sres" where
  "handle_write_response W x w =
     (case w of (tf, b) \<Rightarrow>
        let tf = add_rpc (- 1) tf in
        case conn x tf of
          None \<Rightarrow> (Inl UndefinedBehaviour, (tf, b))
        | Some c \<Rightarrow>
            let body = ser_ClientResponse W (cd_response (tc_client c));
                msg_size = (8 + of_nat (length body) :: uint32);
                bu = (if unat msg_size > buf_size (tc_buffer c) then Buffer_resize (unat msg_size) (tc_buffer c)
                      else tc_buffer c)
            in case Buffer_store (take (buf_size bu)
                      (WriteLittleEndian32 W 0 @ WriteLittleEndian32 W msg_size @ body)) bu of
                 Inl e \<Rightarrow> (Inl e, (tf, b))
               | Inr bu \<Rightarrow>
                   (Inr (), (set_conn x (c\<lparr>tc_io_state := IO_REQUEST_RESPONSE_WRITE_ACTIVE, tc_buffer := bu,
                                         tc_io := WriteResponse (Buffer_bytes (unat msg_size) bu)\<rparr>) tf, b)))"

text \<open>\<open>operator()\<close>, on a pool thread of the backend.\<close>

definition tcp_operator :: "wire \<Rightarrow> protobuf \<Rightarrow> cid \<Rightarrow> ('ix, 'st, 'ck, 'm) tcp_world
    \<Rightarrow> (exn, unit, ('ix, 'st, 'ck, 'm) tcp_world) sres" where
  "tcp_operator W P x w =
     (case w of (tf, b) \<Rightarrow>
        case conn x tf of
          None \<Rightarrow> (Inl UndefinedBehaviour, (tf, b))
        | Some c \<Rightarrow>
            (case run_invoker P x (tc_base c, b) of
               (Inl e, (base, b)) \<Rightarrow> (Inl e, (set_conn x (c\<lparr>tc_base := base\<rparr>) tf, b))
             | (Inr _, (base, b)) \<Rightarrow> handle_write_response W x (set_conn x (c\<lparr>tc_base := base\<rparr>) tf, b)))"

text \<open>
  Taking a connection down; \<open>errs\<close> says whether shutting the socket down and closing it
  report an error. The connection object is destroyed once it is erased and the handler
  that holds the last reference returns.
\<close>

definition disconnect_client :: "bool \<times> bool \<Rightarrow> cid \<Rightarrow> TcpFrontEnd \<Rightarrow> (exn, unit, TcpFrontEnd) sres" where
  "disconnect_client errs x tf =
     (if fst errs then (Inl FrontEndException, tf)
      else if snd errs then (Inl FrontEndException, tf)
      else if conn x tf = None then (Inl FrontEndException, tf)
      else (Inr (), tf\<lparr>tf_connections := AList.delete x (tf_connections tf)\<rparr>))"

definition drop_connection :: "bool \<times> bool \<Rightarrow> cid \<Rightarrow> ('ix, 'st, 'ck, 'm) tcp_world
    \<Rightarrow> (exn, unit, ('ix, 'st, 'ck, 'm) tcp_world) sres" where
  "drop_connection errs x w =
     (case w of (tf, b) \<Rightarrow>
        case conn x tf of
          None \<Rightarrow> (Inl UndefinedBehaviour, (tf, b))
        | Some c \<Rightarrow>
            (case disconnect_client errs x tf of
               (Inl e, tf) \<Rightarrow> (Inl e, (tf, b))
             | (Inr _, tf) \<Rightarrow>
                 (case TcpFrontEndConnectionInvoker_destroy x c b of (r, b) \<Rightarrow> (r, (tf, b)))))"

text \<open>\<open>handle_error\<close> only writes to the console: the connection keeps no outstanding operation.\<close>

definition handle_error :: "cid \<Rightarrow> ('ix, 'st, 'ck, 'm) tcp_world \<Rightarrow> (exn, unit, ('ix, 'st, 'ck, 'm) tcp_world) sres" where
  "handle_error x w = (Inr (), w)"

definition handle_read_header :: "wire \<Rightarrow> bool \<times> bool \<Rightarrow> cid \<Rightarrow> nat \<Rightarrow> bool \<Rightarrow> ('ix, 'st, 'ck, 'm) tcp_world
    \<Rightarrow> (exn, unit, ('ix, 'st, 'ck, 'm) tcp_world) sres" where
  "handle_read_header W errs x bytes_sent error w =
     (case w of (tf, b) \<Rightarrow>
        if error then handle_error x (tf, b)
        else if tf_shutdown_initiated tf then drop_connection errs x (tf, b)
        else case conn x tf of
          None \<Rightarrow> (Inl UndefinedBehaviour, (tf, b))
        | Some c \<Rightarrow>
            let header = Buffer_bytes 8 (tc_buffer c);
                msg_sz = header_size W header;
                bu = (if unat msg_sz < buf_size (tc_buffer c) then Buffer_resize (unat msg_sz) (tc_buffer c)
                      else tc_buffer c)
            in (Inr (), (set_conn x ((tc_upd_client (\<lambda>cd. cd\<lparr>cd_flags := header_flags W header\<rparr>) c)
                   \<lparr>tc_buffer := bu, tc_io_state := IO_READ_BODY_REQUEST_ACTIVE,
                    tc_io := ReadBody (unat (msg_sz - 8))\<rparr>) tf, b)))"

definition handle_read_body :: "wire \<Rightarrow> protobuf \<Rightarrow> cid \<Rightarrow> nat \<Rightarrow> bool \<Rightarrow> ('ix, 'st, 'ck, 'm) tcp_world
    \<Rightarrow> (exn, unit, ('ix, 'st, 'ck, 'm) tcp_world) sres" where
  "handle_read_body W P x bytes_sent error w =
     (case w of (tf, b) \<Rightarrow>
        if error then handle_error x (tf, b)
        else case conn x tf of
          None \<Rightarrow> (Inl UndefinedBehaviour, (tf, b))
        | Some c \<Rightarrow>
            let c = (tc_upd_client (\<lambda>cd. cd\<lparr>cd_request := parse_ClientRequest W (Buffer_bytes bytes_sent (tc_buffer c))\<rparr>) c)
                      \<lparr>tc_io_state := IO_REQUEST_DISPATCHED_ACTIVE\<rparr>;
                tf = add_rpc 1 tf
            in case tcp_invoke P x (c, b) of
                 (Inl e, (c, b)) \<Rightarrow> (Inl e, (set_conn x c tf, b))
               | (Inr finished, (c, b)) \<Rightarrow>
                   if finished
                   then sbind (handle_write_response W x (set_conn x c tf, b)) (\<lambda>_ (tf, b). (Inr (), (add_rpc (- 1) tf, b)))
                   else (Inr (), (set_conn x c tf, b)))"

definition handle_reset_for_next_request :: "cid \<Rightarrow> nat \<Rightarrow> bool \<Rightarrow> ('ix, 'st, 'ck, 'm) tcp_world
    \<Rightarrow> (exn, unit, ('ix, 'st, 'ck, 'm) tcp_world) sres" where
  "handle_reset_for_next_request x bytes_sent error w =
     (case w of (tf, b) \<Rightarrow>
        if error then handle_error x (tf, b)
        else case conn x tf of
          None \<Rightarrow> (Inl UndefinedBehaviour, (tf, b))
        | Some c \<Rightarrow>
            (Inr (), (set_conn x (c\<lparr>tc_io_state := IO_READ_HEADER_WAIT_REQUEST_START_INACTIVE, tc_io := ReadHeader\<rparr>) tf, b)))"

section \<open>TcpFrontEnd\<close>

definition tf_connect_to_backend :: "('ix, 'st, 'ck, 'm) tcp_world \<Rightarrow> (exn, unit, ('ix, 'st, 'ck, 'm) tcp_world) sres" where
  "tf_connect_to_backend w =
     (case w of (tf, b) \<Rightarrow>
        if tf_started tf then (Inl FrontEndException, (tf, b))
        else (Inr (), (tf\<lparr>tf_connected_to_backend := True\<rparr>, b)))"

definition TcpFrontEnd_new :: "mid \<Rightarrow> int \<Rightarrow> ('ix, 'st, 'ck, 'm) BackEnd
    \<Rightarrow> (exn, unit, ('ix, 'st, 'ck, 'm) tcp_world) sres" where
  "TcpFrontEnd_new m port b =
     (let tf = TcpFrontEnd_members port in
      if \<not> is_useable b then (Inl FrontEndException, (tf, b))
      else register_invoker_manager tf_connect_to_backend m (tf, b))"

definition start_accept :: "TcpFrontEnd \<Rightarrow> TcpFrontEnd" where
  "start_accept tf = tf\<lparr>tf_accepting_requests := True, tf_accept_outstanding := True\<rparr>"

text \<open>Opening the acceptor throws \<open>boost::system::system_error\<close> if the port cannot be bound.\<close>

definition TcpFrontEnd_start :: "bool \<Rightarrow> TcpFrontEnd \<Rightarrow> (exn, unit, TcpFrontEnd) sres" where
  "TcpFrontEnd_start bound tf =
     (if tf_started tf then (Inl FrontEndException, tf)
      else if \<not> bound then (Inl SystemError, tf)
      else (Inr (), (start_accept (tf\<lparr>tf_acceptor := True\<rparr>))\<lparr>tf_started := True\<rparr>))"

definition handle_accept :: "cid \<Rightarrow> bool \<Rightarrow> ('ix, 'st, 'ck, 'm) tcp_world \<Rightarrow> ('ix, 'st, 'ck, 'm) tcp_world" where
  "handle_accept x error w =
     (case w of (tf, b) \<Rightarrow>
        if \<not> error then
          (case TcpFrontEndConnectionInvoker_new x b of
             (c, b) \<Rightarrow> (start_accept (set_conn x (c\<lparr>tc_io := ReadHeader\<rparr>) tf), b))
        else (tf\<lparr>tf_accept_outstanding := False\<rparr>, b))"

text \<open>
  The loop of \<open>shutdown_handler\<close> over \<open>m_connections\<close>. Taking a connection down erases the
  element the loop's iterator points to, and C++ leaves undefined what advancing that iterator does: \<open>intact x\<close> says
  whether the memory of the erased element \<open>x\<close> is still as it was, so that the loop goes on with the next one.
\<close>

fun shutdown_connections :: "(cid \<Rightarrow> bool \<times> bool) \<Rightarrow> (cid \<Rightarrow> bool) \<Rightarrow> t_connection_set \<Rightarrow> ('ix, 'st, 'ck, 'm) tcp_world
    \<Rightarrow> (exn, unit, ('ix, 'st, 'ck, 'm) tcp_world) sres" where
  "shutdown_connections errs intact [] w = (Inr (), w)"
| "shutdown_connections errs intact ((x, c) # cs) w =
     (if tc_io_state c = IO_READ_HEADER_WAIT_REQUEST_START_INACTIVE
      then sbind (drop_connection (errs x) x w) (\<lambda>_ w.
             if intact x then shutdown_connections errs intact cs w else (Inl UndefinedBehaviour, w))
      else shutdown_connections errs intact cs w)"

definition shutdown_handler :: "bool \<times> bool \<Rightarrow> (cid \<Rightarrow> bool \<times> bool) \<Rightarrow> (cid \<Rightarrow> bool) \<Rightarrow> ('ix, 'st, 'ck, 'm) tcp_world
    \<Rightarrow> (exn, unit, ('ix, 'st, 'ck, 'm) tcp_world) sres" where
  "shutdown_handler acc_errs errs intact w =
     (case w of (tf, b) \<Rightarrow>
        let tf = tf\<lparr>tf_shutdown_initiated := True\<rparr> in
        if \<not> tf_acceptor tf then (Inl AssertionFailed, (tf, b))
        else if fst acc_errs then (Inl FrontEndException, (tf, b))
        else if snd acc_errs then (Inl FrontEndException, (tf, b))
        else let tf = tf\<lparr>tf_accept_outstanding := False\<rparr> in
          sbind (shutdown_connections errs intact (tf_connections tf) (tf, b))
            (\<lambda>_ (tf, b). (Inr (), (tf\<lparr>tf_shutdown_notification := notify_one (tf_shutdown_notification tf)\<rparr>, b))))"

text \<open>
  What the code uses of \<open>boost::asio::io_service\<close> when it stops: whether the thread that \<open>start\<close> created is still in
  \<open>run()\<close>, and so runs a handler that is posted now, and what \<open>stopped()\<close> returns after each number of sleeps.
\<close>

record io_service =
  ios_runs :: bool
  ios_stopped :: "nat \<Rightarrow> bool"

text \<open>
  \<open>while(m_io_service.stopped() != true)\<close> with the count of tries, after \<open>k\<close> sleeps; \<open>env\<close> lists what the I/O
  thread and the pool do to the state during each sleep (nothing, when the list is at its end).
\<close>

fun await_stopped :: "(nat \<Rightarrow> bool) \<Rightarrow> nat \<Rightarrow> nat \<Rightarrow> (('ix, 'st, 'ck, 'm) tcp_world \<Rightarrow> ('ix, 'st, 'ck, 'm) tcp_world) list
    \<Rightarrow> ('ix, 'st, 'ck, 'm) tcp_world \<Rightarrow> (exn, unit, ('ix, 'st, 'ck, 'm) tcp_world) sres" where
  "await_stopped stopped k shutdown_count env w =
     (if stopped k then (Inr (), w)
      else case shutdown_count of
             0 \<Rightarrow> (Inl FrontEndException, w)
           | Suc n \<Rightarrow> await_stopped stopped (Suc k) n (tl env) ((case env of [] \<Rightarrow> id | f # _ \<Rightarrow> f) w))"

text \<open>An exception that leaves the function of a thread ends the program.\<close>

definition leaves_thread :: "exn \<Rightarrow> exn" where
  "leaves_thread e = (if e \<in> {AssertionFailed, UndefinedBehaviour} then e else Terminate)"

text \<open>
  \<open>disconnect_from_backend\<close>: the handler is posted to the I/O service, whose thread runs it while the caller waits for
  its notification, which never comes when no thread runs the service. The wait is taken not to end spuriously.
\<close>

definition tf_disconnect_from_backend :: "mid \<Rightarrow> io_service \<Rightarrow> bool \<times> bool \<Rightarrow> (cid \<Rightarrow> bool \<times> bool) \<Rightarrow> (cid \<Rightarrow> bool)
    \<Rightarrow> (('ix, 'st, 'ck, 'm) tcp_world \<Rightarrow> ('ix, 'st, 'ck, 'm) tcp_world) list
    \<Rightarrow> ('ix, 'st, 'ck, 'm) tcp_world \<Rightarrow> (exn, unit, ('ix, 'st, 'ck, 'm) tcp_world) sres" where
  "tf_disconnect_from_backend m io acc_errs errs intact env w =
     (if tf_shutdown_initiated (fst w) then (Inr (), w)
      else if \<not> connection_is_connected m (m_synchronised_state (snd w)) then (Inr (), w)
      else if \<not> tf_started (fst w) \<or> \<not> ios_runs io then (Inl Blocked, w)
      else case shutdown_handler acc_errs errs intact w of
             (Inl e, w) \<Rightarrow> (Inl (leaves_thread e), w)
           | (Inr _, w) \<Rightarrow>
               (case wait_for_notification False (tf_shutdown_notification (fst w)) of
                  Inl e \<Rightarrow> (Inl e, w)
                | Inr _ \<Rightarrow>
                    sbind (await_stopped (ios_stopped io) 0 5 env w) (\<lambda>_ (tf, b).
                      (Inr (), (tf, upd_sync (snd \<circ> connection_disconnect m) b)))))"

definition TcpFrontEnd_stop :: "mid \<Rightarrow> io_service \<Rightarrow> bool \<times> bool \<Rightarrow> (cid \<Rightarrow> bool \<times> bool) \<Rightarrow> (cid \<Rightarrow> bool)
    \<Rightarrow> (('ix, 'st, 'ck, 'm) tcp_world \<Rightarrow> ('ix, 'st, 'ck, 'm) tcp_world) list
    \<Rightarrow> ('ix, 'st, 'ck, 'm) tcp_world \<Rightarrow> (exn, unit, ('ix, 'st, 'ck, 'm) tcp_world) sres" where
  "TcpFrontEnd_stop m io acc_errs errs intact env w = tf_disconnect_from_backend m io acc_errs errs intact env w"

definition connection_count :: "TcpFrontEnd \<Rightarrow> nat" where
  "connection_count tf = length (tf_connections tf)"

definition is_accepting :: "TcpFrontEnd \<Rightarrow> bool" where
  "is_accepting tf = tf_accepting_requests tf"

section \<open>Completion of asynchronous operations\<close>

text \<open>
  The outstanding operation of connection \<open>x\<close> completes: a read stored its bytes at the start of the
  buffer, a write is done, or the operation failed. The operation is over when its handler runs.
\<close>

definition read_done :: "wire \<Rightarrow> protobuf \<Rightarrow> bool \<times> bool \<Rightarrow> cid \<Rightarrow> byte list \<Rightarrow> ('ix, 'st, 'ck, 'm) tcp_world
    \<Rightarrow> (exn, unit, ('ix, 'st, 'ck, 'm) tcp_world) sres" where
  "read_done W P errs x bs w =
     (case conn x (fst w) of
        None \<Rightarrow> (Inl UndefinedBehaviour, w)
      | Some c \<Rightarrow>
          (case Buffer_store bs (tc_buffer c) of
             Inl e \<Rightarrow> (Inl e, w)
           | Inr bu \<Rightarrow>
               let w = (set_conn x (c\<lparr>tc_buffer := bu, tc_io := NoIo\<rparr>) (fst w), snd w) in
               case tc_io c of
                 ReadHeader \<Rightarrow> handle_read_header W errs x (length bs) False w
               | ReadBody n \<Rightarrow> handle_read_body W P x (length bs) False w
               | _ \<Rightarrow> (Inl UndefinedBehaviour, w)))"

definition write_done :: "cid \<Rightarrow> nat \<Rightarrow> ('ix, 'st, 'ck, 'm) tcp_world
    \<Rightarrow> (exn, unit, ('ix, 'st, 'ck, 'm) tcp_world) sres" where
  "write_done x n w =
     (case conn x (fst w) of
        None \<Rightarrow> (Inl UndefinedBehaviour, w)
      | Some c \<Rightarrow> handle_reset_for_next_request x n False (set_conn x (c\<lparr>tc_io := NoIo\<rparr>) (fst w), snd w))"

definition io_failed :: "wire \<Rightarrow> protobuf \<Rightarrow> cid \<Rightarrow> ('ix, 'st, 'ck, 'm) tcp_world
    \<Rightarrow> (exn, unit, ('ix, 'st, 'ck, 'm) tcp_world) sres" where
  "io_failed W P x w =
     (case conn x (fst w) of
        None \<Rightarrow> (Inl UndefinedBehaviour, w)
      | Some c \<Rightarrow>
          let w = (set_conn x (c\<lparr>tc_io := NoIo\<rparr>) (fst w), snd w) in
          case tc_io c of
            ReadHeader \<Rightarrow> handle_read_header W (False, False) x 0 True w
          | ReadBody n \<Rightarrow> handle_read_body W P x 0 True w
          | WriteResponse bs \<Rightarrow> handle_reset_for_next_request x 0 True w
          | NoIo \<Rightarrow> (Inl UndefinedBehaviour, w))"

section \<open>Simplification\<close>

lemma conn_set_conn [simp]: "conn x (set_conn y c tf) = (if x = y then Some c else conn x tf)"
  by (simp add: conn_def set_conn_def update_conv')

lemma set_conn_twice [simp]: "set_conn x c (set_conn x c' tf) = set_conn x c tf"
proof -
  have "AList.update x c (AList.update x c' cs) = AList.update x c cs" for cs :: t_connection_set
    by (induction cs) auto
  then show ?thesis by (simp add: set_conn_def)
qed

lemma set_conn_simps [simp]:
  "tf_rpc_count (set_conn x c tf) = tf_rpc_count tf" "tf_started (set_conn x c tf) = tf_started tf"
  "tf_shutdown_initiated (set_conn x c tf) = tf_shutdown_initiated tf"
  "tf_accept_outstanding (set_conn x c tf) = tf_accept_outstanding tf"
  "tf_acceptor (set_conn x c tf) = tf_acceptor tf"
  by (simp_all add: set_conn_def)

lemma add_rpc_simps [simp]:
  "conn x (add_rpc d tf) = conn x tf" "add_rpc d (set_conn x c tf) = set_conn x c (add_rpc d tf)"
  "tf_rpc_count (add_rpc d tf) = tf_rpc_count tf + d" "tf_started (add_rpc d tf) = tf_started tf"
  "tf_shutdown_initiated (add_rpc d tf) = tf_shutdown_initiated tf"
  "tf_accept_outstanding (add_rpc d tf) = tf_accept_outstanding tf" "tf_acceptor (add_rpc d tf) = tf_acceptor tf"
  "add_rpc d (add_rpc e tf) = add_rpc (e + d) tf"
  by (simp_all add: add_rpc_def conn_def set_conn_def)

lemma tc_client_simps [simp]:
  "tc_client (tc_upd_client f c) = f (tc_client c)" "tc_client (c\<lparr>tc_buffer := bu\<rparr>) = tc_client c"
  "tc_client (c\<lparr>tc_io := io\<rparr>) = tc_client c" "tc_client (c\<lparr>tc_io_state := st\<rparr>) = tc_client c"
  "tc_client (c\<lparr>tc_base := i\<rparr>) = inv_client_data i"
  "tc_buffer (tc_upd_client f c) = tc_buffer c" "tc_io (tc_upd_client f c) = tc_io c"
  "tc_io_state (tc_upd_client f c) = tc_io_state c"
  "inv_client_data (tc_base (tc_upd_client f c)) = f (inv_client_data (tc_base c))"
  by (simp_all add: tc_client_def tc_upd_client_def)

declare await_stopped.simps [simp del]

end
