(* ===== verification/Tcp_Properties.thy ===== *)
theory Tcp_Properties
  imports Tcp_Front_End System
begin

text \<open>
  Properties of the TCP front end: the framing of requests and responses and the bounds of the
  buffer, how a request that came over the wire reaches the backend, and starting and stopping.
\<close>

section \<open>Framing\<close>

context wire_format
begin

text \<open>Writing a response: the whole frame is in the buffer, which is large enough for it.\<close>

lemma handle_write_response_ok:
  assumes "conn x tf = Some c" "body = ser_ClientResponse W (cd_response (tc_client c))" "sendable body"
  obtains bu where "handle_write_response W x (tf, b) =
      (Inr (), (set_conn x (c\<lparr>tc_io_state := IO_REQUEST_RESPONSE_WRITE_ACTIVE, tc_buffer := bu,
                           tc_io := WriteResponse (frame W 0 body)\<rparr>) (add_rpc (- 1) tf), b))"
    "buf_size bu = max (buf_size (tc_buffer c)) (8 + length body)"
proof -
  let ?sz = "8 + of_nat (length body) :: uint32"
  have sz: "unat ?sz = 8 + length body" using assms(3) by (rule sendable_size)
  let ?bu = "if unat ?sz > buf_size (tc_buffer c) then Buffer_resize (unat ?sz) (tc_buffer c) else tc_buffer c"
  have size: "buf_size ?bu = max (buf_size (tc_buffer c)) (8 + length body)" by (simp add: sz Buffer_resize_def)
  have fr: "WriteLittleEndian32 W 0 @ WriteLittleEndian32 W ?sz @ body = frame W 0 body" "length (frame W 0 body) = 8 + length body"
    by (simp_all add: frame_def)
  then have all: "take (buf_size ?bu) (frame W 0 body) = frame W 0 body" using size by simp
  have fit: "length (frame W 0 body) \<le> buf_size ?bu" using size fr(2) by simp
  have eq: "Buffer_store (frame W 0 body) ?bu = Inr (?bu\<lparr>buf := frame W 0 body @ drop (length (frame W 0 body)) (buf ?bu)\<rparr>)"
    by (rule Buffer_store_ok [OF fit])
  let ?bu' = "?bu\<lparr>buf := frame W 0 body @ drop (length (frame W 0 body)) (buf ?bu)\<rparr>"
  have bytes: "Buffer_bytes (unat ?sz) ?bu' = frame W 0 body" by (simp add: Buffer_bytes_def sz fr(2))
  have "handle_write_response W x (tf, b) =
      (Inr (), (set_conn x (c\<lparr>tc_io_state := IO_REQUEST_RESPONSE_WRITE_ACTIVE, tc_buffer := ?bu',
                           tc_io := WriteResponse (frame W 0 body)\<rparr>) (add_rpc (- 1) tf), b))"
    using eq all bytes unfolding handle_write_response_def Let_def prod.case add_rpc_simps(1) assms(1) option.case
      assms(2) [symmetric] fr(1) by simp
  then show ?thesis by (rule that) (simp add: size)
qed

end

section \<open>The size field and the buffer\<close>

text \<open>The state of a connection after the header of a message was handled.\<close>

definition after_header :: "wire \<Rightarrow> byte list \<Rightarrow> TcpFrontEndConnectionInvoker \<Rightarrow> TcpFrontEndConnectionInvoker" where
  "after_header W hdr c =
     (tc_upd_client (\<lambda>cd. cd\<lparr>cd_flags := header_flags W hdr\<rparr>) c)
       \<lparr>tc_buffer := (if unat (header_size W hdr) < buf_size (tc_buffer c)
                      then Buffer_resize (unat (header_size W hdr)) (tc_buffer c)
                      else (tc_buffer c)\<lparr>buf := hdr @ drop (length hdr) (buf (tc_buffer c))\<rparr>),
        tc_io_state := IO_READ_BODY_REQUEST_ACTIVE, tc_io := ReadBody (unat (header_size W hdr - 8))\<rparr>"

lemma read_header_ok:
  assumes "conn x tf = Some c" "tc_io c = ReadHeader" "\<not> tf_shutdown_initiated tf" "length hdr = 8" "8 \<le> buf_size (tc_buffer c)"
  shows "read_done W P errs x hdr (tf, b) = (Inr (), (set_conn x (after_header W hdr c) tf, b))"
  using assms
  by (cases c) (simp add: read_done_def Buffer_store_ok handle_read_header_def Let_def Buffer_bytes_def Buffer_resize_def
      after_header_def tc_upd_client_def)

lemma minus_8_unat:
  "unat (z - 8 :: uint32) = (if 8 \<le> unat z then unat z - 8 else 2 ^ 32 - 8 + unat z)"
proof (cases "8 \<le> unat z")
  case True
  then have "8 \<le> z" by (simp add: word_le_nat_alt)
  with True show ?thesis by (simp add: unat_sub)
next
  case False
  then have "z < 8" by (simp add: word_less_nat_alt)
  then show ?thesis using False by (simp add: unat_sub_if')
qed

text \<open>A header announces \<open>z\<close> bytes: the rest of the message fits the buffer exactly when it is at
  least the header and exceeds the buffer by no more than that.\<close>

lemma after_header_fits:
  assumes "8 \<le> buf_size (tc_buffer c)" "z = unat (header_size W hdr)"
  shows "tc_io (after_header W hdr c) = ReadBody (if 8 \<le> z then z - 8 else 2 ^ 32 - 8 + z)"
    "(if 8 \<le> z then z - 8 else 2 ^ 32 - 8 + z) \<le> buf_size (tc_buffer (after_header W hdr c)) \<longleftrightarrow>
       8 \<le> z \<and> z \<le> buf_size (tc_buffer c) + 8"
proof -
  show "tc_io (after_header W hdr c) = ReadBody (if 8 \<le> z then z - 8 else 2 ^ 32 - 8 + z)"
    unfolding assms(2) after_header_def minus_8_unat [symmetric] by simp
  have "buf_size (tc_buffer (after_header W hdr c)) = min z (buf_size (tc_buffer c))"
    using assms(2) by (simp add: after_header_def Buffer_resize_def min_def)
  then show "(if 8 \<le> z then z - 8 else 2 ^ 32 - 8 + z) \<le> buf_size (tc_buffer (after_header W hdr c)) \<longleftrightarrow>
       8 \<le> z \<and> z \<le> buf_size (tc_buffer c) + 8"
    using assms(1) by (auto simp: min_def)
qed

section \<open>Handling a request\<close>

definition with_request :: "ClientRequest \<Rightarrow> TcpFrontEndConnectionInvoker \<Rightarrow> TcpFrontEndConnectionInvoker" where
  "with_request rq c = (tc_upd_client (\<lambda>cd. cd\<lparr>cd_request := rq\<rparr>) c)\<lparr>tc_io_state := IO_REQUEST_DISPATCHED_ACTIVE\<rparr>"

text \<open>
  The body of a message arrived: it is decoded and handed to the backend. A call that is
  posted leaves the connection waiting; a refused one is answered at once.
\<close>

lemma read_body_ok:
  assumes W: "wire_format W" and c: "conn x tf = Some c" "tc_io c = ReadBody (length bs)" "length bs \<le> buf_size (tc_buffer c)"
    and run: "run_ok elems ordered n b" and idle: "\<not> cd_rpc_active (tc_client c)"
    and v: "v = verdict_of x (tc_base (with_request (parse_ClientRequest W bs) c)) b"
    and small: "\<forall>i' b'. invoke P x (tc_base (with_request (parse_ClientRequest W bs) c), b) = (Inr True, (i', b')) \<longrightarrow>
       sendable (ser_ClientResponse W (cd_response (inv_client_data i')))"
  obtains c' b' where "read_done W P errs x bs (tf, b) = (Inr (), (set_conn x c' (add_rpc (if v = Posted then 1 else - 1) tf), b'))"
    "after_call P v x n (tc_base (with_request (parse_ClientRequest W bs) c), b) (tc_base c', b')"
    "v = Posted \<longrightarrow> tc_io c' = NoIo \<and> tc_io_state c' = IO_REQUEST_DISPATCHED_ACTIVE \<and> buf_size (tc_buffer c') = buf_size (tc_buffer c)"
    "v \<noteq> Posted \<longrightarrow> tc_io c' = WriteResponse (frame W 0 (ser_ClientResponse W (cd_response (tc_client c')))) \<and>
       tc_io_state c' = IO_REQUEST_RESPONSE_WRITE_ACTIVE \<and>
       buf_size (tc_buffer c') = max (buf_size (tc_buffer c)) (8 + length (ser_ClientResponse W (cd_response (tc_client c'))))"
proof -
  let ?bu = "(tc_buffer c)\<lparr>buf := bs @ drop (length bs) (buf (tc_buffer c))\<rparr>"
  let ?i = "tc_base (with_request (parse_ClientRequest W bs) c)"
  define c1 where "c1 = with_request (parse_ClientRequest W bs) (c\<lparr>tc_buffer := ?bu, tc_io := NoIo\<rparr>)"
  have c1: "tc_base c1 = ?i" "tc_io c1 = NoIo" "tc_io_state c1 = IO_REQUEST_DISPATCHED_ACTIVE"
    "buf_size (tc_buffer c1) = buf_size (tc_buffer c)"
    by (simp_all add: c1_def with_request_def tc_upd_client_def)
  have "\<not> cd_rpc_active (inv_client_data ?i)" using idle by (simp add: with_request_def tc_client_def)
  then obtain base b1 where inv: "invoke P x (?i, b) = (Inr (v \<noteq> Posted), (base, b1))" "after_call P v x n (?i, b) (base, b1)"
    using invoke_after_call [OF run, of ?i P x] v by auto
  let ?c = "c1\<lparr>tc_base := base\<rparr>"
  have head: "read_done W P errs x bs (tf, b) =
     (if v \<noteq> Posted
      then sbind (handle_write_response W x (set_conn x ?c (add_rpc 1 tf), b1)) (\<lambda>_ (tf, b). (Inr (), (add_rpc (- 1) tf, b)))
      else (Inr (), (set_conn x ?c (add_rpc 1 tf), b1)))"
    using c inv(1)
    by (simp add: read_done_def Buffer_store_ok handle_read_body_def Let_def tcp_invoke_def Buffer_bytes_def
        flip: c1_def with_request_def) (simp add: c1_def with_request_def tc_upd_client_def)
  show ?thesis
  proof (cases "v = Posted")
    case True
    show ?thesis by (rule that [of ?c b1]) (use True head inv(2) c1 in simp_all)
  next
    case False
    let ?body = "ser_ClientResponse W (cd_response (tc_client ?c))"
    have "sendable ?body" using small inv(1) False by simp
    moreover have "conn x (set_conn x ?c (add_rpc 1 tf)) = Some ?c" by simp
    ultimately obtain bu where hw: "handle_write_response W x (set_conn x ?c (add_rpc 1 tf), b1) =
        (Inr (), (set_conn x (?c\<lparr>tc_io_state := IO_REQUEST_RESPONSE_WRITE_ACTIVE, tc_buffer := bu,
                             tc_io := WriteResponse (frame W 0 ?body)\<rparr>) (add_rpc (- 1) (set_conn x ?c (add_rpc 1 tf))), b1))"
      "buf_size bu = max (buf_size (tc_buffer ?c)) (8 + length ?body)"
      using wire_format.handle_write_response_ok [OF W, of x "set_conn x ?c (add_rpc 1 tf)" ?c ?body b1] by metis
    let ?c2 = "?c\<lparr>tc_io_state := IO_REQUEST_RESPONSE_WRITE_ACTIVE, tc_buffer := bu, tc_io := WriteResponse (frame W 0 ?body)\<rparr>"
    have same: "tc_client ?c2 = tc_client ?c" "tc_base ?c2 = base" by simp_all
    show ?thesis by (rule that [of ?c2 b1]) (use False head hw inv(2) c1 same in simp_all)
  qed
qed

section \<open>A concrete front end\<close>

text \<open>A started front end with the one connection \<open>c\<close>, of client 7.\<close>

definition demo_front :: "TcpFrontEndConnectionInvoker \<Rightarrow> TcpFrontEnd" where
  "demo_front c = set_conn 7 c (snd (TcpFrontEnd_start True (TcpFrontEnd_members 4321)))"

definition demo_conn :: TcpFrontEndConnectionInvoker where
  "demo_conn = (fst (TcpFrontEndConnectionInvoker_new 7 backend_2))\<lparr>tc_io := ReadHeader\<rparr>"

definition demo_request :: ClientRequest where
  "demo_request = \<lparr>cr_service_ordinal = Some 1, cr_request_ordinal = Some 0, cr_request_string = Some ''node''\<rparr>"

lemma demo_front_simps [simp]:
  "conn 7 (demo_front c) = Some c" "\<not> tf_shutdown_initiated (demo_front c)" "tf_started (demo_front c)"
  "tf_acceptor (demo_front c)" "tf_rpc_count (demo_front c) = 0"
  by (simp_all add: demo_front_def TcpFrontEnd_start_def start_accept_def TcpFrontEnd_members_def)

lemma demo_conn_simps [simp]:
  "tc_io demo_conn = ReadHeader" "buf_size (tc_buffer demo_conn) = 128" "tc_client demo_conn = ClientData_new"
  "inv_client_data (tc_base demo_conn) = ClientData_new"
  by (simp_all add: demo_conn_def TcpFrontEndConnectionInvoker_new_def Buffer_new_def tc_client_def InvokerBase_new_def
      RBL_RPC_CONF_INITIAL_BUFFER_SIZE_def)

lemma demo_wire_response: "length (ser_ClientResponse demo_wire r) = Suc (length (enc_string (cs_response_string r)))"
  by (simp add: demo_wire_def)

lemma backend_2_connected:
  "run_ok set lst_ordered 2 (BackEnd_connect x backend_2)" "view_of y cd (BackEnd_connect x backend_2) = view_of y cd backend_2"
  "x \<in> m_connected_clients (BackEnd_connect x backend_2)"
  using backend_2_ok(2) by (simp_all add: run_ok_def view_of_def BackEnd_connect_def clients_insert_def)

section \<open>Properties\<close>

text \<open>
  C30: requests over TCP. A well-formed frame whose body fits the buffer of an idle connection,
  delivered as header and body, reaches \<open>BackEnd::invoke\<close> as exactly the request that was encoded:
  the verdict is that of the decoded request, a posted call leaves the connection waiting for its
  handler, and a refused one is answered at once by a frame with the encoded response, whose error is
  that of the verdict. The front end's own count of calls goes up by one for a posted call and, since
  it is decremented twice, down by one for a refused call.
\<close>
theorem tcp_request_reaches_backend:
  assumes "wire_format W" "run_ok elems ordered n b" "conn x tf = Some c" "tc_io c = ReadHeader"
    "\<not> tf_shutdown_initiated tf" "\<not> cd_rpc_active (tc_client c)" "8 \<le> buf_size (tc_buffer c)"
    "request_complete rq" "body = ser_ClientRequest W rq" "sendable body" "length body \<le> buf_size (tc_buffer c)"
    "i = tc_base (with_request rq (after_header W (take 8 (frame W f body)) c))"
    "\<forall>i' b'. invoke P x (i, b) = (Inr True, (i', b')) \<longrightarrow> sendable (ser_ClientResponse W (cd_response (inv_client_data i')))"
  shows "\<exists>w1 c' b'. read_done W P errs x (take 8 (frame W f body)) (tf, b) = (Inr (), w1) \<and>
    read_done W P errs x (drop 8 (frame W f body)) w1 =
      (Inr (), (set_conn x c' (add_rpc (if verdict_of x i b = Posted then 1 else - 1) tf), b')) \<and>
    cd_request (tc_client c') = rq \<and> cd_flags (inv_client_data i) = f \<and>
    cs_error (cd_response (tc_client c')) = Some (verdict_response (verdict_of x i b)) \<and>
    m_io_posted b' = (if verdict_of x i b = Posted then m_io_posted b @ [x] else m_io_posted b) \<and>
    (verdict_of x i b = Posted \<longrightarrow> tc_io c' = NoIo \<and> tc_io_state c' = IO_REQUEST_DISPATCHED_ACTIVE) \<and>
    (verdict_of x i b \<noteq> Posted \<longrightarrow> tc_io_state c' = IO_REQUEST_RESPONSE_WRITE_ACTIVE \<and>
       tc_io c' = WriteResponse (frame W 0 (ser_ClientResponse W (cd_response (tc_client c')))))"
proof -
  let ?hdr = "take 8 (frame W f body)" and ?v = "verdict_of x i b"
  note fr = wire_format.frame_header [OF assms(1), of f body] wire_format.frame_split [OF assms(1), of f body]
  let ?c = "after_header W ?hdr c" and ?tf = "set_conn x (after_header W ?hdr c) tf"
  have "length ?hdr = 8" using fr(5) by simp
  then have first: "read_done W P errs x ?hdr (tf, b) = (Inr (), (?tf, b))"
    by (rule read_header_ok [OF assms(3-5) _ assms(7)])
  have z: "unat (header_size W ?hdr) = 8 + length body" using sendable_size [OF assms(10)] by (simp add: fr(2))
  have c: "conn x ?tf = Some ?c" "tc_io ?c = ReadBody (length (drop 8 (frame W f body)))"
    "length (drop 8 (frame W f body)) \<le> buf_size (tc_buffer ?c)" "\<not> cd_rpc_active (tc_client ?c)"
    using after_header_fits [OF assms(7) refl, of W ?hdr] z assms(6,11)
    by (simp_all add: fr(4)) (simp add: after_header_def)
  have p: "parse_ClientRequest W (drop 8 (frame W f body)) = rq"
    using wire_format.request_roundtrip [OF assms(1,8)] unfolding fr(4) unfolding assms(9) .
  obtain c' b' where r: "read_done W P errs x (drop 8 (frame W f body)) (?tf, b) =
      (Inr (), (set_conn x c' (add_rpc (if ?v = Posted then 1 else - 1) ?tf), b'))"
    "after_call P ?v x n (i, b) (tc_base c', b')"
    "?v = Posted \<longrightarrow> tc_io c' = NoIo \<and> tc_io_state c' = IO_REQUEST_DISPATCHED_ACTIVE \<and> buf_size (tc_buffer c') = buf_size (tc_buffer ?c)"
    "?v \<noteq> Posted \<longrightarrow> tc_io c' = WriteResponse (frame W 0 (ser_ClientResponse W (cd_response (tc_client c')))) \<and>
       tc_io_state c' = IO_REQUEST_RESPONSE_WRITE_ACTIVE \<and>
       buf_size (tc_buffer c') = max (buf_size (tc_buffer ?c)) (8 + length (ser_ClientResponse W (cd_response (tc_client c'))))"
    using read_body_ok [OF assms(1) c(1-3) assms(2) c(4) refl, of P errs, unfolded p, folded assms(12)] assms(13) by blast
  note a = after_callD [OF r(2)]
  have rq: "cd_request (inv_client_data i) = rq" "cd_flags (inv_client_data i) = f"
    by (simp_all add: assms(12) with_request_def after_header_def fr(1))
  show ?thesis
    using first r(1,3,4) a(1,8,17) rq by (intro exI [of _ "(?tf, b)"] exI [of _ c'] exI [of _ b']) (simp add: tc_client_def)
qed

theorem tcp_request_reaches_backend_witness:
  "\<exists>w1 c' b'. read_done demo_wire demo_protobuf (False, False) 7 (take 8 (frame demo_wire 0 (ser_ClientRequest demo_wire demo_request)))
       (demo_front demo_conn, BackEnd_connect 7 backend_2) = (Inr (), w1) \<and>
     read_done demo_wire demo_protobuf (False, False) 7 (drop 8 (frame demo_wire 0 (ser_ClientRequest demo_wire demo_request))) w1 =
       (Inr (), (set_conn 7 c' (add_rpc (- 1) (demo_front demo_conn)), b')) \<and>
     cd_request (tc_client c') = demo_request \<and> cs_error (cd_response (tc_client c')) = Some REQUEST_NOT_SUBSCRIBED"
proof -
  let ?body = "ser_ClientRequest demo_wire demo_request" and ?b = "BackEnd_connect 7 backend_2"
  let ?i = "tc_base (with_request demo_request (after_header demo_wire (take 8 (frame demo_wire 0 ?body)) demo_conn))"
  have body: "length ?body = 15" by (simp add: demo_wire_def demo_request_def enc_string_def)
  have cd: "\<not> cd_rpc_active (inv_client_data ?i)" "cs_response_string (cd_response (inv_client_data ?i)) = None"
    "cd_request (inv_client_data ?i) = demo_request"
    by (simp_all add: with_request_def after_header_def ClientData_new_def ClientResponse_Clear_def)
  have v: "verdict_of 7 ?i ?b = NotSubscribed"
    unfolding verdict_of_def Let_def cd(3) backend_2_connected(2)
    by (simp add: decide_def backend_2_view demo_request_def)
  have small: "\<forall>i' b'. invoke demo_protobuf 7 (?i, ?b) = (Inr True, (i', b')) \<longrightarrow>
      sendable (ser_ClientResponse demo_wire (cd_response (inv_client_data i')))"
  proof (intro allI impI)
    fix i' b' assume "invoke demo_protobuf 7 (?i, ?b) = (Inr True, (i', b'))"
    then have "after_call demo_protobuf NotSubscribed 7 2 (?i, ?b) (i', b')"
      using invoke_after_call [OF backend_2_connected(1) [of 7] cd(1), of demo_protobuf 7, unfolded v] by auto
    from after_callD(18) [OF this] cd(2) show "sendable (ser_ClientResponse demo_wire (cd_response (inv_client_data i')))"
      by (simp add: sendable_def demo_wire_response enc_string_def)
  qed
  have pre: "conn 7 (demo_front demo_conn) = Some demo_conn" "tc_io demo_conn = ReadHeader"
    "\<not> tf_shutdown_initiated (demo_front demo_conn)" "\<not> cd_rpc_active (tc_client demo_conn)" "8 \<le> buf_size (tc_buffer demo_conn)"
    "request_complete demo_request" "sendable ?body" "length ?body \<le> buf_size (tc_buffer demo_conn)"
    by (simp_all add: body ClientData_new_def sendable_def) (simp add: request_complete_def demo_request_def)
  show ?thesis
    using tcp_request_reaches_backend [OF demo_wire_format backend_2_connected(1) pre(1-6) refl pre(7,8) refl small, of "(False, False)"]
    unfolding v by (auto simp: verdict_response_def)
qed

text \<open>
  C31: the bounds of the buffer. Of the size that a header announces, 8 bytes are taken off in 32-bit
  arithmetic, and the buffer is resized only when it is larger than the message. The body that the
  connection then waits for fits the buffer exactly when the announced size is at least 8 and at most 8 more than
  the buffer's; in every other case the peer that sends the bytes it announced makes the
  server write past the end of the buffer.
\<close>
theorem announced_size_overflows_buffer:
  assumes "conn x tf = Some c" "tc_io c = ReadHeader" "\<not> tf_shutdown_initiated tf" "length hdr = 8"
    "8 \<le> buf_size (tc_buffer c)" "z = unat (header_size W hdr)"
  shows "\<exists>c' k. read_done W P errs x hdr (tf, b) = (Inr (), (set_conn x c' tf, b)) \<and> tc_io c' = ReadBody k \<and>
    (k \<le> buf_size (tc_buffer c') \<longleftrightarrow> 8 \<le> z \<and> z \<le> buf_size (tc_buffer c) + 8) \<and>
    (\<forall>bs. length bs = k \<and> \<not> (8 \<le> z \<and> z \<le> buf_size (tc_buffer c) + 8) \<longrightarrow>
       fst (read_done W P errs x bs (set_conn x c' tf, b)) = Inl UndefinedBehaviour)"
proof -
  let ?k = "if 8 \<le> z then z - 8 else 2 ^ 32 - 8 + z"
  note fit = after_header_fits [OF assms(5,6)]
  have "fst (read_done W P errs x bs (set_conn x (after_header W hdr c) tf, b)) = Inl UndefinedBehaviour"
    if "length bs = ?k" "\<not> (8 \<le> z \<and> z \<le> buf_size (tc_buffer c) + 8)" for bs
  proof -
    have "length bs > buf_size (tc_buffer (after_header W hdr c))" using that fit(2) by linarith
    then show ?thesis by (simp add: read_done_def Buffer_store_def)
  qed
  then show ?thesis
    using read_header_ok [OF assms(1-5)] fit by (intro exI [of _ "after_header W hdr c"] exI [of _ ?k]) blast
qed

theorem announced_size_overflows_buffer_witness:
  "\<exists>c' k bs. read_done demo_wire demo_protobuf (False, False) 7 (le32 0 @ le32 200) (demo_front demo_conn, backend_2) =
       (Inr (), (set_conn 7 c' (demo_front demo_conn), backend_2)) \<and> tc_io c' = ReadBody k \<and> length bs = k \<and>
     fst (read_done demo_wire demo_protobuf (False, False) 7 bs (set_conn 7 c' (demo_front demo_conn), backend_2)) =
       Inl UndefinedBehaviour"
proof -
  have z: "unat (header_size demo_wire (le32 0 @ le32 200)) = 200"
    unfolding header_size_def by code_simp
  have "length (le32 0 @ le32 200) = 8" by (simp add: le32_def)
  from announced_size_overflows_buffer [OF demo_front_simps(1) demo_conn_simps(1) demo_front_simps(2) this _ refl,
      of demo_wire demo_protobuf "(False, False)" backend_2, unfolded z]
  obtain c' k where c: "read_done demo_wire demo_protobuf (False, False) 7 (le32 0 @ le32 200) (demo_front demo_conn, backend_2) =
       (Inr (), (set_conn 7 c' (demo_front demo_conn), backend_2))" "tc_io c' = ReadBody k"
    "\<forall>bs. length bs = k \<longrightarrow> fst (read_done demo_wire demo_protobuf (False, False) 7 bs
       (set_conn 7 c' (demo_front demo_conn), backend_2)) = Inl UndefinedBehaviour"
    by auto
  then show ?thesis by (intro exI [of _ c'] exI [of _ k] exI [of _ "replicate k 0"]) simp
qed

text \<open>
  C32: responses over TCP. Running the handler of a posted call writes one frame with the encoded
  response of that call, which the peer decodes to exactly that response; the call has
  ended, the front end's count is back to what it was before the call, and the backend is still well formed.
\<close>
theorem tcp_response_written:
  assumes "boost_library L elems ordered" "wire_format W" "run_ok elems ordered n b" "conn x tf = Some c"
    "callable b x (tc_base c)" "cd_rpc_active (tc_client c)"
    "\<forall>i' b'. run_invoker P x (tc_base c, b) = (Inr (), (i', b')) \<longrightarrow>
       response_complete (cd_response (inv_client_data i')) \<and> sendable (ser_ClientResponse W (cd_response (inv_client_data i')))"
  shows "\<exists>c' b' bs. tcp_operator W P x (tf, b) = (Inr (), (set_conn x c' (add_rpc (- 1) tf), b')) \<and>
    tc_io c' = WriteResponse bs \<and> tc_io_state c' = IO_REQUEST_RESPONSE_WRITE_ACTIVE \<and>
    unat (header_size W (take 8 bs)) = length bs \<and> length bs \<le> buf_size (tc_buffer c') \<and>
    parse_ClientResponse W (drop 8 bs) = cd_response (tc_client c') \<and>
    \<not> cd_rpc_active (tc_client c') \<and> run_ok elems ordered n b' \<and>
    rpc_count (m_synchronised_state b') = rpc_count (m_synchronised_state b) - 1"
proof -
  have act: "cd_rpc_active (inv_client_data (tc_base c))" using assms(6) by (simp add: tc_client_def)
  obtain cd' b1 where run: "run_invoker P x (tc_base c, b) =
      (Inr (), ((tc_base c)\<lparr>inv_client_data := cd'\<lparr>cd_rpc_active := False\<rparr>\<rparr>, upd_sync end_a_request b1))"
    "keeps elems ordered n x (inv_client_data (tc_base c), b) (cd', b1)"
    by (rule boost_library.run_callable [OF assms(1,3,5) act])
  let ?c = "c\<lparr>tc_base := (tc_base c)\<lparr>inv_client_data := cd'\<lparr>cd_rpc_active := False\<rparr>\<rparr>\<rparr>"
  let ?body = "ser_ClientResponse W (cd_response (tc_client ?c))" and ?tf = "set_conn x ?c tf"
  have small: "sendable ?body" "response_complete (cd_response (tc_client ?c))" using assms(7) run(1) by simp_all
  obtain bu where hw: "handle_write_response W x (?tf, upd_sync end_a_request b1) =
      (Inr (), (set_conn x (?c\<lparr>tc_io_state := IO_REQUEST_RESPONSE_WRITE_ACTIVE, tc_buffer := bu,
                           tc_io := WriteResponse (frame W 0 ?body)\<rparr>) (add_rpc (- 1) ?tf), upd_sync end_a_request b1))"
    "buf_size bu = max (buf_size (tc_buffer ?c)) (8 + length ?body)"
    using wire_format.handle_write_response_ok [OF assms(2), of x ?tf ?c ?body] small(1) by auto
  note fr = wire_format.frame_header [OF assms(2), of 0 ?body] wire_format.frame_split [OF assms(2), of 0 ?body]
  have kp: "run_ok elems ordered n b1" "same_control b b1" using run(2) by (simp_all add: keeps_def)
  have "rpc_count (m_synchronised_state (upd_sync end_a_request b1)) = rpc_count (m_synchronised_state b) - 1"
    using same_controlD(1) [OF kp(2)] by (simp add: sync_defs)
  moreover have "run_ok elems ordered n (upd_sync end_a_request b1)" using kp(1) by (simp add: run_ok_def)
  moreover have "tcp_operator W P x (tf, b) = handle_write_response W x (?tf, upd_sync end_a_request b1)"
    using assms(4) run(1) by (simp add: tcp_operator_def)
  ultimately show ?thesis
    using hw fr sendable_size [OF small(1)] wire_format.response_roundtrip [OF assms(2) small(2)]
    by (intro exI [of _ "?c\<lparr>tc_io_state := IO_REQUEST_RESPONSE_WRITE_ACTIVE, tc_buffer := bu,
          tc_io := WriteResponse (frame W 0 ?body)\<rparr>"] exI [of _ "upd_sync end_a_request b1"] exI [of _ "frame W 0 ?body"])
      (simp add: tc_client_def)
qed

lemma demo_hello_posted:
  obtains i1 and b1 :: demo_backend where "callable b1 7 i1" "cd_rpc_active (inv_client_data i1)" "run_ok set lst_ordered 2 b1"
    "run_invoker demo_protobuf 7 (i1, b1) =
       (Inr (), (i1\<lparr>inv_client_data := (cd_set_response_string ''hello'' ((inv_client_data i1)
          \<lparr>cd_name := ''node'', cd_client_established := True\<rparr>))\<lparr>cd_rpc_active := False\<rparr>\<rparr>, upd_sync end_a_request b1))"
    "cs_error (cd_response (inv_client_data i1)) = Some REQUEST_SUCCESS"
proof -
  obtain i1 b1 where inv: "after_call demo_protobuf Posted 7 2 (caller 0 0 False, backend_2) (i1, b1)"
    using invoke_after_call [OF backend_2_ok(2), of "caller 0 0 False" demo_protobuf 7] backend_2_verdicts(1) [of 7] by auto
  note a = after_callD [OF inv]
  have call: "callable b1 7 i1"
    by (rule posted_callable [OF backend_2_ok(2) backend_2_verdicts(1) inv]) (simp add: narrow_def)
  have run: "run_ok set lst_ordered 2 b1" using a(4,6,11) backend_2_ok(2) by (simp add: run_ok_def)
  have ty: "m_backend_type b1 = TARGET_RELAY" "m_source_type b1 = SOURCE_GENERATOR"
    using inv backend_2_types by (simp_all add: after_call_def Let_def)
  have rq: "request_string (cd_request (inv_client_data i1)) = ''node''" "request_ordinal (cd_request (inv_client_data i1)) = 0"
    using a(1) by (simp_all add: caller_def ClientData_new_def InvokerBase_new_def)
  have "bp_hello hr (inv_client_data i1) b1 = (Inr (HelloResponse_new\<lparr>hs_error_type := Some NO_HELLO_ERRORS\<rparr>,
        (inv_client_data i1)\<lparr>cd_name := hq_node_name hr, cd_client_established := True\<rparr>), b1)"
    if "hq_expected_target hr = TARGET_RELAY" "hq_source_type hr = SOURCE_GENERATOR" for hr
    using that ty a(2) by (simp add: bp_hello_cases)
  then have "service_dispatch demo_protobuf 7 0 0 (inv_client_data i1) b1 =
      (Inr (cd_set_response_string ''hello'' ((inv_client_data i1)\<lparr>cd_name := ''node'', cd_client_established := True\<rparr>)), b1)"
    using lst.service_dispatch_basic [OF run, of "inv_client_data i1" 0 demo_protobuf 7 0] rq
    by (simp add: basic_dispatch_def generated_dispatch_function_def) (simp add: demo_protobuf_def)
  then have "run_invoker demo_protobuf 7 (i1, b1) =
       (Inr (), (i1\<lparr>inv_client_data := (cd_set_response_string ''hello'' ((inv_client_data i1)
          \<lparr>cd_name := ''node'', cd_client_established := True\<rparr>))\<lparr>cd_rpc_active := False\<rparr>\<rparr>, upd_sync end_a_request b1))"
    using a(3,13,14) by (simp add: run_invoker_def BackEnd_end_rpc_def end_rpc_def)
  then show ?thesis using call a(3,17) run by (intro that [of b1 i1]) (simp_all add: verdict_response_def)
qed

theorem tcp_response_written_witness:
  "\<exists>c (b :: demo_backend) c' b' bs. tcp_operator demo_wire demo_protobuf 7 (demo_front c, b) =
     (Inr (), (set_conn 7 c' (add_rpc (- 1) (demo_front c)), b')) \<and> tc_io c' = WriteResponse bs \<and>
     parse_ClientResponse demo_wire (drop 8 bs) = cd_response (tc_client c')"
proof -
  obtain i1 and b1 :: demo_backend where h: "callable b1 7 i1" "cd_rpc_active (inv_client_data i1)" "run_ok set lst_ordered 2 b1"
    "run_invoker demo_protobuf 7 (i1, b1) =
       (Inr (), (i1\<lparr>inv_client_data := (cd_set_response_string ''hello'' ((inv_client_data i1)
          \<lparr>cd_name := ''node'', cd_client_established := True\<rparr>))\<lparr>cd_rpc_active := False\<rparr>\<rparr>, upd_sync end_a_request b1))"
    "cs_error (cd_response (inv_client_data i1)) = Some REQUEST_SUCCESS"
    by (rule demo_hello_posted)
  let ?c = "demo_conn\<lparr>tc_base := i1\<rparr>"
  have small: "\<forall>i' b'. run_invoker demo_protobuf 7 (tc_base ?c, b1) = (Inr (), (i', b')) \<longrightarrow>
      response_complete (cd_response (inv_client_data i')) \<and> sendable (ser_ClientResponse demo_wire (cd_response (inv_client_data i')))"
    using h(4,5) by (auto simp: sendable_def demo_wire_response enc_string_def response_complete_def)
  have pre: "callable b1 7 (tc_base ?c)" "cd_rpc_active (tc_client ?c)" using h(1,2) by simp_all
  show ?thesis
    using tcp_response_written [OF list_boost_library demo_wire_format h(3) demo_front_simps(1) pre small] by blast
qed

end
