(* ===== verification/Tcp_Lifecycle.thy ===== *)
theory Tcp_Lifecycle
  imports Tcp_Properties
begin

text \<open>
  The life of the TCP front end and of its connections: construction and start, accepting,
  losing a peer, taking a connection down, and the orderly stop with its bounded wait.
\<close>

section \<open>The bounded wait\<close>

text \<open>The state after the first \<open>k\<close> sleeps.\<close>

fun env_state :: "nat \<Rightarrow> ('w \<Rightarrow> 'w) list \<Rightarrow> 'w \<Rightarrow> 'w" where
  "env_state 0 env w = w"
| "env_state (Suc k) env w = env_state k (tl env) ((case env of [] \<Rightarrow> id | f # _ \<Rightarrow> f) w)"

lemma await_stopped_cases:
  "await_stopped stopped k n env w =
     (if \<exists>j \<le> n. stopped (k + j) then (Inr (), env_state (LEAST j. stopped (k + j)) env w)
      else (Inl FrontEndException, env_state n env w))"
proof (induction n arbitrary: k env w)
  case 0
  then show ?case by (auto simp: await_stopped.simps intro: Least_equality [THEN arg_cong, where f = "\<lambda>j. env_state j env w", symmetric])
next
  case (Suc n)
  show ?case
  proof (cases "stopped k")
    case True
    then have "(LEAST j. stopped (k + j)) = 0" by (intro Least_equality) simp_all
    then show ?thesis using True by (auto simp: await_stopped.simps intro: exI [of _ 0])
  next
    case False
    have ex: "(\<exists>j \<le> Suc n. stopped (k + j)) \<longleftrightarrow> (\<exists>j \<le> n. stopped (Suc k + j))"
    proof
      assume "\<exists>j \<le> Suc n. stopped (k + j)"
      then obtain j where "j \<le> Suc n" "stopped (k + j)" by blast
      with False show "\<exists>j \<le> n. stopped (Suc k + j)" by (cases j) auto
    next
      assume "\<exists>j \<le> n. stopped (Suc k + j)"
      then show "\<exists>j \<le> Suc n. stopped (k + j)" by (metis add_Suc add_Suc_right Suc_le_mono)
    qed
    have least: "(LEAST j. stopped (k + j)) = Suc (LEAST j. stopped (Suc k + j))" if later: "\<exists>j. stopped (Suc k + j)"
    proof -
      obtain j where "stopped (k + Suc j)" using later by auto
      from Least_Suc [of "\<lambda>j. stopped (k + j)", OF this] False show ?thesis by simp
    qed
    have step: "await_stopped stopped k (Suc n) env w =
        await_stopped stopped (Suc k) n (tl env) ((case env of [] \<Rightarrow> id | f # _ \<Rightarrow> f) w)"
      using False by (simp add: await_stopped.simps [of stopped k])
    show ?thesis
    proof (cases "\<exists>j \<le> n. stopped (Suc k + j)")
      case True
      then have "(LEAST j. stopped (k + j)) = Suc (LEAST j. stopped (Suc k + j))" by (intro least) blast
      with True show ?thesis unfolding step Suc.IH ex by simp
    next
      case no: False
      then show ?thesis unfolding step Suc.IH ex by auto
    qed
  qed
qed

section \<open>The shutdown handler\<close>

definition is_idle :: "TcpFrontEndConnectionInvoker \<Rightarrow> bool" where
  "is_idle c \<longleftrightarrow> tc_io_state c = IO_READ_HEADER_WAIT_REQUEST_START_INACTIVE"

definition idle_clients :: "t_connection_set \<Rightarrow> cid set" where
  "idle_clients cs = fst ` {p \<in> set cs. is_idle (snd p)}"

lemma idle_clients_simps [simp]:
  "idle_clients [] = {}" "idle_clients ((x, c) # cs) = (if is_idle c then insert x (idle_clients cs) else idle_clients cs)"
  by (force simp: idle_clients_def)+

text \<open>The loop passes over busy connections.\<close>

lemma busy_connections_pass:
  "\<forall>p \<in> set cs. \<not> is_idle (snd p) \<Longrightarrow> shutdown_connections errs intact (cs @ ds) w = shutdown_connections errs intact ds w"
  by (induction cs) (auto simp: is_idle_def)

context boost_library
begin

text \<open>Taking down a connection of a client that is connected to the backend.\<close>

lemma drop_connection_ok:
  assumes "conn x tf = Some c" "run_ok elems ordered n b" "\<not> m_io_stopped b" "x \<in> m_connected_clients b"
  obtains b' where "drop_connection (False, False) x (tf, b) = (Inr (), (tf\<lparr>tf_connections := AList.delete x (tf_connections tf)\<rparr>, b'))"
    "run_ok elems ordered n b'" "\<not> m_io_stopped b'" "m_connected_clients b' = m_connected_clients b - {x}"
    "m_synchronised_state b' = m_synchronised_state b"
proof -
  obtain cd' b1 where d: "BackEnd_disconnect x (tc_client c, b) = (Inr (), (cd', b1\<lparr>m_connected_clients := m_connected_clients b - {x}\<rparr>))"
    "run_ok elems ordered n b1" "same_control b b1"
    by (rule BackEnd_disconnect_ok [OF assms(2-4), of "tc_client c"])
  show ?thesis
    by (rule that [of "b1\<lparr>m_connected_clients := m_connected_clients b - {x}\<rparr>"])
      (use assms(1,3) d same_controlD [OF d(3)] in
        \<open>simp_all add: drop_connection_def disconnect_client_def TcpFrontEndConnectionInvoker_destroy_def run_ok_def\<close>)
qed

text \<open>The whole loop, when nothing goes wrong.\<close>

lemma shutdown_connections_ok:
  assumes "run_ok elems ordered n b" "\<not> m_io_stopped b" "idle_clients cs \<subseteq> m_connected_clients b"
    "\<forall>x \<in> idle_clients cs. errs x = (False, False) \<and> intact x" "set cs \<subseteq> set (tf_connections tf)"
    "distinct (map fst (tf_connections tf))" "distinct (map fst cs)"
  shows "\<exists>b'. shutdown_connections errs intact cs (tf, b) =
      (Inr (), (tf\<lparr>tf_connections := filter (\<lambda>p. fst p \<notin> idle_clients cs) (tf_connections tf)\<rparr>, b')) \<and>
    run_ok elems ordered n b' \<and> \<not> m_io_stopped b' \<and> m_connected_clients b' = m_connected_clients b - idle_clients cs \<and>
    m_synchronised_state b' = m_synchronised_state b"
  using assms
proof (induction cs arbitrary: tf b)
  case Nil
  then show ?case by simp
next
  case (Cons p cs)
  obtain x c where p: "p = (x, c)" by (cases p)
  show ?case
  proof (cases "is_idle c")
    case False
    then show ?thesis using Cons by (simp add: p is_idle_def)
  next
    case True
    let ?tf = "tf\<lparr>tf_connections := AList.delete x (tf_connections tf)\<rparr>"
    have c: "conn x tf = Some c" using Cons.prems(5,6) by (simp add: conn_def p)
    have x: "x \<in> m_connected_clients b" using Cons.prems(3) True by (simp add: p)
    obtain b1 where d: "drop_connection (False, False) x (tf, b) = (Inr (), (?tf, b1))" "run_ok elems ordered n b1" "\<not> m_io_stopped b1"
      "m_connected_clients b1 = m_connected_clients b - {x}" "m_synchronised_state b1 = m_synchronised_state b"
      by (rule drop_connection_ok [OF c Cons.prems(1,2) x])
    have fresh: "(x, d) \<notin> set cs" "x \<notin> idle_clients cs" for d using Cons.prems(7) by (force simp: p idle_clients_def)+
    have pre: "idle_clients cs \<subseteq> m_connected_clients b1" "\<forall>x \<in> idle_clients cs. errs x = (False, False) \<and> intact x"
      "set cs \<subseteq> set (tf_connections ?tf)" "distinct (map fst (tf_connections ?tf))" "distinct (map fst cs)"
      using Cons.prems(3-7) True fresh d(4) by (auto simp: p AList.delete_eq distinct_map_filter)
    obtain b' where b': "shutdown_connections errs intact cs (?tf, b1) =
        (Inr (), (?tf\<lparr>tf_connections := filter (\<lambda>p. fst p \<notin> idle_clients cs) (tf_connections ?tf)\<rparr>, b'))"
      "run_ok elems ordered n b'" "\<not> m_io_stopped b'" "m_connected_clients b' = m_connected_clients b1 - idle_clients cs"
      "m_synchronised_state b' = m_synchronised_state b1"
      using Cons.IH [OF d(2,3) pre] by blast
    have "filter (\<lambda>p. fst p \<notin> idle_clients cs) (tf_connections ?tf) = filter (\<lambda>q. fst q \<notin> idle_clients (p # cs)) (tf_connections tf)"
      using True by (auto simp: p AList.delete_eq intro!: filter_cong)
    moreover have "shutdown_connections errs intact (p # cs) (tf, b) = shutdown_connections errs intact cs (?tf, b1)"
      using True Cons.prems(4) d(1) by (simp add: p is_idle_def)
    ultimately show ?thesis using b' d(4,5) True by (auto simp: p)
  qed
qed

end

lemma length_update_present: "x \<in> fst ` set al \<Longrightarrow> length (AList.update x d al) = length al"
  by (induction al) auto


lemma idle_clients_iff:
  assumes "distinct (map fst cs)" "p \<in> set cs"
  shows "fst p \<in> idle_clients cs \<longleftrightarrow> is_idle (snd p)"
proof -
  have "q = p" if "q \<in> set cs" "fst q = fst p" for q
    using assms that by (metis distinct_map inj_on_eq_iff)
  then show ?thesis using assms(2) by (auto simp: idle_clients_def)
qed

text \<open>Stopping a front end whose shutdown handler runs.\<close>

definition stoppable :: "mid \<Rightarrow> io_service \<Rightarrow> ('ix, 'st, 'ck, 'm) tcp_world \<Rightarrow> bool" where
  "stoppable m io w \<longleftrightarrow> connection_is_connected m (m_synchronised_state (snd w)) \<and> \<not> tf_shutdown_initiated (fst w) \<and>
     tf_started (fst w) \<and> tf_acceptor (fst w) \<and> ios_runs io"

lemma stop_first_idle:
  assumes "stoppable m io (tf, b)" "tf_connections tf = cs @ (x, c) # ds" "\<forall>p \<in> set cs. \<not> is_idle (snd p)" "is_idle c"
    "distinct (map fst (tf_connections tf))"
  shows "errs x \<noteq> (False, False) \<Longrightarrow> fst (TcpFrontEnd_stop m io (False, False) errs intact env (tf, b)) = Inl Terminate"
    "errs x = (False, False) \<Longrightarrow> \<not> intact x \<Longrightarrow> drop_connection (False, False) x
       (tf\<lparr>tf_shutdown_initiated := True, tf_accept_outstanding := False\<rparr>, b) = (Inr (), w) \<Longrightarrow>
       TcpFrontEnd_stop m io (False, False) errs intact env (tf, b) = (Inl UndefinedBehaviour, w)"
proof -
  let ?tf = "tf\<lparr>tf_shutdown_initiated := True, tf_accept_outstanding := False\<rparr>"
  have loop: "shutdown_connections errs intact (tf_connections tf) (?tf, b) =
      sbind (drop_connection (errs x) x (?tf, b)) (\<lambda>_ w. if intact x then shutdown_connections errs intact ds w else (Inl UndefinedBehaviour, w))"
    unfolding assms(2) busy_connections_pass [OF assms(3)] using assms(4) by (simp add: is_idle_def)
  have "(x, c) \<in> set (tf_connections tf)" using assms(2) by simp
  then have c: "conn x ?tf = Some c" using assms(5) by (simp add: conn_def)
  have stop: "TcpFrontEnd_stop m io (False, False) errs intact env (tf, b) =
      (case shutdown_handler (False, False) errs intact (tf, b) of (Inl e, w) \<Rightarrow> (Inl (leaves_thread e), w)
       | (Inr _, w) \<Rightarrow> (case wait_for_notification False (tf_shutdown_notification (fst w)) of Inl e \<Rightarrow> (Inl e, w)
         | Inr _ \<Rightarrow> sbind (await_stopped (ios_stopped io) 0 5 env w) (\<lambda>_ (tf, b). (Inr (), (tf, upd_sync (snd \<circ> connection_disconnect m) b)))))"
    using assms(1) by (simp add: TcpFrontEnd_stop_def tf_disconnect_from_backend_def stoppable_def)
  show "fst (TcpFrontEnd_stop m io (False, False) errs intact env (tf, b)) = Inl Terminate" if "errs x \<noteq> (False, False)"
  proof -
    have "drop_connection (errs x) x (?tf, b) = (Inl FrontEndException, (?tf, b))"
      using that c by (cases "errs x") (auto simp: drop_connection_def disconnect_client_def)
    then show ?thesis using assms(1) loop unfolding stop by (simp add: shutdown_handler_def stoppable_def Let_def leaves_thread_def)
  qed
  show "TcpFrontEnd_stop m io (False, False) errs intact env (tf, b) = (Inl UndefinedBehaviour, w)"
    if "errs x = (False, False)" "\<not> intact x" "drop_connection (False, False) x (?tf, b) = (Inr (), w)"
    using assms(1) loop that unfolding stop by (cases w) (simp add: shutdown_handler_def stoppable_def Let_def leaves_thread_def)
qed

lemma stop_orderly:
  assumes "stoppable m io (tf, b)" "shutdown_connections errs intact (tf_connections tf)
      (tf\<lparr>tf_shutdown_initiated := True, tf_accept_outstanding := False\<rparr>, b) = (Inr (), (tf1, b1))"
  shows "TcpFrontEnd_stop m io (False, False) errs intact env (tf, b) =
    sbind (await_stopped (ios_stopped io) 0 5 env (tf1\<lparr>tf_shutdown_notification := notify_one (tf_shutdown_notification tf1)\<rparr>, b1))
      (\<lambda>_ (tf, b). (Inr (), (tf, upd_sync (snd \<circ> connection_disconnect m) b)))"
  using assms
  by (simp add: TcpFrontEnd_stop_def tf_disconnect_from_backend_def stoppable_def shutdown_handler_def Let_def)

section \<open>Properties\<close>

text \<open>
  C33: the outcomes of stopping a front end that is registered with the backend, when closing the acceptor succeeds. Without a thread that runs the
  I/O service, in particular when the front end was never started, the caller waits for a notification that nobody gives. With a thread, the
  connections that wait for a request are taken down one by one. If the socket of the first of them cannot be shut down or closed, the exception leaves
  the I/O thread and ends the program; once it is taken down, the loop advances an iterator of an erased element, and if that does not happen to work
  the behaviour is undefined. If it works for all of them, exactly the waiting connections are gone and their clients are disconnected
  from the backend; then the caller sleeps at most five times until it sees the I/O service stopped, and returns after the front
  end ceased to be a manager of the backend, or throws and leaves it one. A second stop does nothing.
\<close>
theorem stop_outcomes:
  assumes "boost_library L elems ordered" "run_ok elems ordered n b" "\<not> m_io_stopped b" "connection_is_connected m (m_synchronised_state b)"
    "\<not> tf_shutdown_initiated tf" "distinct (map fst (tf_connections tf))" "idle_clients (tf_connections tf) \<subseteq> m_connected_clients b"
  shows "(\<not> tf_started tf \<or> \<not> ios_runs io \<longrightarrow> TcpFrontEnd_stop m io (False, False) errs intact env (tf, b) = (Inl Blocked, (tf, b))) \<and>
    (stoppable m io (tf, b) \<and> tf_connections tf = cs @ (x, c) # ds \<and> (\<forall>p \<in> set cs. \<not> is_idle (snd p)) \<and> is_idle c \<longrightarrow>
      (errs x \<noteq> (False, False) \<longrightarrow> fst (TcpFrontEnd_stop m io (False, False) errs intact env (tf, b)) = Inl Terminate) \<and>
      (errs x = (False, False) \<and> \<not> intact x \<longrightarrow>
         (\<exists>tf1 b1. TcpFrontEnd_stop m io (False, False) errs intact env (tf, b) = (Inl UndefinedBehaviour, (tf1, b1)) \<and>
            conn x tf1 = None \<and> m_connected_clients b1 = m_connected_clients b - {x}))) \<and>
    (stoppable m io (tf, b) \<and> (\<forall>y \<in> idle_clients (tf_connections tf). errs y = (False, False) \<and> intact y) \<longrightarrow>
      (\<exists>tf1 b1. tf_connections tf1 = filter (\<lambda>p. \<not> is_idle (snd p)) (tf_connections tf) \<and> tf_shutdown_initiated tf1 \<and>
         \<not> tf_accept_outstanding tf1 \<and> run_ok elems ordered n b1 \<and>
         m_connected_clients b1 = m_connected_clients b - idle_clients (tf_connections tf) \<and>
         TcpFrontEnd_stop m io (False, False) errs intact env (tf, b) =
           (if \<exists>j \<le> 5. ios_stopped io j
            then (Inr (), apsnd (upd_sync (snd \<circ> connection_disconnect m)) (env_state (LEAST j. ios_stopped io j) env (tf1, b1)))
            else (Inl FrontEndException, env_state 5 env (tf1, b1))))) \<and>
    TcpFrontEnd_stop m io (False, False) errs intact env (tf\<lparr>tf_shutdown_initiated := True\<rparr>, b) =
      (Inr (), (tf\<lparr>tf_shutdown_initiated := True\<rparr>, b))"
proof (intro conjI impI; (elim conjE)?)
  assume "\<not> tf_started tf \<or> \<not> ios_runs io"
  then show "TcpFrontEnd_stop m io (False, False) errs intact env (tf, b) = (Inl Blocked, (tf, b))"
    using assms(4,5) by (auto simp: TcpFrontEnd_stop_def tf_disconnect_from_backend_def)
next
  assume a: "stoppable m io (tf, b)" "tf_connections tf = cs @ (x, c) # ds" "\<forall>p \<in> set cs. \<not> is_idle (snd p)" "is_idle c"
  show "fst (TcpFrontEnd_stop m io (False, False) errs intact env (tf, b)) = Inl Terminate" if "errs x \<noteq> (False, False)"
    by (rule stop_first_idle(1) [where errs = errs, OF a assms(6) that])
  assume e: "errs x = (False, False)" "\<not> intact x"
  let ?tf = "tf\<lparr>tf_shutdown_initiated := True, tf_accept_outstanding := False\<rparr>"
  have x: "(x, c) \<in> set (tf_connections tf)" "x \<in> m_connected_clients b"
    using a(2,4) assms(7) by (simp, force simp: idle_clients_def)
  then have "conn x ?tf = Some c" using assms(6) by (simp add: conn_def)
  then obtain b1 where d: "drop_connection (False, False) x (?tf, b) = (Inr (), (?tf\<lparr>tf_connections := AList.delete x (tf_connections ?tf)\<rparr>, b1))"
    "m_connected_clients b1 = m_connected_clients b - {x}"
    by (rule boost_library.drop_connection_ok [OF assms(1) _ assms(2,3) x(2)])
  from stop_first_idle(2) [where errs = errs and intact = intact and env = env, OF a assms(6) e d(1)] d(2)
  show "\<exists>tf1 b1. TcpFrontEnd_stop m io (False, False) errs intact env (tf, b) = (Inl UndefinedBehaviour, (tf1, b1)) \<and>
      conn x tf1 = None \<and> m_connected_clients b1 = m_connected_clients b - {x}"
    by (auto simp: conn_def delete_conv')
next
  assume a: "stoppable m io (tf, b)" "\<forall>y \<in> idle_clients (tf_connections tf). errs y = (False, False) \<and> intact y"
  let ?tf = "tf\<lparr>tf_shutdown_initiated := True, tf_accept_outstanding := False\<rparr>"
  obtain b1 where b1: "shutdown_connections errs intact (tf_connections tf) (?tf, b) =
      (Inr (), (?tf\<lparr>tf_connections := filter (\<lambda>p. fst p \<notin> idle_clients (tf_connections tf)) (tf_connections ?tf)\<rparr>, b1))"
    "run_ok elems ordered n b1" "m_connected_clients b1 = m_connected_clients b - idle_clients (tf_connections tf)"
    using boost_library.shutdown_connections_ok [OF assms(1-3,7) a(2), of ?tf] assms(6) by auto
  have f: "filter (\<lambda>p. fst p \<notin> idle_clients (tf_connections tf)) (tf_connections tf) = filter (\<lambda>p. \<not> is_idle (snd p)) (tf_connections tf)"
    using idle_clients_iff [OF assms(6)] by (intro filter_cong) auto
  let ?tf1 = "?tf\<lparr>tf_connections := filter (\<lambda>p. \<not> is_idle (snd p)) (tf_connections tf),
      tf_shutdown_notification := notify_one (tf_shutdown_notification tf)\<rparr>"
  have "TcpFrontEnd_stop m io (False, False) errs intact env (tf, b) =
      sbind (await_stopped (ios_stopped io) 0 5 env (?tf1, b1)) (\<lambda>_ (tf, b). (Inr (), (tf, upd_sync (snd \<circ> connection_disconnect m) b)))"
    using stop_orderly [OF a(1) b1(1), of env] by (simp add: f)
  then have "TcpFrontEnd_stop m io (False, False) errs intact env (tf, b) =
      (if \<exists>j \<le> 5. ios_stopped io j
       then (Inr (), apsnd (upd_sync (snd \<circ> connection_disconnect m)) (env_state (LEAST j. ios_stopped io j) env (?tf1, b1)))
       else (Inl FrontEndException, env_state 5 env (?tf1, b1)))"
    unfolding await_stopped_cases by (simp add: apsnd_def map_prod_def case_prod_beta)
  then show "\<exists>tf1 b1. tf_connections tf1 = filter (\<lambda>p. \<not> is_idle (snd p)) (tf_connections tf) \<and> tf_shutdown_initiated tf1 \<and>
       \<not> tf_accept_outstanding tf1 \<and> run_ok elems ordered n b1 \<and>
       m_connected_clients b1 = m_connected_clients b - idle_clients (tf_connections tf) \<and>
       TcpFrontEnd_stop m io (False, False) errs intact env (tf, b) =
         (if \<exists>j \<le> 5. ios_stopped io j
          then (Inr (), apsnd (upd_sync (snd \<circ> connection_disconnect m)) (env_state (LEAST j. ios_stopped io j) env (tf1, b1)))
          else (Inl FrontEndException, env_state 5 env (tf1, b1)))"
    using b1(2,3) by (intro exI [of _ ?tf1] exI [of _ b1]) simp
next
  show "TcpFrontEnd_stop m io (False, False) errs intact env (tf\<lparr>tf_shutdown_initiated := True\<rparr>, b) =
      (Inr (), (tf\<lparr>tf_shutdown_initiated := True\<rparr>, b))"
    by (simp add: TcpFrontEnd_stop_def tf_disconnect_from_backend_def)
qed

text \<open>
  A front end on the concrete backend, registered as manager 3, and its one connection, which waits for a request;
  the I/O service is found stopped after two sleeps.
\<close>

definition demo_stop_backend :: demo_backend where
  "demo_stop_backend = upd_sync (sig_connect 3) (BackEnd_connect 7 backend_2)"

definition demo_io :: io_service where
  "demo_io = \<lparr>ios_runs = True, ios_stopped = (\<lambda>k. 2 \<le> k)\<rparr>"

lemma demo_stop_backend_ok:
  "run_ok set lst_ordered 2 demo_stop_backend" "\<not> m_io_stopped demo_stop_backend"
  "m_connected_clients demo_stop_backend = {7}" "connection_is_connected 3 (m_synchronised_state demo_stop_backend)"
  using backend_2_ok(2) backend_2_quiet by (simp_all add: demo_stop_backend_def BackEnd_connect_def clients_insert_def run_ok_def sync_defs)

lemma demo_front_connections: "tf_connections (demo_front c) = [(7, c)]"
  by (simp add: demo_front_def set_conn_def TcpFrontEnd_start_def start_accept_def TcpFrontEnd_members_def)

theorem stop_outcomes_witness:
  "TcpFrontEnd_stop 3 demo_io (False, False) (\<lambda>_. (False, False)) (\<lambda>_. True) [] (TcpFrontEnd_members 4321, demo_stop_backend) =
     (Inl Blocked, (TcpFrontEnd_members 4321, demo_stop_backend)) \<and>
   (\<exists>tf b. TcpFrontEnd_stop 3 demo_io (False, False) (\<lambda>_. (False, False)) (\<lambda>_. True) [] (demo_front demo_conn, demo_stop_backend) =
      (Inr (), (tf, b)) \<and> tf_connections tf = [] \<and> m_connected_clients b = {} \<and> \<not> connection_is_connected 3 (m_synchronised_state b))"
proof -
  note stop = stop_outcomes [OF list_boost_library demo_stop_backend_ok(1,2,4), where io = demo_io and errs = "\<lambda>_. (False, False)"
      and intact = "\<lambda>_. True" and env = "[]"]
  have idle: "is_idle demo_conn" by (simp add: is_idle_def demo_conn_def TcpFrontEndConnectionInvoker_new_def)
  have stoppable: "stoppable 3 demo_io (demo_front demo_conn, demo_stop_backend)"
    using demo_stop_backend_ok(4) by (simp add: stoppable_def demo_io_def)
  have stopped: "\<exists>j \<le> 5. ios_stopped demo_io j" by (auto simp: demo_io_def intro: exI [of _ 2])
  have env: "env_state j [] w = w" for j and w :: "(nat list, unit, unit, string) tcp_world" by (induction j) simp_all
  obtain tf b where "tf_connections tf = []" "m_connected_clients b = {}"
    "TcpFrontEnd_stop 3 demo_io (False, False) (\<lambda>_. (False, False)) (\<lambda>_. True) [] (demo_front demo_conn, demo_stop_backend) =
       (Inr (), apsnd (upd_sync (snd \<circ> connection_disconnect 3)) (tf, b))"
    using stop [where tf = "demo_front demo_conn"] stoppable idle stopped demo_stop_backend_ok(3)
    by (auto simp: demo_front_connections env)
  then have "\<exists>tf b. TcpFrontEnd_stop 3 demo_io (False, False) (\<lambda>_. (False, False)) (\<lambda>_. True) [] (demo_front demo_conn, demo_stop_backend) =
      (Inr (), (tf, b)) \<and> tf_connections tf = [] \<and> m_connected_clients b = {} \<and> \<not> connection_is_connected 3 (m_synchronised_state b)"
    by (simp add: sync_defs)
  then show ?thesis using stop [where tf = "TcpFrontEnd_members 4321"] by (simp add: TcpFrontEnd_members_def)
qed

end
