(* ===== verification/Tcp_Lost_Peer.thy ===== *)
theory Tcp_Lost_Peer
  imports Tcp_Properties
begin

text \<open>
  What becomes of a connection whose peer is lost: a step relation of the front end and of the other
  clients of its backend, and what the steps of one client leave alone of another.
\<close>

section \<open>Steps\<close>

text \<open>
  The steps between starting and stopping the front end that the program survives, with the client that takes them: the handlers
  of the I/O thread and of the pool for one connection, and what other clients of the backend, which are
  not connections of this front end, do to the backend. A handler runs only for an operation that is outstanding or posted.
\<close>

inductive tcp_event :: "wire \<Rightarrow> protobuf \<Rightarrow> cid \<Rightarrow> ('ix, 'st, 'ck, 'm) tcp_world \<Rightarrow> ('ix, 'st, 'ck, 'm) tcp_world \<Rightarrow> bool"
  for W P where
  accept: "conn y (fst w) = None \<Longrightarrow> y \<notin> m_connected_clients (snd w) \<Longrightarrow> tf_accept_outstanding (fst w) \<Longrightarrow>
    tcp_event W P y w (handle_accept y err w)"
| read: "conn y (fst w) = Some c \<Longrightarrow> tc_io c = ReadHeader \<and> length bs = 8 \<or> tc_io c = ReadBody (length bs) \<Longrightarrow>
    read_done W P errs y bs w = (Inr (), w') \<Longrightarrow> tcp_event W P y w w'"
| written: "conn y (fst w) = Some c \<Longrightarrow> tc_io c = WriteResponse bs \<Longrightarrow> write_done y (length bs) w = (Inr (), w') \<Longrightarrow>
    tcp_event W P y w w'"
| failed: "conn y (fst w) = Some c \<Longrightarrow> tc_io c \<noteq> NoIo \<Longrightarrow> io_failed W P y w = (Inr (), w') \<Longrightarrow> tcp_event W P y w w'"
| run: "conn y tf = Some c \<Longrightarrow> y \<in> set (m_io_posted b) \<Longrightarrow> tcp_operator W P y (tf, io_take y b) = (Inr (), w') \<Longrightarrow>
    tcp_event W P y (tf, b) w'"
| other_connect: "conn y tf = None \<Longrightarrow> tcp_event W P y (tf, b) (tf, BackEnd_connect y b)"
| other_call: "conn y tf = None \<Longrightarrow> invoke P y (i, b) = (r, (i', b')) \<Longrightarrow> tcp_event W P y (tf, b) (tf, b')"
| other_run: "conn y tf = None \<Longrightarrow> y \<in> set (m_io_posted b) \<Longrightarrow> run_invoker P y (i, io_take y b) = (r, (i', b')) \<Longrightarrow>
    tcp_event W P y (tf, b) (tf, b')"
| other_leave: "conn y tf = None \<Longrightarrow> BackEnd_disconnect y (cd, b) = (r, (cd', b')) \<Longrightarrow> tcp_event W P y (tf, b) (tf, b')"

inductive tcp_run :: "wire \<Rightarrow> protobuf \<Rightarrow> ('ix, 'st, 'ck, 'm) tcp_world \<Rightarrow> ('ix, 'st, 'ck, 'm) tcp_world \<Rightarrow> bool" for W P w where
  stay: "tcp_run W P w w"
| go: "tcp_run W P w w1 \<Longrightarrow> tcp_event W P y w1 w2 \<Longrightarrow> tcp_run W P w w2"

inductive_cases tcp_eventE: "tcp_event W P y w w'"

section \<open>What the backend leaves alone of another client\<close>

definition spares :: "cid \<Rightarrow> ('ix, 'st, 'ck, 'm) BackEnd \<Rightarrow> ('ix, 'st, 'ck, 'm) BackEnd \<Rightarrow> bool" where
  "spares x b b' \<longleftrightarrow> (x \<in> m_connected_clients b' \<longleftrightarrow> x \<in> m_connected_clients b) \<and>
     (x \<in> set (m_io_posted b') \<longleftrightarrow> x \<in> set (m_io_posted b))"

lemma spares_refl [simp]: "spares x b b"
  by (simp add: spares_def)

lemma spares_trans: "spares x a b \<Longrightarrow> spares x b c \<Longrightarrow> spares x a c"
  by (simp add: spares_def)

lemma same_control_spares: "same_control b b' \<Longrightarrow> spares x b b'"
  by (simp add: spares_def same_controlD)

lemma spares_take [simp]: "x \<noteq> y \<Longrightarrow> spares x b (io_take y b)"
  by (simp add: spares_def)

lemma spares_updates [simp]:
  "spares x b (upd_sync f b') \<longleftrightarrow> spares x b b'" "spares x b (b'\<lparr>m_client_service_cookies := v\<rparr>) \<longleftrightarrow> spares x b b'"
  "spares x b (b'\<lparr>m_synchronised_state := s\<rparr>) \<longleftrightarrow> spares x b b'"
  "y \<noteq> x \<Longrightarrow> spares x b (b'\<lparr>m_io_posted := m_io_posted b @ [y]\<rparr>) \<longleftrightarrow>
     (x \<in> m_connected_clients b' \<longleftrightarrow> x \<in> m_connected_clients b)"
  by (auto simp: spares_def)

lemma end_rpc_spares [simp]: "spares x b (snd (snd (BackEnd_end_rpc (i, b'))))\<longleftrightarrow> spares x b b'"
  by (simp add: BackEnd_end_rpc_def Let_def split: sum.split)

lemma snd_sbind_const [simp]: "snd (sbind r (\<lambda>_ w. (Inr v, w))) = snd r"
  by (cases r; cases "fst r") auto

lemma refuse_spares [simp]: "spares x b (snd (snd (refuse c e (i, b')))) \<longleftrightarrow> spares x b b'"
  by (simp add: refuse_def)

lemma invoke_spares: "y \<noteq> x \<Longrightarrow> spares x b (snd (snd (invoke P y (i, b))))"
  by (simp add: invoke_def Let_def split: prod.split bool.split sum.split option.split)

lemma basic_calls_same_control:
  "same_control b (snd (bp_hello hr cd b))" "same_control b (snd (bp_list_services u cd b))"
  "same_control b (snd (bp_list_methods lq cd b))"
  by (simp_all add: bp_hello_def bp_list_services_def bp_list_methods_def Let_def split: sum.split)

lemma subscription_calls_same_control:
  "same_control b (snd (bp_rpc_subscribe_service y sq cd b))" "same_control b (snd (bp_rpc_unsubscribe_service y uq cd b))"
  by (simp_all add: bp_rpc_subscribe_service_def bp_rpc_unsubscribe_service_def Let_def split: sum.split option.split prod.split)

lemma generated_dispatch_same_control:
  assumes "\<And>m cd. same_control b (snd (call m cd b))"
  shows "same_control b (snd (generated_dispatch_function parse call ser cd b))"
  unfolding generated_dispatch_function_def
  using assms by (auto simp: sbind_def split: option.split prod.split sum.split) (metis snd_conv)+

lemma service_dispatch_same_control: "same_control b (snd (service_dispatch P y k ck cd b))"
proof -
  have "same_control b (snd (basic_dispatch P y n cd b))" for n
    unfolding basic_dispatch_def
    by (simp add: generated_dispatch_same_control basic_calls_same_control subscription_calls_same_control)
  then show ?thesis
    by (simp add: service_dispatch_def Let_def split: option.split Impl.split sum.split prod.split)
qed

lemma run_invoker_spares: "spares x b (snd (snd (run_invoker P y (i, b))))"
proof -
  have "spares x b (snd (service_dispatch P y k ck cd b))" for k ck cd
    by (rule same_control_spares [OF service_dispatch_same_control])
  then show ?thesis
    by (auto simp: run_invoker_def split: option.split sum.split prod.split) (metis snd_conv)+
qed

lemma disconnect_service_same_control: "same_control b (snd (snd (disconnect_service y k (cd, b))))"
  by (auto simp: disconnect_service_def Let_def split: option.split sum.split prod.split)

lemma disconnect_services_same_control: "same_control b (snd (snd (disconnect_services y is (cd, b))))"
proof (induction "is" arbitrary: cd b)
  case (Cons i js)
  obtain r cd1 b1 where d: "disconnect_service y (of_nat i) (cd, b) = (r, (cd1, b1))" by (cases "disconnect_service y (of_nat i) (cd, b)") auto
  then have "same_control b b1" using disconnect_service_same_control [of b y "of_nat i" cd] by simp
  then show ?case using Cons.IH [of b1 cd1] d by (cases r) (auto intro: same_control_trans)
qed simp

lemma BackEnd_disconnect_spares: "y \<noteq> x \<Longrightarrow> spares x b (snd (snd (BackEnd_disconnect y (cd, b))))"
proof -
  assume "y \<noteq> x"
  moreover have "spares x b (snd (snd (disconnect_services y is (cd, b))))" for "is"
    by (rule same_control_spares [OF disconnect_services_same_control])
  ultimately show ?thesis
    by (auto simp: BackEnd_disconnect_def sbind_def clients_erase_def Let_def spares_def split: sum.split prod.split) (metis snd_conv)+
qed

lemma BackEnd_connect_spares: "y \<noteq> x \<Longrightarrow> spares x b (BackEnd_connect y b)"
  by (simp add: spares_def BackEnd_connect_def clients_insert_def)

section \<open>What a step leaves alone of another connection\<close>

definition spares_conn :: "cid \<Rightarrow> ('ix, 'st, 'ck, 'm) tcp_world \<Rightarrow> ('ix, 'st, 'ck, 'm) tcp_world \<Rightarrow> bool" where
  "spares_conn x w w' \<longleftrightarrow> conn x (fst w') = conn x (fst w) \<and> spares x (snd w) (snd w')"

lemma write_response_spares: "y \<noteq> x \<Longrightarrow> spares_conn x w (snd (handle_write_response W y w))"
  by (cases w) (simp add: spares_conn_def handle_write_response_def Let_def split: option.split sum.split)

lemma drop_connection_spares: "y \<noteq> x \<Longrightarrow> spares_conn x w (snd (drop_connection errs y w))"
proof -
  assume y: "y \<noteq> x"
  then have "spares x b (snd (TcpFrontEndConnectionInvoker_destroy y c b))" for c b
    using BackEnd_disconnect_spares [OF y, of b "tc_client c"]
    by (simp add: TcpFrontEndConnectionInvoker_destroy_def case_prod_beta)
  then show ?thesis using y
    by (cases w) (auto simp: drop_connection_def disconnect_client_def spares_conn_def conn_def delete_conv' case_prod_beta
        split: option.split)
qed

lemma spares_conn_trans: "spares_conn x u v \<Longrightarrow> spares_conn x v w \<Longrightarrow> spares_conn x u w"
  by (auto simp: spares_conn_def intro: spares_trans)

lemma spares_conn_set: "y \<noteq> x \<Longrightarrow> spares x b b' \<Longrightarrow> spares_conn x (tf, b) (set_conn y c (add_rpc d tf), b')"
  "y \<noteq> x \<Longrightarrow> spares x b b' \<Longrightarrow> spares_conn x (tf, b) (set_conn y c tf, b')"
  by (simp_all add: spares_conn_def)

lemma spares_conn_rpc: "spares_conn x u (snd (sbind r (\<lambda>_ (tf, b). (Inr (), (add_rpc d tf, b))))) \<longleftrightarrow> spares_conn x u (snd r)"
  by (cases r; cases "fst r") (auto simp: spares_conn_def split: prod.split)

lemma read_body_spares:
  assumes "y \<noteq> x"
  shows "spares_conn x w (snd (handle_read_body W P y n False w))"
proof (cases "conn y (fst w)")
  case None
  then show ?thesis by (cases w) (simp add: handle_read_body_def spares_conn_def)
next
  case (Some c)
  obtain tf b where w: "w = (tf, b)" by (cases w)
  let ?c = "(tc_upd_client (\<lambda>cd. cd\<lparr>cd_request := parse_ClientRequest W (Buffer_bytes n (tc_buffer c))\<rparr>) c)
      \<lparr>tc_io_state := IO_REQUEST_DISPATCHED_ACTIVE\<rparr>"
  obtain r c1 b1 where inv: "tcp_invoke P y (?c, b) = (r, (c1, b1))" by (cases "tcp_invoke P y (?c, b)") auto
  then have b1: "spares x b b1" using invoke_spares [OF assms, of b P "tc_base ?c"] by (auto simp: tcp_invoke_def split: prod.splits)
  note called = spares_conn_set(1) [OF assms b1, of tf c1 1]
  note answered = spares_conn_trans [OF called write_response_spares [OF assms, where W = W]]
  show ?thesis
    using Some inv called answered by (cases r) (simp_all add: w handle_read_body_def Let_def spares_conn_rpc del: add_rpc_simps(2))
qed

lemma read_header_spares: "y \<noteq> x \<Longrightarrow> spares_conn x w (snd (handle_read_header W errs y n False w))"
  using drop_connection_spares [of y x w errs]
  by (cases w) (auto simp: handle_read_header_def Let_def spares_conn_def split: option.split)

lemma read_done_spares:
  assumes "y \<noteq> x"
  shows "spares_conn x w (snd (read_done W P errs y bs w))"
proof (cases "conn y (fst w)")
  case None
  then show ?thesis by (simp add: read_done_def spares_conn_def)
next
  case (Some c)
  note set = spares_conn_set(2) [OF assms spares_refl, of "fst w" "snd w", unfolded prod.collapse]
  note header = spares_conn_trans [OF set read_header_spares [OF assms]]
  note body = spares_conn_trans [OF set read_body_spares [OF assms]]
  show ?thesis
    using Some set header body by (simp add: read_done_def Let_def spares_conn_def [of x w w] split: sum.split async_io.split)
qed

lemma tcp_operator_spares:
  assumes "y \<noteq> x"
  shows "spares_conn x w (snd (tcp_operator W P y w))"
proof (cases "conn y (fst w)")
  case None
  then show ?thesis by (cases w) (simp add: tcp_operator_def spares_conn_def)
next
  case (Some c)
  obtain tf b where w: "w = (tf, b)" by (cases w)
  obtain r i b1 where run: "run_invoker P y (tc_base c, b) = (r, (i, b1))" by (cases "run_invoker P y (tc_base c, b)") auto
  then have "spares x b b1" using run_invoker_spares [of x b P y "tc_base c"] by simp
  note set = spares_conn_set(2) [OF assms this, of tf]
  note answered = spares_conn_trans [OF set write_response_spares [OF assms, where W = W]]
  show ?thesis using Some run set answered by (cases r) (simp_all add: w tcp_operator_def)
qed

lemma tcp_event_spares:
  assumes "tcp_event W P y w w'" "y \<noteq> x"
  shows "spares_conn x w w'"
  using assms
proof (induction rule: tcp_event.induct)
  case (accept y w err)
  then show ?case
    by (cases w) (simp add: handle_accept_def TcpFrontEndConnectionInvoker_new_def spares_conn_def start_accept_def conn_def
        BackEnd_connect_spares set_conn_def update_conv')
next
  case (read y w c bs errs w')
  then show ?case using read_done_spares [of y x w W P errs bs] by simp
next
  case (written y w c bs w')
  then show ?case by (auto simp: write_done_def handle_reset_for_next_request_def spares_conn_def)
next
  case (failed y w c w')
  then show ?case
    by (cases "tc_io c") (auto simp: io_failed_def handle_read_header_def handle_read_body_def handle_reset_for_next_request_def
        handle_error_def spares_conn_def Let_def)
next
  case (run y tf c b w')
  have "spares_conn x (tf, b) (tf, io_take y b)" using run.prems by (simp add: spares_conn_def)
  then show ?case using tcp_operator_spares [OF run.prems, of "(tf, io_take y b)" W P] run.hyps(3) by (simp add: spares_conn_trans)
next
  case (other_connect y tf b)
  then show ?case by (simp add: spares_conn_def BackEnd_connect_spares)
next
  case (other_call y tf i b r i' b')
  then show ?case using invoke_spares [of y x b P i] by (simp add: spares_conn_def)
next
  case (other_run y tf b i r i' b')
  then show ?case 
    using run_invoker_spares [of x "io_take y b" P y i] spares_trans [OF spares_take, of x y b b'] by (simp add: spares_conn_def)
next
  case (other_leave y tf cd b r cd' b')
  then show ?case using BackEnd_disconnect_spares [of y x b cd] by (simp add: spares_conn_def)
qed

section \<open>The lost connection\<close>

definition is_lost :: "cid \<Rightarrow> TcpFrontEndConnectionInvoker \<Rightarrow> ('ix, 'st, 'ck, 'm) tcp_world \<Rightarrow> bool" where
  "is_lost x c w \<longleftrightarrow> conn x (fst w) = Some c \<and> tc_io c = NoIo \<and> x \<notin> set (m_io_posted (snd w)) \<and> x \<in> m_connected_clients (snd w)"

lemma lost_no_event: "is_lost x c w \<Longrightarrow> \<not> tcp_event W P x w w'"
  by (auto simp: is_lost_def elim: tcp_eventE)

lemma lost_run: "tcp_run W P w w' \<Longrightarrow> is_lost x c w \<Longrightarrow> is_lost x c w'"
proof (induction rule: tcp_run.induct)
  case (go w1 y w2)
  then have "y \<noteq> x" using lost_no_event by blast
  with go show ?case using tcp_event_spares [of W P y w1 w2 x] by (simp add: is_lost_def spares_conn_def spares_def)
qed

section \<open>Property\<close>

text \<open>
  C34: a lost peer. When the operation that is outstanding on a connection fails, for instance because the
  peer closed it, the handler only reports it, to the console. From then on, and whatever the other connections and the other clients of the
  backend do until the front end is stopped, the connection stays in the set as it is, without an outstanding operation, no handler of it can run any more, and its
  client stays connected to the backend.
\<close>
theorem lost_peer_stays_connected:
  assumes "conn x tf = Some c" "tc_io c \<noteq> NoIo" "x \<notin> set (m_io_posted b)" "x \<in> m_connected_clients b"
  shows "\<exists>tf'. io_failed W P x (tf, b) = (Inr (), (tf', b)) \<and> (\<forall>y. y \<noteq> x \<longrightarrow> conn y tf' = conn y tf) \<and>
    (\<forall>w. tcp_run W P (tf', b) w \<longrightarrow> conn x (fst w) = Some (c\<lparr>tc_io := NoIo\<rparr>) \<and> x \<in> m_connected_clients (snd w) \<and>
       (\<forall>w'. \<not> tcp_event W P x w w'))"
proof -
  let ?tf = "set_conn x (c\<lparr>tc_io := NoIo\<rparr>) tf"
  have "io_failed W P x (tf, b) = (Inr (), (?tf, b))"
    using assms(1,2)
    by (cases "tc_io c")
      (simp_all add: io_failed_def handle_read_header_def handle_read_body_def handle_reset_for_next_request_def
        handle_error_def Let_def)
  moreover have "is_lost x (c\<lparr>tc_io := NoIo\<rparr>) (?tf, b)" using assms(3,4) by (simp add: is_lost_def)
  then have "is_lost x (c\<lparr>tc_io := NoIo\<rparr>) w" if "tcp_run W P (?tf, b) w" for w by (rule lost_run [OF that])
  then have "conn x (fst w) = Some (c\<lparr>tc_io := NoIo\<rparr>) \<and> x \<in> m_connected_clients (snd w) \<and> (\<forall>w'. \<not> tcp_event W P x w w')"
    if "tcp_run W P (?tf, b) w" for w
    using that lost_no_event [of x "c\<lparr>tc_io := NoIo\<rparr>" w W P] by (simp add: is_lost_def)
  ultimately show ?thesis by (intro exI [of _ ?tf]) simp
qed

theorem lost_peer_stays_connected_witness:
  "\<exists>tf'. io_failed demo_wire demo_protobuf 7 (demo_front demo_conn, BackEnd_connect 7 backend_2) =
     (Inr (), (tf', BackEnd_connect 7 backend_2)) \<and>
   conn 7 tf' = Some (demo_conn\<lparr>tc_io := NoIo\<rparr>) \<and>
   (\<exists>b'. tcp_event demo_wire demo_protobuf 8 (tf', BackEnd_connect 7 backend_2) (tf', b') \<and> 7 \<in> m_connected_clients b')"
proof -
  let ?b = "BackEnd_connect 7 backend_2"
  have "7 \<notin> set (m_io_posted ?b)" "7 \<in> m_connected_clients ?b"
    using backend_2_quiet by (simp_all add: BackEnd_connect_def clients_insert_def)
  then obtain tf' where tf': "io_failed demo_wire demo_protobuf 7 (demo_front demo_conn, ?b) = (Inr (), (tf', ?b))"
    "\<forall>y. y \<noteq> 7 \<longrightarrow> conn y tf' = conn y (demo_front demo_conn)"
    "\<forall>w. tcp_run demo_wire demo_protobuf (tf', ?b) w \<longrightarrow> conn 7 (fst w) = Some (demo_conn\<lparr>tc_io := NoIo\<rparr>) \<and>
       7 \<in> m_connected_clients (snd w) \<and> (\<forall>w'. \<not> tcp_event demo_wire demo_protobuf 7 w w')"
    using lost_peer_stays_connected [of 7 "demo_front demo_conn" demo_conn ?b demo_wire demo_protobuf] by auto
  have "conn 8 tf' = None"
    using tf'(2) by (simp add: demo_front_def set_conn_def TcpFrontEnd_start_def start_accept_def TcpFrontEnd_members_def conn_def)
  then have e: "tcp_event demo_wire demo_protobuf 8 (tf', ?b) (tf', BackEnd_connect 8 ?b)" by (rule other_connect)
  moreover from tcp_run.go [OF tcp_run.stay e] tf'(3) have "7 \<in> m_connected_clients (BackEnd_connect 8 ?b)" by fastforce
  moreover have "conn 7 tf' = Some (demo_conn\<lparr>tc_io := NoIo\<rparr>)" using tf'(3) tcp_run.stay by fastforce
  ultimately show ?thesis using tf'(1) by blast
qed

end
