(* ===== verification/Tcp_Invoker.thy ===== *)
theory Tcp_Invoker
  imports Tcp_Wire Back_End
begin

text \<open>
  The invoker of a client in another process (\<^verbatim>\<open>include/rpc/invoker/TcpInvoker.h\<close>): it sends
  the request as one frame and reads the response from the same socket, all within \<open>invoke()\<close>.

  What is behind the socket is an argument: \<open>peer\<close> maps the bytes that were written to the bytes that
  arrive afterwards until the connection ends, or to \<open>None\<close> when writing fails; reading more bytes
  than arrive fails. \<open>junk\<close> are the bytes in the part of the buffer that was not written
  since its allocation.
\<close>

record TcpInvoker =
  ti_base :: InvokerBase
  ti_useable :: bool
  ti_error_code :: bool
  ti_buffer :: Buffer

definition TcpInvoker_new :: "bool \<Rightarrow> (exn, TcpInvoker) res" where
  "TcpInvoker_new connected =
     (if connected
      then Inr \<lparr>ti_base = InvokerBase_new, ti_useable = True, ti_error_code = False, ti_buffer = Buffer_new\<rparr>
      else Inl TcpInvokerException)"

definition ti_upd_client :: "(ClientData \<Rightarrow> ClientData) \<Rightarrow> TcpInvoker \<Rightarrow> TcpInvoker" where
  "ti_upd_client f i = i\<lparr>ti_base := (ti_base i)\<lparr>inv_client_data := f (inv_client_data (ti_base i))\<rparr>\<rparr>"

definition ti_reset :: "TcpInvoker \<Rightarrow> (exn, unit, TcpInvoker) sres" where
  "ti_reset i =
     (let i = ti_upd_client (\<lambda>cd. cd\<lparr>cd_request := ClientRequest_Clear, cd_response := ClientResponse_Clear, cd_ec := ec_clear\<rparr>) i
      in if cd_rpc_active (inv_client_data (ti_base i)) then (Inl AssertionFailed, i) else (Inr (), i))"

definition ti_is_useable :: "TcpInvoker \<Rightarrow> bool" where
  "ti_is_useable i = ti_useable i"

text \<open>All bytes of the buffer, as the stream over the whole array sees them.\<close>

definition Buffer_all :: "byte list \<Rightarrow> Buffer \<Rightarrow> byte list" where
  "Buffer_all junk b = take (buf_size b) (buf b @ junk)"

text \<open>Sending the request: the buffer after it, or a store past its end.\<close>

definition ti_send :: "wire \<Rightarrow> TcpInvoker \<Rightarrow> (exn, Buffer \<times> byte list) res" where
  "ti_send W i =
     (let body = ser_ClientRequest W (cd_request (inv_client_data (ti_base i)));
          msg_size = (8 + of_nat (length body) :: uint32);
          bu = (if unat msg_size > buf_size (ti_buffer i) then Buffer_resize (unat msg_size) (ti_buffer i) else ti_buffer i)
      in ebind (Buffer_store (take (buf_size bu) (WriteLittleEndian32 W 0 @ WriteLittleEndian32 W msg_size @ body)) bu)
           (\<lambda>bu. Inr (bu, Buffer_bytes (unat msg_size) bu)))"

text \<open>
  Receiving the response from the bytes \<open>inp\<close>: what arrives is stored, also when it is less than
  asked for; the flag says whether the whole message arrived.
\<close>

definition ti_receive :: "wire \<Rightarrow> byte list \<Rightarrow> Buffer \<Rightarrow> (exn, Buffer \<times> bool) res" where
  "ti_receive W inp bu =
     ebind (Buffer_store (take 8 inp) bu) (\<lambda>bu.
       if length inp < 8 then Inr (bu, False)
       else
         let msg_size_return = header_size W (Buffer_bytes 8 bu);
             bu = (if unat msg_size_return > buf_size bu then Buffer_resize (unat msg_size_return) bu else bu);
             n = unat (msg_size_return - 8)
         in ebind (Buffer_store (take n (drop 8 inp)) bu) (\<lambda>bu. Inr (bu, n \<le> length (drop 8 inp))))"

definition ti_invoke :: "wire \<Rightarrow> byte list \<Rightarrow> (byte list \<Rightarrow> byte list option) \<Rightarrow> TcpInvoker \<Rightarrow> (exn, bool, TcpInvoker) sres" where
  "ti_invoke W junk peer i =
     (case ti_send W i of
        Inl e \<Rightarrow> (Inl e, i)
      | Inr (bu, sent) \<Rightarrow>
          (case peer sent of
             None \<Rightarrow> (Inr False, i\<lparr>ti_buffer := bu, ti_error_code := True\<rparr>)
           | Some inp \<Rightarrow>
               (case ti_receive W inp bu of
                  Inl e \<Rightarrow> (Inl e, i)
                | Inr (bu, False) \<Rightarrow> (Inr False, i\<lparr>ti_buffer := bu, ti_error_code := True\<rparr>)
                | Inr (bu, True) \<Rightarrow>
                    (Inr False, (ti_upd_client (\<lambda>cd. cd\<lparr>cd_response := parse_ClientResponse W (Buffer_all junk bu)\<rparr>) i)
                       \<lparr>ti_buffer := bu, ti_error_code := False\<rparr>))))"

section \<open>One exchange\<close>

lemma ti_upd_client_simps [simp]:
  "inv_client_data (ti_base (ti_upd_client f i)) = f (inv_client_data (ti_base i))"
  "ti_buffer (ti_upd_client f i) = ti_buffer i" "ti_error_code (ti_upd_client f i) = ti_error_code i"
  by (simp_all add: ti_upd_client_def)

context wire_format
begin

lemma ti_send_ok:
  assumes "body = ser_ClientRequest W (cd_request (inv_client_data (ti_base i)))" "sendable body"
  obtains bu where "ti_send W i = Inr (bu, frame W 0 body)" "buf_size bu = max (buf_size (ti_buffer i)) (8 + length body)"
    "take (8 + length body) (buf bu) = frame W 0 body"
proof -
  let ?sz = "8 + of_nat (length body) :: uint32"
  have sz: "unat ?sz = 8 + length body" using assms(2) by (rule sendable_size)
  let ?bu = "if unat ?sz > buf_size (ti_buffer i) then Buffer_resize (unat ?sz) (ti_buffer i) else ti_buffer i"
  have size: "buf_size ?bu = max (buf_size (ti_buffer i)) (8 + length body)" by (simp add: sz Buffer_resize_def)
  have fr: "WriteLittleEndian32 W 0 @ WriteLittleEndian32 W ?sz @ body = frame W 0 body" "length (frame W 0 body) = 8 + length body"
    by (simp_all add: frame_def)
  then have fit: "take (buf_size ?bu) (frame W 0 body) = frame W 0 body" "length (frame W 0 body) \<le> buf_size ?bu"
    using size by simp_all
  let ?bu' = "?bu\<lparr>buf := frame W 0 body @ drop (length (frame W 0 body)) (buf ?bu)\<rparr>"
  have "ti_send W i = Inr (?bu', Buffer_bytes (unat ?sz) ?bu')"
    unfolding ti_send_def Let_def assms(1) [symmetric] fr(1) fit(1) Buffer_store_ok [OF fit(2)] by simp
  then have eq: "ti_send W i = Inr (?bu', frame W 0 body)" by (simp add: Buffer_bytes_def sz fr(2))
  show ?thesis by (rule that [OF eq]) (use size fr(2) in simp_all)
qed

end

text \<open>The size of the body that a header announces: the header's 8 bytes are subtracted in 32 bits.\<close>

definition announced :: "wire \<Rightarrow> byte list \<Rightarrow> nat" where
  "announced W inp = (let z = unat (header_size W (take 8 inp)) in if 8 \<le> z then z - 8 else 2 ^ 32 + z - 8)"

lemma announced_eq: "unat (header_size W (take 8 inp) - 8) = announced W inp"
proof -
  have "unat (w - 8) = (if 8 \<le> unat w then unat w - 8 else 2 ^ 32 + unat w - 8)" for w :: uint32
    using unat_sub_if' [of w 8] by (auto simp: word_le_nat_alt)
  then show ?thesis by (simp add: announced_def Let_def)
qed

text \<open>
  Receiving anything that has a header: the bytes of the body that arrived are at the start of the buffer, and behind them
  is what the buffer held there before, unless it had to be enlarged.
\<close>

lemma ti_receive_cases:
  fixes W inp
  assumes "8 \<le> buf_size bu" "8 \<le> length inp"
  defines "z \<equiv> unat (header_size W (take 8 inp))" and "got \<equiv> take (announced W inp) (drop 8 inp)"
  shows "z < 8 \<and> buf_size bu < length got \<Longrightarrow> ti_receive W inp bu = Inl UndefinedBehaviour"
    "\<not> (z < 8 \<and> buf_size bu < length got) \<Longrightarrow> \<exists>bu' rest. ti_receive W inp bu = Inr (bu', announced W inp \<le> length (drop 8 inp)) \<and>
       buf_size bu' = max (buf_size bu) z \<and> buf bu' = got @ rest"
proof -
  let ?b1 = "bu\<lparr>buf := take 8 inp @ drop 8 (buf bu)\<rparr>"
  let ?b2 = "if z > buf_size bu then Buffer_resize z ?b1 else ?b1"
  have s1: "Buffer_store (take 8 inp) bu = Inr ?b1" using Buffer_store_ok [of "take 8 inp" bu] assms(1,2) by (simp add: min_absorb2)
  have hd: "Buffer_bytes 8 ?b1 = take 8 inp" using assms(2) by (simp add: Buffer_bytes_def)
  have size2: "buf_size ?b2 = max (buf_size bu) z" by (simp add: Buffer_resize_def)
  have eq: "ti_receive W inp bu = ebind (Buffer_store got ?b2) (\<lambda>bu. Inr (bu, announced W inp \<le> length (drop 8 inp)))"
    unfolding ti_receive_def s1 Let_def ebind_simps hd announced_eq z_def got_def using assms(2) by simp
  have over: "length got > buf_size ?b2 \<longleftrightarrow> z < 8 \<and> buf_size bu < length got"
  proof (cases "8 \<le> z")
    case True
    then have "announced W inp = z - 8" by (simp add: announced_def z_def Let_def)
    then have "length got \<le> z" by (simp add: got_def)
    with True show ?thesis unfolding size2 by simp
  next
    case False
    then show ?thesis unfolding size2 using assms(1) by simp
  qed
  show "ti_receive W inp bu = Inl UndefinedBehaviour" if "z < 8 \<and> buf_size bu < length got"
    using that unfolding eq over [symmetric] by (simp add: Buffer_store_def)
  show "\<exists>bu' rest. ti_receive W inp bu = Inr (bu', announced W inp \<le> length (drop 8 inp)) \<and>
       buf_size bu' = max (buf_size bu) z \<and> buf bu' = got @ rest" if "\<not> (z < 8 \<and> buf_size bu < length got)"
  proof -
    have "length got \<le> buf_size ?b2" using that unfolding over [symmetric] by (rule leI)
    from eq [unfolded Buffer_store_ok [OF this]] size2 show ?thesis
      by (intro exI [of _ "?b2\<lparr>buf := got @ drop (length got) (buf ?b2)\<rparr>"]) simp
  qed
qed

section \<open>Properties\<close>

text \<open>
  An exchange that failed: \<open>invoke()\<close> returns what it also returns on success and leaves the request and the
  response as they were; only the error code of the invoker is set.
\<close>

definition exchange_failed :: "TcpInvoker \<Rightarrow> (exn, bool, TcpInvoker) sres \<Rightarrow> bool" where
  "exchange_failed i r \<longleftrightarrow> (\<exists>i'. r = (Inr False, i') \<and> ti_error_code i' \<and> ti_base i' = ti_base i)"

text \<open>
  C35: one exchange of the TCP invoker, for every peer. It sends exactly the frame of its request. If writing fails, fewer than
  the 8 bytes of a header arrive, or fewer bytes than the header announces, the exchange fails without a trace in the
  return value or the response. If all announced bytes arrive, the response is decoded from the whole buffer: the body of the answer
  followed by whatever else the buffer held, since the stream is not limited to the size that was received. The buffer grows
  to the announced size, so that the client stays within it, with one exception: a peer that announces a size below 8 makes the
  length of the body wrap around, and overflows the buffer if it sends more bytes than fit.
\<close>
theorem tcp_client_exchange:
  assumes "wire_format W" "rq = ser_ClientRequest W (cd_request (inv_client_data (ti_base i)))" "sendable rq" "8 \<le> buf_size (ti_buffer i)"
    "cap = max (buf_size (ti_buffer i)) (8 + length rq)"
  shows "(peer (frame W 0 rq) = None \<longrightarrow> exchange_failed i (ti_invoke W junk peer i)) \<and>
    (\<forall>inp. peer (frame W 0 rq) = Some inp \<and> length inp < 8 \<longrightarrow> exchange_failed i (ti_invoke W junk peer i)) \<and>
    (\<forall>inp z got. peer (frame W 0 rq) = Some inp \<and> 8 \<le> length inp \<and> z = unat (header_size W (take 8 inp)) \<and>
       got = take (announced W inp) (drop 8 inp) \<longrightarrow>
      (if z < 8 \<and> cap < length got then fst (ti_invoke W junk peer i) = Inl UndefinedBehaviour
       else if length got < announced W inp then exchange_failed i (ti_invoke W junk peer i)
       else \<exists>i' tail. ti_invoke W junk peer i = (Inr False, i') \<and> \<not> ti_error_code i' \<and> buf_size (ti_buffer i') = max cap z \<and>
         inv_client_data (ti_base i') = (inv_client_data (ti_base i))\<lparr>cd_response := parse_ClientResponse W (got @ tail)\<rparr> \<and>
         (max cap z \<le> length junk \<longrightarrow> length (got @ tail) = max cap z)))"
proof -
  obtain bu where s: "ti_send W i = Inr (bu, frame W 0 rq)" "buf_size bu = cap"
    using wire_format.ti_send_ok [OF assms(1,2,3)] assms(5) by metis
  have b8: "8 \<le> buf_size bu" using s(2) assms(4,5) by simp
  have short: "exchange_failed i (ti_invoke W junk peer i)" if "peer (frame W 0 rq) = Some inp" "length inp < 8" for inp
    using s that b8 by (simp add: exchange_failed_def ti_invoke_def ti_receive_def Buffer_store_ok)
  have answer: "if z < 8 \<and> cap < length got then fst (ti_invoke W junk peer i) = Inl UndefinedBehaviour
       else if length got < announced W inp then exchange_failed i (ti_invoke W junk peer i)
       else \<exists>i' tail. ti_invoke W junk peer i = (Inr False, i') \<and> \<not> ti_error_code i' \<and> buf_size (ti_buffer i') = max cap z \<and>
         inv_client_data (ti_base i') = (inv_client_data (ti_base i))\<lparr>cd_response := parse_ClientResponse W (got @ tail)\<rparr> \<and>
         (max cap z \<le> length junk \<longrightarrow> length (got @ tail) = max cap z)"
    if p: "peer (frame W 0 rq) = Some inp" "8 \<le> length inp"
      and z: "z = unat (header_size W (take 8 inp))" and got: "got = take (announced W inp) (drop 8 inp)" for inp z got
  proof (cases "z < 8 \<and> cap < length got")
    case True
    then show ?thesis
      using ti_receive_cases(1) [OF b8 p(2)] s p(1) by (simp add: ti_invoke_def z got)
  next
    case False
    then obtain bu' rest where r: "ti_receive W inp bu = Inr (bu', announced W inp \<le> length (drop 8 inp))"
      "buf_size bu' = max cap z" "buf bu' = got @ rest"
      using ti_receive_cases(2) [OF b8 p(2)] unfolding s(2) z got by blast
    have len: "length got < announced W inp \<longleftrightarrow> \<not> announced W inp \<le> length (drop 8 inp)" by (auto simp: got)
    define tl where "tl = take (buf_size bu' - length got) (rest @ junk)"
    have le: "length got \<le> buf_size bu'"
      using False unfolding r(2) by (auto simp: got z announced_def Let_def split: if_splits)
    have all: "Buffer_all junk bu' = got @ tl" "buf_size bu' \<le> length junk \<longrightarrow> length (got @ tl) = buf_size bu'"
      unfolding Buffer_all_def tl_def r(3) using le by auto
    show ?thesis
    proof (cases "announced W inp \<le> length (drop 8 inp)")
      case True
      let ?i = "(ti_upd_client (\<lambda>cd. cd\<lparr>cd_response := parse_ClientResponse W (got @ tl)\<rparr>) i)\<lparr>ti_buffer := bu', ti_error_code := False\<rparr>"
      have "ti_invoke W junk peer i = (Inr False, ?i)" using s(1) p(1) r(1) True all(1) by (simp add: ti_invoke_def)
      then show ?thesis using False len True r(2) all(2) by (auto simp: ti_upd_client_def intro!: exI [of _ tl])
    next
      case cut: False
      then show ?thesis using False len s(1) p(1) r(1) by (simp add: ti_invoke_def exchange_failed_def)
    qed
  qed
  have none: "exchange_failed i (ti_invoke W junk peer i)" if "peer (frame W 0 rq) = None"
    using s that by (simp add: ti_invoke_def exchange_failed_def)
  show ?thesis
    by (intro conjI allI impI; (elim conjE)?; (erule none | erule (1) short | (rule answer; assumption)))
qed

text \<open>A client with a request, and a peer that answers every message with the same response.\<close>

definition demo_client :: TcpInvoker where
  "demo_client = ti_upd_client (\<lambda>cd. cd\<lparr>cd_request := \<lparr>cr_service_ordinal = Some 1, cr_request_ordinal = Some 0,
     cr_request_string = Some ''node''\<rparr>\<rparr>) (projr (TcpInvoker_new True))"

theorem tcp_client_exchange_witness:
  "(\<exists>i' tail. ti_invoke demo_wire [] (\<lambda>_. Some (frame demo_wire 0 [1])) demo_client = (Inr False, i') \<and>
     cd_response (inv_client_data (ti_base i')) = parse_ClientResponse demo_wire ([1] @ tail)) \<and>
   fst (ti_invoke demo_wire [] (\<lambda>_. Some (le32 0 @ le32 0 @ replicate 200 1)) demo_client) = Inl UndefinedBehaviour"
proof -
  let ?rq = "ser_ClientRequest demo_wire (cd_request (inv_client_data (ti_base demo_client)))"
  have pre: "sendable ?rq" "8 \<le> buf_size (ti_buffer demo_client)" "max (buf_size (ti_buffer demo_client)) (8 + length ?rq) = 128"
    by (simp_all add: sendable_def demo_client_def demo_wire_def enc_string_def TcpInvoker_new_def Buffer_new_def
        RBL_RPC_CONF_INITIAL_BUFFER_SIZE_def)
  note ex = tcp_client_exchange [OF demo_wire_format refl pre(1,2) pre(3) [symmetric], where junk = "[]"]
  have "header_size demo_wire (take 8 (frame demo_wire 0 [1])) = 9" "drop 8 (frame demo_wire 0 [1]) = [1]" "length (frame demo_wire 0 [1]) = 9"
    using dw.frame_header(2) [of 0 "[1]"] dw.frame_split [of 0 "[1]"] by simp_all
  then have "\<exists>i' tail. ti_invoke demo_wire [] (\<lambda>_. Some (frame demo_wire 0 [1])) demo_client = (Inr False, i') \<and>
     cd_response (inv_client_data (ti_base i')) = parse_ClientResponse demo_wire ([1] @ tail)"
    using ex [of "\<lambda>_. Some (frame demo_wire 0 [1])"] by (auto simp: announced_def)
  moreover
  let ?inp = "le32 0 @ le32 0 @ replicate 200 1"
  have "header_size demo_wire (take 8 ?inp) = 0" "drop 8 ?inp = replicate 200 1" "length ?inp = 208"
    by (simp_all add: header_size_def le32_def demo_wire_def)
  then have "fst (ti_invoke demo_wire [] (\<lambda>_. Some ?inp) demo_client) = Inl UndefinedBehaviour"
    using ex [of "\<lambda>_. Some ?inp"] by (simp add: announced_def)
  ultimately show ?thesis by blast
qed

end
