(* ===== verification/Client_Stubs.thy ===== *)
theory Client_Stubs
  imports In_Process_Invoker Tcp_Invoker
begin

text \<open>
  The client's side: the classes the generator writes for calling a service
  (\<^verbatim>\<open>create_client_service\<close> of \<^verbatim>\<open>src/rpc/codegen/proto_rbl_rpc_generator.cc\<close>), their base class
  (\<^verbatim>\<open>include/rpc/client/ClientBase.h\<close>), and the factory that introduces a client to a server and
  makes its stubs (\<^verbatim>\<open>include/rpc/client/ClientServiceFactory.h\<close>).

  A stub calls through an \<open>InvokerBase &\<close>, whose virtual functions are the fields of \<open>InvokerOps\<close>
  on a state \<open>'s\<close>: the invoker together with what is behind it. A message that a stub
  sends is its encoding, and the type of the response appears as the function that reads it.
\<close>

section \<open>Invokers as the stubs see them\<close>

record 's InvokerOps =
  iv_is_useable :: "'s \<Rightarrow> bool"
  iv_reset :: "'s \<Rightarrow> (exn, unit, 's) sres"
  iv_invoke :: "'s \<Rightarrow> (exn, bool, 's) sres"
  iv_upd_request :: "(ClientRequest \<Rightarrow> ClientRequest) \<Rightarrow> 's \<Rightarrow> 's"
  iv_response :: "'s \<Rightarrow> ClientResponse"

text \<open>
  A whole call through an in-process invoker: the caller posts it and waits, a pool thread runs
  the handler, the notification lets the caller go on.
\<close>

definition ip_call :: "protobuf \<Rightarrow> cid \<Rightarrow> InProcessInvoker \<times> ('ix, 'st, 'ck, 'm) BackEnd
    \<Rightarrow> (exn, bool, InProcessInvoker \<times> ('ix, 'st, 'ck, 'm) BackEnd) sres" where
  "ip_call P x w =
     (case ip_invoke P x w of
        (Inl Blocked, (i, b)) \<Rightarrow>
          sbind (ip_operator P x (i, io_take x b))
            (\<lambda>_ (i, b). case ip_after_post False i of (r, i) \<Rightarrow> (r, (i, b)))
      | r \<Rightarrow> r)"

definition in_process_ops :: "protobuf \<Rightarrow> cid \<Rightarrow> (InProcessInvoker \<times> ('ix, 'st, 'ck, 'm) BackEnd) InvokerOps" where
  "in_process_ops P x =
     \<lparr>iv_is_useable = ip_is_useable,
      iv_reset = (\<lambda>(i, b). case ip_reset i of (r, i) \<Rightarrow> (r, (i, b))),
      iv_invoke = ip_call P x,
      iv_upd_request = (\<lambda>f (i, b). (upd_client (\<lambda>cd. cd\<lparr>cd_request := f (cd_request cd)\<rparr>) i, b)),
      iv_response = (\<lambda>(i, b). cd_response (inv_client_data (ip_base i)))\<rparr>"

definition tcp_ops :: "wire \<Rightarrow> byte list \<Rightarrow> (byte list \<Rightarrow> byte list option) \<Rightarrow> TcpInvoker InvokerOps" where
  "tcp_ops W junk peer =
     \<lparr>iv_is_useable = ti_is_useable, iv_reset = ti_reset, iv_invoke = ti_invoke W junk peer,
      iv_upd_request = (\<lambda>f. ti_upd_client (\<lambda>cd. cd\<lparr>cd_request := f (cd_request cd)\<rparr>)),
      iv_response = (\<lambda>i. cd_response (inv_client_data (ti_base i)))\<rparr>"

section \<open>ClientServiceBase\<close>

text \<open>
  The constructor does not initialise \<open>m_service_ordinal\<close>: it has no value before
  \<open>set_service_ordinal\<close>. The method count is converted from \<^verbatim>\<open>uint16_t\<close> to \<^verbatim>\<open>int16_t\<close>, which keeps its bits.
\<close>

record 'ix ClientServiceBase =
  m_service_ordinal :: "uint16 option"
  m_service_method_map :: "('ix, uint16) OidContainer"
  m_method_count :: "int16"
  m_is_subscribed :: bool

definition ClientServiceBase_new :: "'ix boost \<Rightarrow> uint16 \<Rightarrow> 'ix ClientServiceBase" where
  "ClientServiceBase_new L method_count =
     \<lparr>m_service_ordinal = None, m_service_method_map = OidContainer_empty L, m_method_count = method_count,
      m_is_subscribed = False\<rparr>"

definition csb_is_subscribed :: "'ix ClientServiceBase \<Rightarrow> bool" where
  "csb_is_subscribed c = m_is_subscribed c"

definition set_service_ordinal :: "uint16 \<Rightarrow> 'ix ClientServiceBase \<Rightarrow> 'ix ClientServiceBase" where
  "set_service_ordinal ordinal c = c\<lparr>m_service_ordinal := Some ordinal\<rparr>"

definition set_is_subscribed :: "bool \<Rightarrow> 'ix ClientServiceBase \<Rightarrow> 'ix ClientServiceBase" where
  "set_is_subscribed flag c = c\<lparr>m_is_subscribed := flag\<rparr>"

text \<open>The loop of \<open>remap_ordinals\<close>: each entry takes over the ordinal of its namesake.\<close>

fun remap_entries :: "('ix, uint16) OidContainer \<Rightarrow> nat list \<Rightarrow> ('ix, uint16) OidContainer
    \<Rightarrow> (exn, unit, ('ix, uint16) OidContainer) sres" where
  "remap_entries m_in [] m = (Inr (), m)"
| "remap_entries m_in (i # is) m =
     (case (EntryAtordinal m (of_nat i), EntryAtordinal m_in (of_nat i)) of
        (Some p, Some p_in) \<Rightarrow>
          (case name_eq (entry_name (entries m_in ! p_in)) (entry_name (entries m ! p)) of
             Inl e \<Rightarrow> (Inl e, m)
           | Inr False \<Rightarrow> (Inl AssertionFailed, m)
           | Inr True \<Rightarrow> remap_entries m_in is (store_entry p (ent_entry (entries m_in ! p_in)) m))
      | _ \<Rightarrow> (Inl AssertionFailed, m))"

definition remap_ordinals :: "('ix, uint16) OidContainer \<Rightarrow> 'ix ClientServiceBase
    \<Rightarrow> (exn, unit, 'ix ClientServiceBase) sres" where
  "remap_ordinals m_in c =
     (if OidContainer_size m_in \<noteq> OidContainer_size (m_service_method_map c) then (Inl AssertionFailed, c)
      else case remap_entries m_in [0..<OidContainer_size m_in] (m_service_method_map c) of
             (r, m) \<Rightarrow> (r, c\<lparr>m_service_method_map := m\<rparr>))"

section \<open>The generated client class\<close>

definition create_client_service :: "'ix boost \<Rightarrow> ServiceDescriptor \<Rightarrow> (exn, 'ix ClientServiceBase) res" where
  "create_client_service L sd =
     (let c = ClientServiceBase_new L (of_nat (length (sd_methods sd))) in
      case fill_table L 0 0 (map (\<lambda>m. (m, - 1)) (sd_methods sd)) (m_service_method_map c) of
        (Inl e, _) \<Rightarrow> Inl e
      | (Inr _, m) \<Rightarrow> Inr (c\<lparr>m_service_method_map := m\<rparr>))"

fun response_error_value :: "ClientResponseErrorType \<Rightarrow> int" where
  "response_error_value REQUEST_SUCCESS = 0"
| "response_error_value REQUEST_BACKEND_NOT_ACCEPTING_REQUESTS = 1"
| "response_error_value REQUEST_CLIENT_NOT_ESTABLISHED = 2"
| "response_error_value REQUEST_NO_SERVICE_WITH_ORDINAL = 3"
| "response_error_value REQUEST_NO_FUNCTION_WITH_ORDINAL = 4"
| "response_error_value REQUEST_NOT_SUBSCRIBED = 5"
| "response_error_value REQUEST_STRING_PARSE_ERROR = 6"
| "response_error_value REQUEST_STRING_SERIALIZE_ERROR = 7"

definition RBL_INVOKER_EXCEPTION :: "ClientResponseErrorType \<Rightarrow> exn" where
  "RBL_INVOKER_EXCEPTION e = InvokerException (Some \<lparr>ec_value = response_error_value e, ec_category = invoker_error\<rparr>)"

text \<open>What a generated method does after it has sent its request.\<close>

definition stub_result :: "'s InvokerOps \<Rightarrow> (string \<Rightarrow> 'r) \<Rightarrow> 's \<Rightarrow> (exn, 'r, 's) sres" where
  "stub_result V read s =
     (let res = iv_response V s in
      if response_error res \<noteq> REQUEST_SUCCESS then (Inl (RBL_INVOKER_EXCEPTION (response_error res)), s)
      else (Inr (read (response_string res)), s))"

text \<open>
  A generated method: \<open>method_id\<close> is its position in the descriptor, \<open>req\<close> its encoded argument. An
  entry that is missing is a null pointer.
\<close>

definition stub_call :: "'s InvokerOps \<Rightarrow> 'ix ClientServiceBase \<Rightarrow> uint16 \<Rightarrow> string \<Rightarrow> (string \<Rightarrow> 'r)
    \<Rightarrow> 's \<Rightarrow> (exn, 'r, 's) sres" where
  "stub_call V c method_id req read s =
     sbind (iv_reset V s) (\<lambda>_ s.
       case (m_service_ordinal c, at_ordinal (m_service_method_map c) method_id) of
         (Some so, Some ro) \<Rightarrow>
           sbind (iv_invoke V (iv_upd_request V (\<lambda>r. r\<lparr>cr_service_ordinal := Some (ucast so),
               cr_request_ordinal := Some (ucast ro), cr_request_string := Some req\<rparr>) s))
             (\<lambda>_. stub_result V read)
       | _ \<Rightarrow> (Inl UndefinedBehaviour, s))"

text \<open>The methods of \<open>basic_protocol_client\<close>.\<close>

definition bpc_hello :: "protobuf \<Rightarrow> 's InvokerOps \<Rightarrow> 'ix ClientServiceBase \<Rightarrow> HelloRequest \<Rightarrow> 's \<Rightarrow> (exn, HelloResponse, 's) sres" where
  "bpc_hello P V c req = stub_call V c 0 (ser_HelloRequest P req) (read_HelloResponse P)"

definition bpc_list_services :: "protobuf \<Rightarrow> 's InvokerOps \<Rightarrow> 'ix ClientServiceBase \<Rightarrow> unit \<Rightarrow> 's \<Rightarrow> (exn, ListServicesResponse, 's) sres" where
  "bpc_list_services P V c req = stub_call V c 1 (ser_ListServicesRequest P req) (read_ListServicesResponse P)"

definition bpc_rpc_subscribe_service :: "protobuf \<Rightarrow> 's InvokerOps \<Rightarrow> 'ix ClientServiceBase \<Rightarrow> SubscribeServiceRequest
    \<Rightarrow> 's \<Rightarrow> (exn, SubscribeServiceResponse, 's) sres" where
  "bpc_rpc_subscribe_service P V c req = stub_call V c 2 (ser_SubscribeServiceRequest P req) (read_SubscribeServiceResponse P)"

definition bpc_rpc_unsubscribe_service :: "protobuf \<Rightarrow> 's InvokerOps \<Rightarrow> 'ix ClientServiceBase \<Rightarrow> UnsubscribeServiceRequest
    \<Rightarrow> 's \<Rightarrow> (exn, UnsubscribeServiceResponse, 's) sres" where
  "bpc_rpc_unsubscribe_service P V c req =
     stub_call V c 3 (ser_UnsubscribeServiceRequest P req) (read_UnsubscribeServiceResponse P)"

definition bpc_list_methods :: "protobuf \<Rightarrow> 's InvokerOps \<Rightarrow> 'ix ClientServiceBase \<Rightarrow> ListMethodsRequest
    \<Rightarrow> 's \<Rightarrow> (exn, ListMethodsResponse, 's) sres" where
  "bpc_list_methods P V c req = stub_call V c 4 (ser_ListMethodsRequest P req) (read_ListMethodsResponse P)"

section \<open>ServiceClientFactory\<close>

text \<open>
  The static map \<open>m_method_map\<close>, by which the stub of the basic protocol knows its ordinals
  without asking the server for them.
\<close>

definition BASIC_PROTOCOL_HELLO_ORDINAL :: uint16 where
  "BASIC_PROTOCOL_HELLO_ORDINAL = 0"

definition BASIC_PROTOCOL_LIST_SERVICES_ORDINAL :: uint16 where
  "BASIC_PROTOCOL_LIST_SERVICES_ORDINAL = 1"

definition BASIC_PROTOCOL_RPC_SUBSCRIBE_ORDINAL :: uint16 where
  "BASIC_PROTOCOL_RPC_SUBSCRIBE_ORDINAL = 2"

definition BASIC_PROTOCOL_RPC_UBSUBSCRIBE_ORDINAL :: uint16 where
  "BASIC_PROTOCOL_RPC_UBSUBSCRIBE_ORDINAL = 3"

definition BASIC_PROTOCOL_LIST_METHODS_ORDINAL :: uint16 where
  "BASIC_PROTOCOL_LIST_METHODS_ORDINAL = 4"

definition BasicProtocolMethodMap :: "'ix boost \<Rightarrow> (exn, unit, ('ix, uint16) OidContainer) sres" where
  "BasicProtocolMethodMap L =
     fill_table L 0 0
       [(''hello'', BASIC_PROTOCOL_HELLO_ORDINAL),
        (''list_services'', BASIC_PROTOCOL_LIST_SERVICES_ORDINAL),
        (''rpc_subscribe_service'', BASIC_PROTOCOL_RPC_SUBSCRIBE_ORDINAL),
        (''rpc_unsubscribe_service'', BASIC_PROTOCOL_RPC_UBSUBSCRIBE_ORDINAL),
        (''list_methods'', BASIC_PROTOCOL_LIST_METHODS_ORDINAL)]
       (OidContainer_empty L)"

text \<open>
  A shared pointer to a stub is an entry of \<open>m_services\<close> or, outside the factory, the
  position of that entry: once set, the pointer of an entry is never replaced.
\<close>

record 'ix ServiceClientFactory =
  m_factory_name :: string
  m_bpc :: "'ix ClientServiceBase"
  m_client_services :: "('ix, 'ix ClientServiceBase option) OidContainer"

abbreviation bare_BackEndException :: exn where
  "bare_BackEndException \<equiv> BackEndException None None None"

text \<open>The loop that enters the listed services; the responses of \<open>SetEntry\<close> are dropped.\<close>

fun enter_services :: "'ix boost \<Rightarrow> ServiceEntry list \<Rightarrow> ('ix, 'ix ClientServiceBase option) OidContainer
    \<Rightarrow> (exn, unit, ('ix, 'ix ClientServiceBase option) OidContainer) sres" where
  "enter_services L [] c = (Inr (), c)"
| "enter_services L (e # es) c =
     (case Oid L (se_service_name e) (se_service_ordinal e) of
        Inl x \<Rightarrow> (Inl x, c)
      | Inr d \<Rightarrow> sbind (SetEntry_id L None d None c) (\<lambda>_ c. enter_services L es c))"

definition ServiceClientFactory_new :: "'ix boost \<Rightarrow> protobuf \<Rightarrow> 's InvokerOps \<Rightarrow> string
    \<Rightarrow> SourceConnectionType \<Rightarrow> DestinationConnectionType \<Rightarrow> 's \<Rightarrow> (exn, 'ix ServiceClientFactory, 's) sres" where
  "ServiceClientFactory_new L P V name source_type dest_type s =
     (case create_client_service L basic_protocol_descriptor of
        Inl e \<Rightarrow> (Inl e, s)
      | Inr bpc \<Rightarrow>
          if \<not> iv_is_useable V s then (Inl bare_BackEndException, s)
          else
            case sbind (BasicProtocolMethodMap L) (\<lambda>_ m. (Inr m, m)) of
              (Inl e, _) \<Rightarrow> (Inl e, s)
            | (Inr m, _) \<Rightarrow>
                (case remap_ordinals m (set_service_ordinal 0 bpc) of
                   (Inl e, _) \<Rightarrow> (Inl e, s)
                 | (Inr _, bpc) \<Rightarrow>
                     sbind (bpc_hello P V bpc
                         \<lparr>hq_source_type = source_type, hq_expected_target = dest_type, hq_node_name = name\<rparr> s)
                       (\<lambda>hres s.
                          if field_or NO_HELLO_ERRORS (hs_error_type hres) \<noteq> NO_HELLO_ERRORS
                          then (Inl bare_BackEndException, s)
                          else sbind (bpc_list_services P V bpc () s) (\<lambda>lres s.
                            case enter_services L (ls_services lres) (OidContainer_empty L) of
                              (Inl e, _) \<Rightarrow> (Inl e, s)
                            | (Inr _, c) \<Rightarrow>
                                (Inr \<lparr>m_factory_name = name, m_bpc = bpc, m_client_services = c\<rparr>, s)))))"

text \<open>\<open>EntryWithName\<close> with a \<open>std::string\<close>, which is converted to a name first.\<close>

definition entry_named :: "'ix boost \<Rightarrow> string \<Rightarrow> ('ix, 'e) OidContainer \<Rightarrow> (exn, nat option) res" where
  "entry_named L str c = ebind (OidConstrainedString_string L str) (EntryWithName L c)"

definition service_count :: "'ix ServiceClientFactory \<Rightarrow> uint16" where
  "service_count f = of_nat (OidContainer_size (m_client_services f))"

definition has_service_with_name :: "'ix boost \<Rightarrow> string \<Rightarrow> 'ix ServiceClientFactory \<Rightarrow> (exn, bool) res" where
  "has_service_with_name L str f =
     ebind (OidConstrainedString_string L str) (\<lambda>n.
       ebind (at_name L (m_client_services f) n) (\<lambda>tmp. Inr (tmp \<noteq> None)))"

definition get_service :: "'ix boost \<Rightarrow> string \<Rightarrow> 'ix ServiceClientFactory \<Rightarrow> (exn, nat) res" where
  "get_service L service_name f =
     ebind (entry_named L service_name (m_client_services f)) (\<lambda>e.
       case e of
         None \<Rightarrow> Inl bare_BackEndException
       | Some p \<Rightarrow>
           if ent_entry (entries (m_client_services f) ! p) = None then Inl bare_BackEndException else Inr p)"

text \<open>Entering the ordinals the server reports; a name the stub does not have is a null pointer.\<close>

fun map_methods :: "'ix boost \<Rightarrow> MethodEntry list \<Rightarrow> ('ix, uint16) OidContainer
    \<Rightarrow> (exn, unit, ('ix, uint16) OidContainer) sres" where
  "map_methods L [] m = (Inr (), m)"
| "map_methods L (me # mes) m =
     (case entry_named L (me_service_name me) m of
        Inl e \<Rightarrow> (Inl e, m)
      | Inr None \<Rightarrow> (Inl UndefinedBehaviour, m)
      | Inr (Some p) \<Rightarrow> map_methods L mes (store_entry p (ucast (me_service_ordinal me)) m))"

text \<open>\<open>*ordinal == -1\<close> compares the ordinal, promoted to \<open>int\<close>, with \<open>-1\<close>.\<close>

fun check_methods :: "nat list \<Rightarrow> ('ix, uint16) OidContainer \<Rightarrow> (exn, unit) res" where
  "check_methods [] m = Inr ()"
| "check_methods (i # is) m =
     (case at_ordinal m (of_nat i) of
        None \<Rightarrow> Inl UndefinedBehaviour
      | Some ordinal \<Rightarrow> if int (unat ordinal) = - 1 then Inl bare_BackEndException else check_methods is m)"

definition upd_stub :: "nat \<Rightarrow> ('ix ClientServiceBase \<Rightarrow> 'ix ClientServiceBase) \<Rightarrow> 'ix ServiceClientFactory \<Rightarrow> 'ix ServiceClientFactory" where
  "upd_stub p g f = f\<lparr>m_client_services :=
     store_entry p (map_option g (ent_entry (entries (m_client_services f) ! p))) (m_client_services f)\<rparr>"

text \<open>
  The second half of \<open>subscribe_service\<close>, from \<open>(*e).entry().reset(new RT(m_invoker))\<close> on. Whatever
  fails here leaves the new stub in the entry.
\<close>

definition populate_stub :: "'ix boost \<Rightarrow> protobuf \<Rightarrow> 's InvokerOps \<Rightarrow> nat \<Rightarrow> 'ix ClientServiceBase
    \<Rightarrow> 'ix ServiceClientFactory \<times> 's \<Rightarrow> (exn, nat, 'ix ServiceClientFactory \<times> 's) sres" where
  "populate_stub L P V p rt w =
     (case w of (f, s) \<Rightarrow>
        let ordinal = entry_ordinal (entries (m_client_services f) ! p);
            f = f\<lparr>m_client_services := store_entry p (Some rt) (m_client_services f)\<rparr>
        in case bpc_list_methods P V (m_bpc f) \<lparr>lq_service_ordinal = ucast ordinal\<rparr> s of
             (Inl e, s) \<Rightarrow> (Inl e, (f, s))
           | (Inr lm_res, s) \<Rightarrow>
               if field_or NO_LIST_METHOD_ERROR (lm_error lm_res) \<noteq> NO_LIST_METHOD_ERROR
               then (Inl bare_BackEndException, (f, s))
               else
                 (case map_methods L (lm_methods lm_res) (m_service_method_map rt) of
                    (Inl e, m) \<Rightarrow> (Inl e, (upd_stub p (\<lambda>c. c\<lparr>m_service_method_map := m\<rparr>) f, s))
                  | (Inr _, m) \<Rightarrow>
                      let f = upd_stub p (\<lambda>c. c\<lparr>m_service_method_map := m\<rparr>) f in
                      case check_methods [0..<OidContainer_size m] m of
                        Inl e \<Rightarrow> (Inl e, (f, s))
                      | Inr _ \<Rightarrow>
                          (Inr p, (upd_stub p (set_is_subscribed True \<circ> set_service_ordinal ordinal) f, s))))"

text \<open>
  \<open>subscribe_service<RT>\<close>: \<open>sd\<close> is the descriptor \<open>RT\<close> was generated from, \<open>req_data\<close> the encoded request data,
  and \<open>res_data\<close> says whether the caller passed an object for the response data. The value is the
  stub and the string that object was parsed from.
\<close>

definition subscribe_service :: "'ix boost \<Rightarrow> protobuf \<Rightarrow> 's InvokerOps \<Rightarrow> ServiceDescriptor \<Rightarrow> string
    \<Rightarrow> string option \<Rightarrow> bool \<Rightarrow> 'ix ServiceClientFactory \<times> 's
    \<Rightarrow> (exn, nat \<times> string option, 'ix ServiceClientFactory \<times> 's) sres" where
  "subscribe_service L P V sd service_name req_data res_data w =
     (case w of (f, s) \<Rightarrow>
        case entry_named L service_name (m_client_services f) of
          Inl e \<Rightarrow> (Inl e, (f, s))
        | Inr None \<Rightarrow> (Inl bare_BackEndException, (f, s))
        | Inr (Some p) \<Rightarrow>
            let entry = entries (m_client_services f) ! p in
            if ent_entry entry \<noteq> None then (Inl bare_BackEndException, (f, s))
            else if entry_ordinal entry \<ge> service_count f then (Inl bare_BackEndException, (f, s))
            else
              (case bpc_rpc_subscribe_service P V (m_bpc f)
                      \<lparr>sq_service_ordinal = ucast (entry_ordinal entry), sq_subscribe_request_string = req_data\<rparr> s of
                 (Inl e, s) \<Rightarrow> (Inl e, (f, s))
               | (Inr res, s) \<Rightarrow>
                   let result = field_or [] (ss_subscribe_result_string res) in
                   if field_or NO_SUBSCRIBE_SERVICE_ERROR (ss_error res) \<noteq> NO_SUBSCRIBE_SERVICE_ERROR
                   then (Inl bare_BackEndException, (f, s))
                   else if result \<noteq> [] \<and> \<not> res_data then (Inl bare_BackEndException, (f, s))
                   else
                     (case create_client_service L sd of
                        Inl e \<Rightarrow> (Inl e, (f, s))
                      | Inr rt \<Rightarrow>
                          sbind (populate_stub L P V p rt (f, s))
                            (\<lambda>p w. (Inr (p, if result \<noteq> [] then Some result else None), w)))))"

definition unsubscribe_service :: "'ix boost \<Rightarrow> protobuf \<Rightarrow> 's InvokerOps \<Rightarrow> string
    \<Rightarrow> 'ix ServiceClientFactory \<times> 's \<Rightarrow> (exn, unit, 'ix ServiceClientFactory \<times> 's) sres" where
  "unsubscribe_service L P V service_name w =
     (case w of (f, s) \<Rightarrow>
        case entry_named L service_name (m_client_services f) of
          Inl e \<Rightarrow> (Inl e, (f, s))
        | Inr None \<Rightarrow> (Inl bare_BackEndException, (f, s))
        | Inr (Some p) \<Rightarrow>
            let entry = entries (m_client_services f) ! p in
            if ent_entry entry = None then (Inl bare_BackEndException, (f, s))
            else
              (case bpc_rpc_unsubscribe_service P V (m_bpc f) \<lparr>uq_service_ordinal = ucast (entry_ordinal entry)\<rparr> s of
                 (Inl e, s) \<Rightarrow> (Inl e, (f, s))
               | (Inr res, s) \<Rightarrow>
                   if field_or NO_SUBSCRIBE_SERVICE_ERROR (us_error res) \<noteq> NO_SUBSCRIBE_SERVICE_ERROR
                   then (Inl bare_BackEndException, (f, s))
                   else (Inr (), (upd_stub p (set_is_subscribed False) f, s))))"

end
