(* ===== verification/Client_Tables.thy ===== *)
theory Client_Tables
  imports Client_Stubs Back_End_Config
begin

text \<open>
  The tables of the client: the method maps of the stubs and the services of the factory. Each
  holds one entry per name of a list, at the position the name has there; the operations that
  fill, search and overwrite them are described on that list.
\<close>

section \<open>Tables of named entries\<close>

definition names_ok :: "'ix boost \<Rightarrow> string list \<Rightarrow> bool" where
  "names_ok L ns \<longleftrightarrow>
     (\<forall>m \<in> set ns. valid_name m) \<and> distinct (map (to_lower L) ns) \<and> length ns \<le> 65536"

definition tabled :: "'ix boost \<Rightarrow> ('ix \<Rightarrow> nat set) \<Rightarrow> ((nat \<Rightarrow> OidName) \<Rightarrow> 'ix \<Rightarrow> bool) \<Rightarrow> string list
    \<Rightarrow> (nat \<Rightarrow> 'e) \<Rightarrow> ('ix, 'e) OidContainer \<Rightarrow> bool" where
  "tabled L elems ordered ns f c \<longleftrightarrow>
     dense (oid_inv elems ordered) oid_abs OidContainer_size (length ns) c \<and>
     (\<forall>i < length ns. oid_abs c i = Some (name_of L (ns ! i), f i))"

text \<open>Where a list has a name, in whatever case it is written.\<close>

definition position_of :: "'ix boost \<Rightarrow> string list \<Rightarrow> string \<Rightarrow> nat option" where
  "position_of L ns m = List.find (\<lambda>i. to_lower L (ns ! i) = to_lower L m) [0..<length ns]"

lemma position_of_Some:
  assumes "names_ok L ns"
  shows "position_of L ns m = Some i \<longleftrightarrow> i < length ns \<and> to_lower L (ns ! i) = to_lower L m"
proof -
  have uniq: "i = j" if "i < length ns" "j < length ns" "to_lower L (ns ! i) = to_lower L (ns ! j)" for i j
  proof -
    have "map (to_lower L) ns ! i = map (to_lower L) ns ! j" using that by simp
    then show ?thesis using that assms by (simp only: names_ok_def nth_eq_iff_index_eq length_map)
  qed
  show ?thesis
  proof
    assume "position_of L ns m = Some i"
    then show "i < length ns \<and> to_lower L (ns ! i) = to_lower L m"
      unfolding position_of_def find_Some_iff by auto
  next
    assume i: "i < length ns \<and> to_lower L (ns ! i) = to_lower L m"
    then have "List.find (\<lambda>i. to_lower L (ns ! i) = to_lower L m) [0..<length ns] \<noteq> None"
      unfolding find_None_iff by auto
    then obtain j where j: "List.find (\<lambda>i. to_lower L (ns ! i) = to_lower L m) [0..<length ns] = Some j" by blast
    then have "j < length ns \<and> to_lower L (ns ! j) = to_lower L m" unfolding find_Some_iff by auto
    then have "j = i" using uniq [of j i] i by simp
    with j show "position_of L ns m = Some i" by (simp add: position_of_def)
  qed
qed

lemma position_of_None:
  "position_of L ns m = None \<longleftrightarrow> (\<forall>i < length ns. to_lower L (ns ! i) \<noteq> to_lower L m)"
  unfolding position_of_def find_None_iff by auto

lemma position_of_nth: "names_ok L ns \<Longrightarrow> i < length ns \<Longrightarrow> position_of L ns (ns ! i) = Some i"
  by (simp add: position_of_Some)

lemma tabled_size: "tabled L elems ordered ns f c \<Longrightarrow> OidContainer_size c = length ns"
  by (simp add: tabled_def dense_def)

lemma tabled_cong:
  assumes "tabled L elems ordered ns f c" "\<And>i. i < length ns \<Longrightarrow> g i = f i"
  shows "tabled L elems ordered ns g c"
  using assms by (simp add: tabled_def)

lemma tabled_at_ordinal:
  assumes "tabled L elems ordered ns f c"
  shows "at_ordinal c k = (if unat k < length ns then Some (f (unat k)) else None)"
proof (cases "unat k < length ns")
  case True
  then show ?thesis using assms by (simp add: tabled_def at_ordinal_abs)
next
  case False
  then have "unat k \<notin> dom (oid_abs c)" using assms unfolding tabled_def dense_def by simp
  then have "oid_abs c (unat k) = None" by blast
  with False show ?thesis by (simp add: at_ordinal_abs)
qed

lemma tabled_EntryAtordinal:
  assumes "tabled L elems ordered ns f c" "i < length ns" "length ns \<le> 65536"
  shows "EntryAtordinal c (of_nat i) = Some i"
proof -
  have "unat (of_nat i :: uint32) = i" using assms by (simp add: unat_of_nat_uint32)
  moreover have "i \<in> dom (oid_abs c)" using assms unfolding tabled_def dense_def by simp
  ultimately show ?thesis by (simp add: EntryAtordinal_abs)
qed

context boost_library
begin

lemma tabled_entry:
  assumes "tabled L elems ordered ns f c" "i < length ns"
  shows "ent_entry (entries c ! i) = f i" "unat (entry_ordinal (entries c ! i)) = i"
    "entry_name (entries c ! i) = name_of L (ns ! i)"
proof -
  have inv: "oid_inv elems ordered c" and e: "oid_abs c i = Some (name_of L (ns ! i), f i)"
    using assms by (simp_all add: tabled_def dense_def)
  note occ = occupied_entry [OF inv e]
  show "ent_entry (entries c ! i) = f i" "unat (entry_ordinal (entries c ! i)) = i"
    "entry_name (entries c ! i) = name_of L (ns ! i)"
    using occ by simp_all
qed

lemma tabled_store:
  assumes "tabled L elems ordered ns f c" "i < length ns"
  shows "tabled L elems ordered ns (f(i := e)) (store_entry i e c)"
proof -
  have inv: "oid_inv elems ordered c" and a: "oid_abs c i = Some (name_of L (ns ! i), f i)"
    and d: "dom (oid_abs c) = {..<length ns}"
    using assms unfolding tabled_def dense_def by simp_all
  note st = store_entry_ok [OF inv a, of e]
  have "dom (oid_abs (store_entry i e c)) = {..<length ns}" unfolding st(2) using d assms(2) by auto
  with st assms show ?thesis by (auto simp: tabled_def dense_def)
qed

lemma fill_table_tabled:
  assumes "names_ok L (map fst ms)"
  obtains c where "fill_table L e0 0 ms (OidContainer_empty L) = (Inr (), c)"
    "tabled L elems ordered (map fst ms) (\<lambda>i. snd (ms ! i)) c"
proof -
  have "\<forall>m \<in> set ms. valid_name (fst m)" "distinct (map (to_lower L \<circ> fst) ms)" "length ms \<le> 65536"
    using assms by (simp_all add: names_ok_def)
  then obtain c where "fill_table L e0 0 ms (OidContainer_empty L) = (Inr (), c)"
    "dense (oid_inv elems ordered) oid_abs OidContainer_size (length ms) c"
    "\<And>i. i < length ms \<Longrightarrow> oid_abs c i = Some (name_of L (fst (ms ! i)), snd (ms ! i))"
    by (rule fill_table_dense [where ?e0.0 = e0]) blast
  then show ?thesis by (intro that [of c]) (simp_all add: tabled_def)
qed

lemma entry_named_tabled:
  assumes "tabled L elems ordered ns f c" "names_ok L ns" "valid_name m"
  shows "entry_named L m c = Inr (position_of L ns m)"
proof -
  have inv: "oid_inv elems ordered c" and dom: "dom (oid_abs c) = {..<length ns}"
    and abs: "\<And>i. i < length ns \<Longrightarrow> oid_abs c i = Some (name_of L (ns ! i), f i)"
    using assms unfolding tabled_def dense_def by simp_all
  obtain r where r: "EntryWithName L c (name_of L m) = Inr r"
    "\<And>j. r = Some j \<longleftrightarrow> (\<exists>e. oid_abs c j = Some (name_of L m, e))"
    by (rule EntryWithName_ok [OF inv good_name_of [OF assms(3)]]) blast
  have "r = Some j \<longleftrightarrow> position_of L ns m = Some j" for j
  proof (cases "j < length ns")
    case True
    then have "valid_name (ns ! j)" using assms(2) by (simp add: names_ok_def)
    with True show ?thesis
      by (simp add: r(2) abs position_of_Some [OF assms(2)] name_of_eq_iff assms(3))
  next
    case False
    then have "j \<notin> dom (oid_abs c)" unfolding dom by simp
    then have "oid_abs c j = None" by blast
    with False show ?thesis by (simp add: r(2) position_of_Some [OF assms(2)])
  qed
  then have "r = position_of L ns m" by (metis not_Some_eq)
  with r(1) show ?thesis
    by (simp add: entry_named_def OidConstrainedString_string_def construct_str_valid [OF assms(3)])
qed

end

section \<open>The tables of the stubs\<close>

abbreviation bp_names :: "string list" where
  "bp_names \<equiv> sd_methods basic_protocol_descriptor"

context boost_library
begin

lemma bp_names_ok: "names_ok L bp_names"
proof -
  have fix_low: "to_lower L m = m" if "m \<in> set bp_names" for m
  proof (rule to_lower_fix)
    show "set m \<subseteq> set lower_case" using that by (auto simp: basic_protocol_descriptor_def lower_case_def)
  qed
  have "map (to_lower L) bp_names = bp_names" by (rule map_idI) (rule fix_low)
  moreover have "distinct bp_names" "length bp_names \<le> 65536" "\<forall>m \<in> set bp_names. valid_name m"
    by (simp_all add: basic_protocol_descriptor_def valid_name_code)
  ultimately show ?thesis by (simp only: names_ok_def)
qed

lemma create_client_service_ok:
  assumes "names_ok L (sd_methods sd)"
  obtains c where "create_client_service L sd = Inr c" "m_service_ordinal c = None" "\<not> m_is_subscribed c"
    "tabled L elems ordered (sd_methods sd) (\<lambda>_. - 1) (m_service_method_map c)"
proof -
  let ?ms = "map (\<lambda>m. (m, - 1 :: uint16)) (sd_methods sd)"
  have fst_ms: "map fst ?ms = sd_methods sd" by (simp add: o_def)
  have "names_ok L (map fst ?ms)" unfolding fst_ms by (rule assms)
  then obtain m where m: "fill_table L 0 0 ?ms (OidContainer_empty L) = (Inr (), m)"
    "tabled L elems ordered (map fst ?ms) (\<lambda>i. snd (?ms ! i)) m"
    by (rule fill_table_tabled)
  let ?c = "(ClientServiceBase_new L (of_nat (length (sd_methods sd))))\<lparr>m_service_method_map := m\<rparr>"
  have "tabled L elems ordered (sd_methods sd) (\<lambda>_. - 1) m"
    by (rule tabled_cong [OF m(2) [unfolded fst_ms]]) simp
  then show ?thesis
    by (intro that [of ?c]) (simp_all add: create_client_service_def ClientServiceBase_new_def m(1))
qed

lemma BasicProtocolMethodMap_ok:
  obtains m where "BasicProtocolMethodMap L = (Inr (), m)" "tabled L elems ordered bp_names of_nat m"
proof -
  let ?ms = "[(''hello'', BASIC_PROTOCOL_HELLO_ORDINAL), (''list_services'', BASIC_PROTOCOL_LIST_SERVICES_ORDINAL),
      (''rpc_subscribe_service'', BASIC_PROTOCOL_RPC_SUBSCRIBE_ORDINAL),
      (''rpc_unsubscribe_service'', BASIC_PROTOCOL_RPC_UBSUBSCRIBE_ORDINAL),
      (''list_methods'', BASIC_PROTOCOL_LIST_METHODS_ORDINAL)]"
  have fst_ms: "map fst ?ms = bp_names" by (simp add: basic_protocol_descriptor_def)
  have "names_ok L (map fst ?ms)" unfolding fst_ms by (rule bp_names_ok)
  then obtain m where m: "fill_table L 0 0 ?ms (OidContainer_empty L) = (Inr (), m)"
    "tabled L elems ordered (map fst ?ms) (\<lambda>i. snd (?ms ! i)) m"
    by (rule fill_table_tabled)
  have "of_nat i = snd (?ms ! i)" if "i < length bp_names" for i
  proof -
    from that have "i < 5" by (simp add: basic_protocol_descriptor_def)
    then consider "i = 0" | "i = 1" | "i = 2" | "i = 3" | "i = 4" by linarith
    then show ?thesis
      by cases (simp_all add: BASIC_PROTOCOL_HELLO_ORDINAL_def BASIC_PROTOCOL_LIST_SERVICES_ORDINAL_def
          BASIC_PROTOCOL_RPC_SUBSCRIBE_ORDINAL_def BASIC_PROTOCOL_RPC_UBSUBSCRIBE_ORDINAL_def
          BASIC_PROTOCOL_LIST_METHODS_ORDINAL_def)
  qed
  then have "tabled L elems ordered bp_names of_nat m"
    by (rule tabled_cong [OF m(2) [unfolded fst_ms]])
  then show ?thesis by (intro that [of m]) (simp_all only: BasicProtocolMethodMap_def m(1))
qed

text \<open>Remapping: an entry takes over the ordinal of the entry at the same position.\<close>

lemma remap_entries_ok:
  assumes "names_ok L ns" "tabled L elems ordered ns g m_in" "tabled L elems ordered ns f m" "set is \<subseteq> {..<length ns}"
  obtains m' where "remap_entries m_in is m = (Inr (), m')"
    "tabled L elems ordered ns (\<lambda>i. if i \<in> set is then g i else f i) m'"
  using assms(3,4)
proof (induction "is" arbitrary: m f thesis)
  case Nil
  then show ?case by simp
next
  case (Cons i js)
  then have i: "i < length ns" "set js \<subseteq> {..<length ns}" by simp_all
  have len: "length ns \<le> 65536" and val: "valid_name (ns ! i)" using assms(1) i by (simp_all add: names_ok_def)
  note e = tabled_EntryAtordinal [OF Cons.prems(2) i(1) len] tabled_EntryAtordinal [OF assms(2) i(1) len]
    tabled_entry(3) [OF Cons.prems(2) i(1)] tabled_entry(1,3) [OF assms(2) i(1)]
  have t: "tabled L elems ordered ns (f(i := g i)) (store_entry i (g i) m)"
    by (rule tabled_store [OF Cons.prems(2) i(1)])
  obtain m' where m': "remap_entries m_in js (store_entry i (g i) m) = (Inr (), m')"
    "tabled L elems ordered ns (\<lambda>j. if j \<in> set js then g j else (f(i := g i)) j) m'"
    by (rule Cons.IH [OF _ t i(2)])
  have "remap_entries m_in (i # js) m = (Inr (), m')"
    using e m'(1) good_name_of [OF val] by (simp add: name_eq_good)
  moreover have "tabled L elems ordered ns (\<lambda>j. if j \<in> set (i # js) then g j else f j) m'"
    by (rule tabled_cong [OF m'(2)]) simp
  ultimately show ?case by (rule Cons.prems(1))
qed

lemma remap_ordinals_ok:
  assumes "names_ok L ns" "tabled L elems ordered ns g m_in" "tabled L elems ordered ns f (m_service_method_map c)"
  obtains m where "remap_ordinals m_in c = (Inr (), c\<lparr>m_service_method_map := m\<rparr>)" "tabled L elems ordered ns g m"
proof -
  have "set [0..<length ns] \<subseteq> {..<length ns}" by auto
  then obtain m where m: "remap_entries m_in [0..<length ns] (m_service_method_map c) = (Inr (), m)"
    "tabled L elems ordered ns (\<lambda>i. if i \<in> set [0..<length ns] then g i else f i) m"
    by (rule remap_entries_ok [OF assms])
  have "tabled L elems ordered ns g m" by (rule tabled_cong [OF m(2)]) simp
  then show ?thesis
    using m(1) tabled_size [OF assms(2)] tabled_size [OF assms(3)]
    by (intro that [of m]) (simp_all add: remap_ordinals_def)
qed

end

section \<open>The listings of a server\<close>

definition service_listing :: "string list \<Rightarrow> ServiceEntry list" where
  "service_listing ns = map (\<lambda>i. \<lparr>se_service_ordinal = of_nat i, se_service_name = ns ! i\<rparr>) [0..<length ns]"

definition method_listing :: "string list \<Rightarrow> MethodEntry list" where
  "method_listing ns = map (\<lambda>i. \<lparr>me_service_ordinal = of_nat i, me_service_name = ns ! i\<rparr>) [0..<length ns]"

text \<open>The ordinals a stub for the methods \<open>ns\<close> has after it was given the listing of \<open>ns'\<close>.\<close>

definition mapped_ordinal :: "'ix boost \<Rightarrow> string list \<Rightarrow> string list \<Rightarrow> nat \<Rightarrow> uint16" where
  "mapped_ordinal L ns' ns i = (case position_of L ns' (ns ! i) of None \<Rightarrow> - 1 | Some j \<Rightarrow> of_nat j)"

lemma ucast_of_nat_ordinal: "i < 65536 \<Longrightarrow> ucast (of_nat i :: uint32) = (of_nat i :: uint16)"
  by (simp add: word_unat_eq_iff unat_ucast_32_16 unat_of_nat_uint32)

lemma check_methods_ok:
  assumes "tabled L elems ordered ns f m" "set is \<subseteq> {..<length ns}" "length ns \<le> 65536"
  shows "check_methods is m = Inr ()"
proof -
  have "uint w \<noteq> - 1" for w :: uint16 using uint_ge_0 [of w] by linarith
  with assms(2) show ?thesis by (induction "is") (use assms(1,3) in \<open>simp_all add: tabled_at_ordinal\<close>)
qed

context boost_library
begin

lemma enter_services_fill:
  assumes "j + length ns \<le> 65536"
  shows "enter_services L (map (\<lambda>i. \<lparr>se_service_ordinal = of_nat (j + i), se_service_name = ns ! i\<rparr>) [0..<length ns]) c =
    fill_table L None j (map (\<lambda>n. (n, None)) ns) c"
  using assms
proof (induction ns arbitrary: j c)
  case (Cons n ns)
  have split: "map (\<lambda>i. \<lparr>se_service_ordinal = of_nat (j + i), se_service_name = (n # ns) ! i\<rparr>) [0..<length (n # ns)] =
      \<lparr>se_service_ordinal = of_nat j, se_service_name = n\<rparr> #
      map (\<lambda>i. \<lparr>se_service_ordinal = of_nat (Suc j + i), se_service_name = ns ! i\<rparr>) [0..<length ns]"
    by (simp add: upt_conv_Cons map_Suc_upt [symmetric] del: upt_Suc)
  have "enter_services L (map (\<lambda>i. \<lparr>se_service_ordinal = of_nat (Suc j + i), se_service_name = ns ! i\<rparr>) [0..<length ns]) =
      fill_table L None (Suc j) (map (\<lambda>n. (n, None)) ns)"
    by (rule ext) (rule Cons.IH, use Cons.prems in simp)
  then show ?case unfolding split by (simp only: enter_services.simps fill_table.simps list.map
        ServiceEntry.select_convs)
qed simp

lemma enter_services_ok:
  assumes "names_ok L ns"
  obtains c where "enter_services L (service_listing ns) (OidContainer_empty L) = (Inr (), c)"
    "tabled L elems ordered ns (\<lambda>_. None) c"
proof -
  let ?ms = "map (\<lambda>n. (n, None :: 'ix ClientServiceBase option)) ns"
  have fst_ms: "map fst ?ms = ns" by (simp add: o_def)
  have "names_ok L (map fst ?ms)" unfolding fst_ms by (rule assms)
  then obtain c where c: "fill_table L None 0 ?ms (OidContainer_empty L) = (Inr (), c)"
    "tabled L elems ordered (map fst ?ms) (\<lambda>i. snd (?ms ! i)) c"
    by (rule fill_table_tabled)
  have t: "tabled L elems ordered ns (\<lambda>_. None) c"
    by (rule tabled_cong [OF c(2) [unfolded fst_ms]]) simp
  have "length ns \<le> 65536" using assms by (simp add: names_ok_def)
  then have "enter_services L (service_listing ns) (OidContainer_empty L) = (Inr (), c)"
    using enter_services_fill [of 0 ns] c(1) by (simp add: service_listing_def)
  then show ?thesis using t by (rule that)
qed

lemma map_methods_step:
  assumes "names_ok L ns" "names_ok L ns'" "tabled L elems ordered ns f m" "set js \<subseteq> {..<length ns'}"
    "\<forall>j < length ns'. position_of L ns (ns' ! j) \<noteq> None"
  obtains m' where "map_methods L (map (\<lambda>i. \<lparr>me_service_ordinal = of_nat i, me_service_name = ns' ! i\<rparr>) js) m = (Inr (), m')"
    "tabled L elems ordered ns
       (\<lambda>i. case position_of L ns' (ns ! i) of None \<Rightarrow> f i | Some j \<Rightarrow> if j \<in> set js then of_nat j else f i) m'"
  using assms(3,4)
proof (induction js arbitrary: m f thesis)
  case Nil
  have "tabled L elems ordered ns (\<lambda>i. case position_of L ns' (ns ! i) of None \<Rightarrow> f i | Some j \<Rightarrow> if j \<in> set [] then of_nat j else f i) m"
    by (rule tabled_cong [OF Nil(2)]) (simp split: option.split)
  then show ?case by (intro Nil(1)) simp_all
next
  case (Cons j js)
  then have j: "j < length ns'" "set js \<subseteq> {..<length ns'}" by simp_all
  obtain p where p: "position_of L ns (ns' ! j) = Some p" using assms(5) j(1) by blast
  then have pl: "p < length ns" "to_lower L (ns ! p) = to_lower L (ns' ! j)"
    using position_of_Some [OF assms(1)] by blast+
  have val: "valid_name (ns' ! j)" "j < 65536" using assms(2) j(1) by (simp_all add: names_ok_def)
  have at_p: "position_of L ns' (ns ! i) = Some j \<longleftrightarrow> i = p" if "i < length ns" for i
    using p pl j(1) that position_of_Some [OF assms(1)] position_of_Some [OF assms(2)] by (metis option.inject)
  have t: "tabled L elems ordered ns (f(p := of_nat j)) (store_entry p (of_nat j) m)"
    by (rule tabled_store [OF Cons.prems(2) pl(1)])
  obtain m' where m': "map_methods L (map (\<lambda>i. \<lparr>me_service_ordinal = of_nat i, me_service_name = ns' ! i\<rparr>) js)
        (store_entry p (of_nat j) m) = (Inr (), m')"
    "tabled L elems ordered ns (\<lambda>i. case position_of L ns' (ns ! i) of None \<Rightarrow> (f(p := of_nat j)) i
       | Some k \<Rightarrow> if k \<in> set js then of_nat k else (f(p := of_nat j)) i) m'"
    by (rule Cons.IH [OF _ t j(2)])
  have "tabled L elems ordered ns (\<lambda>i. case position_of L ns' (ns ! i) of None \<Rightarrow> f i
       | Some k \<Rightarrow> if k \<in> set (j # js) then of_nat k else f i) m'"
    by (rule tabled_cong [OF m'(2)]) (use at_p in \<open>force split: option.split\<close>)
  moreover have "map_methods L (map (\<lambda>i. \<lparr>me_service_ordinal = of_nat i, me_service_name = ns' ! i\<rparr>) (j # js)) m = (Inr (), m')"
    using m'(1) p by (simp add: entry_named_tabled [OF Cons.prems(2) assms(1) val(1)] ucast_of_nat_ordinal [OF val(2)])
  ultimately show ?case by (intro Cons.prems(1))
qed

lemma map_methods_ok:
  assumes "names_ok L ns" "names_ok L ns'" "tabled L elems ordered ns (\<lambda>_. - 1) m"
    "\<forall>j < length ns'. position_of L ns (ns' ! j) \<noteq> None"
  obtains m' where "map_methods L (method_listing ns') m = (Inr (), m')"
    "tabled L elems ordered ns (mapped_ordinal L ns' ns) m'"
proof -
  have "set [0..<length ns'] \<subseteq> {..<length ns'}" by auto
  then obtain m' where m': "map_methods L (method_listing ns') m = (Inr (), m')"
    "tabled L elems ordered ns
       (\<lambda>i. case position_of L ns' (ns ! i) of None \<Rightarrow> - 1 | Some j \<Rightarrow> if j \<in> set [0..<length ns'] then of_nat j else - 1) m'"
    unfolding method_listing_def by (rule map_methods_step [OF assms(1-3) _ assms(4)])
  have "tabled L elems ordered ns (mapped_ordinal L ns' ns) m'"
  proof (rule tabled_cong [OF m'(2)])
    show "mapped_ordinal L ns' ns i =
        (case position_of L ns' (ns ! i) of None \<Rightarrow> - 1 | Some j \<Rightarrow> if j \<in> set [0..<length ns'] then of_nat j else - 1)" for i
      using position_of_Some [OF assms(2), of "ns ! i"]
      by (cases "position_of L ns' (ns ! i)") (auto simp: mapped_ordinal_def)
  qed
  with m'(1) show ?thesis by (rule that)
qed

text \<open>A method of the server that the stub does not know makes the loop follow a null pointer.\<close>

lemma map_methods_unknown:
  assumes "names_ok L ns" "names_ok L ns'" "tabled L elems ordered ns f m" "set js \<subseteq> {..<length ns'}"
    "\<exists>j \<in> set js. position_of L ns (ns' ! j) = None"
  shows "\<exists>m'. map_methods L (map (\<lambda>i. \<lparr>me_service_ordinal = of_nat i, me_service_name = ns' ! i\<rparr>) js) m = (Inl UndefinedBehaviour, m')"
  using assms(3-5)
proof (induction js arbitrary: m f)
  case (Cons j js)
  then have val: "valid_name (ns' ! j)" using assms(2) by (simp add: names_ok_def)
  show ?case
  proof (cases "position_of L ns (ns' ! j)")
    case None
    then show ?thesis by (simp add: entry_named_tabled [OF Cons.prems(1) assms(1) val])
  next
    case (Some p)
    then have "p < length ns" using position_of_Some [OF assms(1)] by blast
    then show ?thesis
      using Cons.IH [OF tabled_store [OF Cons.prems(1)], of p "ucast (of_nat j :: uint32)"] Cons.prems(2,3) Some
      by (simp add: entry_named_tabled [OF Cons.prems(1) assms(1) val])
  qed
qed simp

end

end
