(* ===== verification/Client_Contract.thy ===== *)
theory Client_Contract
  imports Client_Tables
begin

text \<open>
  What the factory relies on: a server that answers the five methods of the basic protocol. The
  contract is the locale \<open>basic_server\<close>, over whatever invoker leads to the server; what the factory
  makes of the answers is proved from it.
\<close>

section \<open>The server as its clients see it\<close>

text \<open>\<open>sv_code\<close> stands for what the server's services do; it never changes.\<close>

record 'v server_view =
  sv_services :: "string list"
  sv_methods :: "nat \<Rightarrow> string list"
  sv_subscribed :: "nat set"
  sv_established :: bool
  sv_source :: SourceConnectionType
  sv_target :: DestinationConnectionType
  sv_code :: 'v

definition hello_answer :: "'v server_view \<Rightarrow> HelloRequest \<Rightarrow> HelloErrorType" where
  "hello_answer v hr =
     (if sv_target v \<noteq> hq_expected_target hr then DESTINATION_EXPECTATION_MISMATCH
      else if sv_source v \<noteq> hq_source_type hr then SOURCE_EXPECTATION_MISMATCH
      else NO_HELLO_ERRORS)"

text \<open>A call of a generated method whose ordinals are known.\<close>

definition remote_call :: "'s InvokerOps \<Rightarrow> uint32 \<Rightarrow> uint32 \<Rightarrow> string \<Rightarrow> (string \<Rightarrow> 'r) \<Rightarrow> 's \<Rightarrow> (exn, 'r, 's) sres" where
  "remote_call V so ro req read s =
     sbind (iv_reset V s) (\<lambda>_ s.
       sbind (iv_invoke V (iv_upd_request V (\<lambda>r. r\<lparr>cr_service_ordinal := Some so,
           cr_request_ordinal := Some ro, cr_request_string := Some req\<rparr>) s))
         (\<lambda>_. stub_result V read))"

lemma stub_call_remote:
  assumes "m_service_ordinal c = Some so" "at_ordinal (m_service_method_map c) k = Some ro"
  shows "stub_call V c k req read s = remote_call V (ucast so) (ucast ro) req read s"
  using assms by (simp add: stub_call_def remote_call_def)

lemma stub_call_undefined:
  assumes "m_service_ordinal c = None \<or> at_ordinal (m_service_method_map c) k = None" "iv_reset V s = (Inr (), s')"
  shows "stub_call V c k req read s = (Inl UndefinedBehaviour, s')"
  using assms by (auto simp: stub_call_def split: option.split)

section \<open>The contract\<close>

text \<open>
  \<open>welcomes k c\<close>: with the code \<open>c\<close>, service \<open>k\<close> takes any subscriber and has nothing to tell it; \<open>refuses k c\<close>: it takes none.
  The answer to a client that was not taken has its error unset.
\<close>

locale basic_server = boost_library L elems ordered
  for L :: "'ix boost" and elems :: "'ix \<Rightarrow> nat set" and ordered :: "(nat \<Rightarrow> OidName) \<Rightarrow> 'ix \<Rightarrow> bool" +
  fixes V :: "'s InvokerOps" and P :: protobuf and ok :: "'s \<Rightarrow> bool" and view :: "'s \<Rightarrow> 'v server_view"
    and welcomes refuses :: "nat \<Rightarrow> 'v \<Rightarrow> bool"
  assumes useable: "ok s \<Longrightarrow> iv_is_useable V s"
    and service_names: "ok s \<Longrightarrow> names_ok L (sv_services (view s))"
    and method_names: "ok s \<Longrightarrow> k < length (sv_services (view s)) \<Longrightarrow> names_ok L (sv_methods (view s) k)"
    and hello_law: "ok s \<Longrightarrow> \<not> sv_established (view s) \<Longrightarrow>
      \<exists>s'. remote_call V 0 0 (ser_HelloRequest P hr) (read_HelloResponse P) s =
          (Inr \<lparr>hs_error_type = Some (hello_answer (view s) hr)\<rparr>, s') \<and> ok s' \<and>
        view s' = (view s)\<lparr>sv_established := (hello_answer (view s) hr = NO_HELLO_ERRORS)\<rparr>"
    and services_law: "ok s \<Longrightarrow> sv_established (view s) \<Longrightarrow>
      \<exists>s'. remote_call V 0 1 (ser_ListServicesRequest P ()) (read_ListServicesResponse P) s =
          (Inr \<lparr>ls_services = service_listing (sv_services (view s))\<rparr>, s') \<and> ok s' \<and> view s' = view s"
    and subscribe_law: "ok s \<Longrightarrow> sv_established (view s) \<Longrightarrow> k < length (sv_services (view s)) \<Longrightarrow> k \<notin> sv_subscribed (view s) \<Longrightarrow>
      \<exists>s' taken r. ok s' \<and>
        remote_call V 0 2 (ser_SubscribeServiceRequest P \<lparr>sq_service_ordinal = of_nat k, sq_subscribe_request_string = q\<rparr>)
            (read_SubscribeServiceResponse P) s =
          (Inr \<lparr>ss_error = (if taken then Some NO_SUBSCRIBE_SERVICE_ERROR else None), ss_subscribe_result_string = Some r\<rparr>, s') \<and>
        view s' = (if taken then (view s)\<lparr>sv_subscribed := insert k (sv_subscribed (view s))\<rparr> else view s) \<and>
        (welcomes k (sv_code (view s)) \<longrightarrow> taken \<and> r = []) \<and> (refuses k (sv_code (view s)) \<longrightarrow> \<not> taken)"
    and subscribed_law: "ok s \<Longrightarrow> sv_established (view s) \<Longrightarrow> k < length (sv_services (view s)) \<Longrightarrow> k \<in> sv_subscribed (view s) \<Longrightarrow>
      \<exists>s'. remote_call V 0 2 (ser_SubscribeServiceRequest P \<lparr>sq_service_ordinal = of_nat k, sq_subscribe_request_string = q\<rparr>)
            (read_SubscribeServiceResponse P) s =
          (Inr \<lparr>ss_error = Some SERVICE_ALLREADY_SUBSCRIBED, ss_subscribe_result_string = None\<rparr>, s') \<and> ok s' \<and> view s' = view s"
    and unsubscribe_law: "ok s \<Longrightarrow> sv_established (view s) \<Longrightarrow> k < length (sv_services (view s)) \<Longrightarrow> k \<in> sv_subscribed (view s) \<Longrightarrow>
      \<exists>s'. remote_call V 0 3 (ser_UnsubscribeServiceRequest P \<lparr>uq_service_ordinal = of_nat k\<rparr>)
            (read_UnsubscribeServiceResponse P) s =
          (Inr \<lparr>us_error = Some NO_SUBSCRIBE_SERVICE_ERROR\<rparr>, s') \<and> ok s' \<and>
        view s' = (view s)\<lparr>sv_subscribed := sv_subscribed (view s) - {k}\<rparr>"
    and methods_law: "ok s \<Longrightarrow> sv_established (view s) \<Longrightarrow> k < length (sv_services (view s)) \<Longrightarrow>
      \<exists>s'. remote_call V 0 4 (ser_ListMethodsRequest P \<lparr>lq_service_ordinal = of_nat k\<rparr>) (read_ListMethodsResponse P) s =
          (Inr \<lparr>lm_error = Some NO_LIST_METHOD_ERROR, lm_methods = method_listing (sv_methods (view s) k)\<rparr>, s') \<and>
        ok s' \<and> view s' = view s"

section \<open>What the factory makes of it\<close>

text \<open>The stub of the basic protocol after the factory has set it up.\<close>

definition bpc_ready :: "'ix boost \<Rightarrow> ('ix \<Rightarrow> nat set) \<Rightarrow> ((nat \<Rightarrow> OidName) \<Rightarrow> 'ix \<Rightarrow> bool) \<Rightarrow> 'ix ClientServiceBase \<Rightarrow> bool" where
  "bpc_ready L elems ordered c \<longleftrightarrow>
     m_service_ordinal c = Some 0 \<and> tabled L elems ordered bp_names of_nat (m_service_method_map c)"

text \<open>The factory knows the services of the server and has the given stubs for them.\<close>

definition factory_ok :: "'ix boost \<Rightarrow> ('ix \<Rightarrow> nat set) \<Rightarrow> ((nat \<Rightarrow> OidName) \<Rightarrow> 'ix \<Rightarrow> bool) \<Rightarrow> 'v server_view
    \<Rightarrow> (nat \<Rightarrow> 'ix ClientServiceBase option) \<Rightarrow> 'ix ServiceClientFactory \<Rightarrow> bool" where
  "factory_ok L elems ordered v stubs f \<longleftrightarrow>
     bpc_ready L elems ordered (m_bpc f) \<and> tabled L elems ordered (sv_services v) stubs (m_client_services f)"

lemma bpc_call:
  assumes "bpc_ready L elems ordered c" "k < 5"
  shows "stub_call V c (of_nat k) req read s = remote_call V 0 (of_nat k) req read s"
proof -
  have k: "unat (of_nat k :: uint16) = k" using assms(2) by simp
  have "k < length bp_names" using assms(2) by (simp add: basic_protocol_descriptor_def)
  then have "at_ordinal (m_service_method_map c) (of_nat k) = Some (of_nat k)"
    using assms(1) tabled_at_ordinal [of L elems ordered bp_names of_nat "m_service_method_map c" "of_nat k"] k
    by (simp add: bpc_ready_def)
  moreover have "ucast (of_nat k :: uint16) = (of_nat k :: uint32)" using assms(2) by (simp add: of_nat_uint32_ucast)
  ultimately show ?thesis using assms(1) by (simp add: stub_call_remote bpc_ready_def)
qed

lemmas bpc_calls = bpc_call [where k = 0, simplified] bpc_call [where k = 1, simplified] bpc_call [where k = 2, simplified]
  bpc_call [where k = 3, simplified] bpc_call [where k = 4, simplified]

context boost_library
begin

lemma bpc_setup:
  obtains bpc m bpc' where "create_client_service L basic_protocol_descriptor = Inr bpc"
    "BasicProtocolMethodMap L = (Inr (), m)" "remap_ordinals m (set_service_ordinal 0 bpc) = (Inr (), bpc')"
    "bpc_ready L elems ordered bpc'"
proof -
  obtain bpc where bpc: "create_client_service L basic_protocol_descriptor = Inr bpc"
    "tabled L elems ordered bp_names (\<lambda>_. - 1) (m_service_method_map bpc)"
    by (rule create_client_service_ok [OF bp_names_ok])
  obtain m where m: "BasicProtocolMethodMap L = (Inr (), m)" "tabled L elems ordered bp_names of_nat m"
    by (rule BasicProtocolMethodMap_ok)
  have t: "tabled L elems ordered bp_names (\<lambda>_. - 1) (m_service_method_map (set_service_ordinal 0 bpc))"
    using bpc(2) by (simp add: set_service_ordinal_def)
  obtain m' where m': "remap_ordinals m (set_service_ordinal 0 bpc) =
      (Inr (), (set_service_ordinal 0 bpc)\<lparr>m_service_method_map := m'\<rparr>)" "tabled L elems ordered bp_names of_nat m'"
    by (rule remap_ordinals_ok [OF bp_names_ok m(2) t])
  show ?thesis
    by (rule that [OF bpc(1) m(1) m'(1)]) (use m'(2) in \<open>simp add: bpc_ready_def set_service_ordinal_def\<close>)
qed

end

context basic_server
begin

lemma factory_new:
  assumes "ok s" "\<not> sv_established (view s)"
    "hello_answer (view s) \<lparr>hq_source_type = src, hq_expected_target = dst, hq_node_name = name\<rparr> = NO_HELLO_ERRORS"
  obtains f s' where "ServiceClientFactory_new L P V name src dst s = (Inr f, s')" "ok s'"
    "view s' = (view s)\<lparr>sv_established := True\<rparr>" "factory_ok L elems ordered (view s') (\<lambda>_. None) f"
proof -
  let ?hr = "\<lparr>hq_source_type = src, hq_expected_target = dst, hq_node_name = name\<rparr>"
  obtain bpc m bpc' where set: "create_client_service L basic_protocol_descriptor = Inr bpc"
    "BasicProtocolMethodMap L = (Inr (), m)" "remap_ordinals m (set_service_ordinal 0 bpc) = (Inr (), bpc')"
    "bpc_ready L elems ordered bpc'"
    by (rule bpc_setup)
  obtain s1 where s1: "remote_call V 0 0 (ser_HelloRequest P ?hr) (read_HelloResponse P) s =
      (Inr \<lparr>hs_error_type = Some NO_HELLO_ERRORS\<rparr>, s1)" "ok s1" "view s1 = (view s)\<lparr>sv_established := True\<rparr>"
    using hello_law [OF assms(1,2), of ?hr] assms(3) by auto
  obtain s2 where s2: "remote_call V 0 1 (ser_ListServicesRequest P ()) (read_ListServicesResponse P) s1 =
      (Inr \<lparr>ls_services = service_listing (sv_services (view s))\<rparr>, s2)" "ok s2" "view s2 = view s1"
    using services_law [OF s1(2)] s1(3) by auto
  obtain c where c: "enter_services L (service_listing (sv_services (view s))) (OidContainer_empty L) = (Inr (), c)"
    "tabled L elems ordered (sv_services (view s)) (\<lambda>_. None) c"
    by (rule enter_services_ok [OF service_names [OF assms(1)]])
  have "ServiceClientFactory_new L P V name src dst s =
      (Inr \<lparr>m_factory_name = name, m_bpc = bpc', m_client_services = c\<rparr>, s2)"
    unfolding ServiceClientFactory_new_def bpc_hello_def bpc_list_services_def
    using set(1-3) s1(1) s2(1) c(1) useable [OF assms(1)] by (simp add: bpc_calls [OF set(4)])
  then show ?thesis
    by (rule that [OF _ s2(2)]) (use s1(3) s2(3) set(4) c(2) in \<open>simp_all add: factory_ok_def\<close>)
qed

lemma factory_refused:
  assumes "ok s" "\<not> sv_established (view s)"
    "hello_answer (view s) \<lparr>hq_source_type = src, hq_expected_target = dst, hq_node_name = name\<rparr> \<noteq> NO_HELLO_ERRORS"
  obtains s' where "ServiceClientFactory_new L P V name src dst s = (Inl bare_BackEndException, s')" "ok s'" "view s' = view s"
proof -
  let ?hr = "\<lparr>hq_source_type = src, hq_expected_target = dst, hq_node_name = name\<rparr>"
  obtain bpc m bpc' where set: "create_client_service L basic_protocol_descriptor = Inr bpc"
    "BasicProtocolMethodMap L = (Inr (), m)" "remap_ordinals m (set_service_ordinal 0 bpc) = (Inr (), bpc')"
    "bpc_ready L elems ordered bpc'"
    by (rule bpc_setup)
  obtain s1 where s1: "remote_call V 0 0 (ser_HelloRequest P ?hr) (read_HelloResponse P) s =
      (Inr \<lparr>hs_error_type = Some (hello_answer (view s) ?hr)\<rparr>, s1)" "ok s1" "view s1 = (view s)\<lparr>sv_established := False\<rparr>"
    using hello_law [OF assms(1,2), of ?hr] assms(3) by auto
  have "(view s)\<lparr>sv_established := False\<rparr> = view s" using assms(2) by (cases "view s") simp
  then have "view s1 = view s" using s1(3) by simp
  moreover have "ServiceClientFactory_new L P V name src dst s = (Inl bare_BackEndException, s1)"
    unfolding ServiceClientFactory_new_def bpc_hello_def bpc_list_services_def
    using set(1-3) s1(1) useable [OF assms(1)] assms(3) by (simp add: bpc_calls [OF set(4)])
  ultimately show ?thesis using s1(2) by (intro that)
qed

end

text \<open>Looking up a service of the factory.\<close>

context boost_library
begin

lemma factory_lookup:
  assumes "factory_ok L elems ordered v stubs f" "names_ok L (sv_services v)" "valid_name nm"
    "position_of L (sv_services v) nm = Some k" "length (sv_services v) < 65536"
  shows "entry_named L nm (m_client_services f) = Inr (Some k)"
    "ent_entry (entries (m_client_services f) ! k) = stubs k"
    "entry_ordinal (entries (m_client_services f) ! k) = of_nat k" "\<not> of_nat k \<ge> service_count f"
    "k < length (sv_services v)" "ucast (of_nat k :: uint16) = (of_nat k :: uint32)"
proof -
  have t: "tabled L elems ordered (sv_services v) stubs (m_client_services f)"
    using assms(1) by (simp add: factory_ok_def)
  show k: "k < length (sv_services v)" using assms(2,4) by (simp add: position_of_Some)
  show "entry_named L nm (m_client_services f) = Inr (Some k)"
    using entry_named_tabled [OF t assms(2,3)] assms(4) by simp
  show "ent_entry (entries (m_client_services f) ! k) = stubs k" by (rule tabled_entry(1) [OF t k])
  have uk: "unat (of_nat k :: uint16) = k" using k assms(5) by simp
  then show "entry_ordinal (entries (m_client_services f) ! k) = of_nat k"
    using tabled_entry(2) [OF t k] by (simp add: word_unat_eq_iff)
  have "unat (service_count f) = length (sv_services v)"
    using assms(5) by (simp add: service_count_def tabled_size [OF t])
  then show "\<not> of_nat k \<ge> service_count f" using uk k by (simp add: word_le_nat_alt)
  show "ucast (of_nat k :: uint16) = (of_nat k :: uint32)" using k assms(5) by (simp add: of_nat_uint32_ucast)
qed

lemma factory_store:
  assumes "factory_ok L elems ordered v stubs f" "k < length (sv_services v)"
  shows "factory_ok L elems ordered v (stubs(k := z)) (f\<lparr>m_client_services := store_entry k z (m_client_services f)\<rparr>)"
  using assms tabled_store [of "sv_services v" stubs "m_client_services f" k z] by (simp add: factory_ok_def)

lemma factory_upd:
  assumes "factory_ok L elems ordered v stubs f" "k < length (sv_services v)"
  shows "factory_ok L elems ordered v (stubs(k := map_option g (stubs k))) (upd_stub k g f)"
proof -
  have "ent_entry (entries (m_client_services f) ! k) = stubs k"
    using assms tabled_entry(1) [of "sv_services v" stubs "m_client_services f" k] by (simp add: factory_ok_def)
  then show ?thesis unfolding upd_stub_def using factory_store [OF assms] by simp
qed

end

section \<open>Subscribing through the factory\<close>

text \<open>
  A usable stub for service \<open>k\<close>: it addresses that service, and each of its methods has the ordinal under which
  the server lists the method of that name.
\<close>

definition stub_for :: "'ix boost \<Rightarrow> ('ix \<Rightarrow> nat set) \<Rightarrow> ((nat \<Rightarrow> OidName) \<Rightarrow> 'ix \<Rightarrow> bool) \<Rightarrow> string list \<Rightarrow> string list
    \<Rightarrow> nat \<Rightarrow> 'ix ClientServiceBase \<Rightarrow> bool" where
  "stub_for L elems ordered ms ns k c \<longleftrightarrow>
     m_service_ordinal c = Some (of_nat k) \<and> m_is_subscribed c \<and>
     tabled L elems ordered ns (mapped_ordinal L ms ns) (m_service_method_map c)"

definition knows_methods :: "'ix boost \<Rightarrow> string list \<Rightarrow> string list \<Rightarrow> bool" where
  "knows_methods L ms ns \<longleftrightarrow> (\<forall>j < length ms. position_of L ns (ms ! j) \<noteq> None)"

context basic_server
begin

lemma populate_stub_ok:
  assumes ok: "ok s" "sv_established (view s)" and k: "k < length (sv_services (view s))" "length (sv_services (view s)) < 65536"
    and f: "factory_ok L elems ordered (view s) stubs f"
    and sd: "names_ok L ns" "tabled L elems ordered ns (\<lambda>_. - 1) (m_service_method_map rt)"
      "knows_methods L (sv_methods (view s) k) ns"
  obtains c f' s' where "populate_stub L P V k rt (f, s) = (Inr k, (f', s'))" "ok s'" "view s' = view s"
    "factory_ok L elems ordered (view s) (stubs(k := Some c)) f'"
    "stub_for L elems ordered (sv_methods (view s) k) ns k c"
proof -
  let ?ms = "sv_methods (view s) k"
  have t: "tabled L elems ordered (sv_services (view s)) stubs (m_client_services f)" and bpc: "bpc_ready L elems ordered (m_bpc f)"
    using f by (simp_all add: factory_ok_def)
  have "unat (of_nat k :: uint16) = k" using k by simp
  then have ord: "entry_ordinal (entries (m_client_services f) ! k) = of_nat k"
    using tabled_entry(2) [OF t k(1)] by (simp add: word_unat_eq_iff)
  have uc: "ucast (of_nat k :: uint16) = (of_nat k :: uint32)" using k by (simp add: of_nat_uint32_ucast)
  obtain s' where s': "remote_call V 0 4 (ser_ListMethodsRequest P \<lparr>lq_service_ordinal = of_nat k\<rparr>) (read_ListMethodsResponse P) s =
      (Inr \<lparr>lm_error = Some NO_LIST_METHOD_ERROR, lm_methods = method_listing ?ms\<rparr>, s')" "ok s'" "view s' = view s"
    using methods_law [OF ok k(1)] by blast
  obtain m where m: "map_methods L (method_listing ?ms) (m_service_method_map rt) = (Inr (), m)"
    "tabled L elems ordered ns (mapped_ordinal L ?ms ns) m"
    by (rule map_methods_ok [OF sd(1) method_names [OF ok(1) k(1)] sd(2) sd(3) [unfolded knows_methods_def]])
  have chk: "check_methods [0..<OidContainer_size m] m = Inr ()"
    using sd(1) tabled_size [OF m(2)] by (intro check_methods_ok [OF m(2)]) (auto simp: names_ok_def)
  let ?f1 = "f\<lparr>m_client_services := store_entry k (Some rt) (m_client_services f)\<rparr>"
  let ?f2 = "upd_stub k (\<lambda>c. c\<lparr>m_service_method_map := m\<rparr>) ?f1"
  let ?f3 = "upd_stub k (set_is_subscribed True \<circ> set_service_ordinal (of_nat k)) ?f2"
  let ?c = "set_is_subscribed True (set_service_ordinal (of_nat k) (rt\<lparr>m_service_method_map := m\<rparr>))"
  have f1: "factory_ok L elems ordered (view s) (stubs(k := Some rt)) ?f1" by (rule factory_store [OF f k(1)])
  have f2: "factory_ok L elems ordered (view s) (stubs(k := Some (rt\<lparr>m_service_method_map := m\<rparr>))) ?f2"
    using factory_upd [OF f1 k(1), of "\<lambda>c. c\<lparr>m_service_method_map := m\<rparr>"] by simp
  have f3: "factory_ok L elems ordered (view s) (stubs(k := Some ?c)) ?f3"
    using factory_upd [OF f2 k(1), of "set_is_subscribed True \<circ> set_service_ordinal (of_nat k)"] by simp
  have "populate_stub L P V k rt (f, s) = (Inr k, (?f3, s'))"
    unfolding populate_stub_def bpc_list_methods_def Let_def prod.case ord uc
    using s'(1) m(1) chk by (simp add: bpc_calls [OF bpc])
  then show ?thesis
    by (rule that [OF _ s'(2,3) f3]) (use m(2) in \<open>simp add: stub_for_def set_is_subscribed_def set_service_ordinal_def\<close>)
qed

lemma subscribe_cases:
  assumes ok: "ok s" "sv_established (view s)" and f: "factory_ok L elems ordered (view s) stubs f"
    and nm: "valid_name nm" "position_of L (sv_services (view s)) nm = Some k" "length (sv_services (view s)) < 65536"
    and free: "stubs k = None" "k \<notin> sv_subscribed (view s)"
    and sd: "names_ok L (sd_methods sd)" "knows_methods L (sv_methods (view s) k) (sd_methods sd)"
  obtains (installed) c r taken f' s' where "subscribe_service L P V sd nm req res_data (f, s) = (Inr (k, r), (f', s'))" "ok s'"
      "view s' = (if taken then (view s)\<lparr>sv_subscribed := insert k (sv_subscribed (view s))\<rparr> else view s)"
      "factory_ok L elems ordered (view s') (stubs(k := Some c)) f'"
      "stub_for L elems ordered (sv_methods (view s) k) (sd_methods sd) k c" "res_data \<or> r = None"
      "welcomes k (sv_code (view s)) \<longrightarrow> taken \<and> r = None" "refuses k (sv_code (view s)) \<longrightarrow> \<not> taken"
  | (no_object) taken s' where "subscribe_service L P V sd nm req res_data (f, s) = (Inl bare_BackEndException, (f, s'))" "ok s'"
      "view s' = (if taken then (view s)\<lparr>sv_subscribed := insert k (sv_subscribed (view s))\<rparr> else view s)"
      "\<not> res_data" "\<not> welcomes k (sv_code (view s))" "refuses k (sv_code (view s)) \<longrightarrow> \<not> taken"
proof -
  note lk = factory_lookup [OF f service_names [OF ok(1)] nm]
  have bpc: "bpc_ready L elems ordered (m_bpc f)" using f by (simp add: factory_ok_def)
  let ?call = "remote_call V 0 2 (ser_SubscribeServiceRequest P \<lparr>sq_service_ordinal = of_nat k, sq_subscribe_request_string = req\<rparr>)
      (read_SubscribeServiceResponse P) s"
  have call: "bpc_rpc_subscribe_service P V (m_bpc f)
      \<lparr>sq_service_ordinal = ucast (entry_ordinal (entries (m_client_services f) ! k)), sq_subscribe_request_string = req\<rparr> s = ?call"
    unfolding bpc_rpc_subscribe_service_def lk(3,6) bpc_calls [OF bpc] ..
  have ord: "\<not> entry_ordinal (entries (m_client_services f) ! k) \<ge> service_count f" using lk(3,4) by simp
  note head = subscribe_service_def prod.case lk(1) sum.case option.case Let_def lk(2) free(1) call
  obtain s1 taken r where "ok s1"
    and ans: "?call = (Inr \<lparr>ss_error = (if taken then Some NO_SUBSCRIBE_SERVICE_ERROR else None), ss_subscribe_result_string = Some r\<rparr>, s1)"
    and view: "view s1 = (if taken then (view s)\<lparr>sv_subscribed := insert k (sv_subscribed (view s))\<rparr> else view s)"
    and who: "welcomes k (sv_code (view s)) \<longrightarrow> taken \<and> r = []" "refuses k (sv_code (view s)) \<longrightarrow> \<not> taken"
    using subscribe_law [OF ok lk(5) free(2), of req] by blast
  have err: "field_or NO_SUBSCRIBE_SERVICE_ERROR (if taken then Some NO_SUBSCRIBE_SERVICE_ERROR else None) = NO_SUBSCRIBE_SERVICE_ERROR"
    by simp
  show ?thesis
  proof (cases "r \<noteq> [] \<and> \<not> res_data")
    case True
    then have "subscribe_service L P V sd nm req res_data (f, s) = (Inl bare_BackEndException, (f, s1))"
      unfolding head using ans ord err by simp
    then show ?thesis using True \<open>ok s1\<close> view who by (intro no_object) auto
  next
    case False
    obtain rt where rt: "create_client_service L sd = Inr rt"
      "tabled L elems ordered (sd_methods sd) (\<lambda>_. - 1) (m_service_method_map rt)"
      by (rule create_client_service_ok [OF sd(1)])
    have v: "sv_established (view s1)" "k < length (sv_services (view s1))" "length (sv_services (view s1)) < 65536"
      "factory_ok L elems ordered (view s1) stubs f" "knows_methods L (sv_methods (view s1) k) (sd_methods sd)"
      "sv_methods (view s1) = sv_methods (view s)"
      using view ok(2) lk(5) nm(3) f sd(2) by (simp_all add: factory_ok_def)
    obtain c f' s' where p: "populate_stub L P V k rt (f, s1) = (Inr k, (f', s'))" "ok s'" "view s' = view s1"
      "factory_ok L elems ordered (view s1) (stubs(k := Some c)) f'"
      "stub_for L elems ordered (sv_methods (view s1) k) (sd_methods sd) k c"
      by (rule populate_stub_ok [OF \<open>ok s1\<close> v(1-4) sd(1) rt(2) v(5)])
    have "subscribe_service L P V sd nm req res_data (f, s) =
        (Inr (k, if r \<noteq> [] then Some r else None), (f', s'))"
      unfolding head using ans ord err False rt(1) p(1) by (simp split: if_splits)
    then show ?thesis
      by (rule installed [OF _ p(2)]) (use p(3-5) view who v(6) False in auto)
  qed
qed

end

section \<open>Unsubscribing, and subscribing again\<close>

context boost_library
begin

text \<open>An entry that has a stub is never subscribed again, whatever the state of the stub.\<close>

lemma subscribe_occupied:
  assumes "factory_ok L elems ordered v stubs f" "names_ok L (sv_services v)" "valid_name nm"
    "position_of L (sv_services v) nm = Some k" "length (sv_services v) < 65536" "stubs k \<noteq> None"
  shows "subscribe_service L P V sd nm req res_data (f, s) = (Inl bare_BackEndException, (f, s))"
  using factory_lookup [OF assms(1-5)] assms(6) by (simp add: subscribe_service_def)

lemma get_service_ok:
  assumes "factory_ok L elems ordered v stubs f" "names_ok L (sv_services v)" "valid_name nm"
    "position_of L (sv_services v) nm = Some k" "length (sv_services v) < 65536"
  shows "get_service L nm f = (if stubs k = None then Inl bare_BackEndException else Inr k)"
  using factory_lookup [OF assms] by (simp add: get_service_def)

end

context basic_server
begin

lemma unsubscribe_ok:
  assumes ok: "ok s" "sv_established (view s)" and f: "factory_ok L elems ordered (view s) stubs f"
    and nm: "valid_name nm" "position_of L (sv_services (view s)) nm = Some k" "length (sv_services (view s)) < 65536"
    and sub: "stubs k = Some c" "k \<in> sv_subscribed (view s)"
  obtains f' s' where "unsubscribe_service L P V nm (f, s) = (Inr (), (f', s'))" "ok s'"
    "view s' = (view s)\<lparr>sv_subscribed := sv_subscribed (view s) - {k}\<rparr>"
    "factory_ok L elems ordered (view s') (stubs(k := Some (set_is_subscribed False c))) f'"
proof -
  note lk = factory_lookup [OF f service_names [OF ok(1)] nm]
  have bpc: "bpc_ready L elems ordered (m_bpc f)" using f by (simp add: factory_ok_def)
  let ?call = "remote_call V 0 3 (ser_UnsubscribeServiceRequest P \<lparr>uq_service_ordinal = of_nat k\<rparr>)
      (read_UnsubscribeServiceResponse P) s"
  obtain s' where s': "?call = (Inr \<lparr>us_error = Some NO_SUBSCRIBE_SERVICE_ERROR\<rparr>, s')" "ok s'"
    "view s' = (view s)\<lparr>sv_subscribed := sv_subscribed (view s) - {k}\<rparr>"
    using unsubscribe_law [OF ok lk(5) sub(2)] by blast
  have call: "bpc_rpc_unsubscribe_service P V (m_bpc f)
      \<lparr>uq_service_ordinal = ucast (entry_ordinal (entries (m_client_services f) ! k))\<rparr> s = ?call"
    unfolding bpc_rpc_unsubscribe_service_def lk(3,6) bpc_calls [OF bpc] ..
  have "unsubscribe_service L P V nm (f, s) = (Inr (), (upd_stub k (set_is_subscribed False) f, s'))"
    unfolding unsubscribe_service_def prod.case lk(1) sum.case option.case Let_def lk(2) sub(1) call using s'(1) by simp
  moreover have "factory_ok L elems ordered (view s') (stubs(k := Some (set_is_subscribed False c))) (upd_stub k (set_is_subscribed False) f)"
    using factory_upd [OF f lk(5), of "set_is_subscribed False"] sub(1) s'(3) by (simp add: factory_ok_def)
  ultimately show ?thesis using s'(2,3) by (intro that)
qed

text \<open>
  A client that the server took as a subscriber, but that threw because it had no object for the
  server's data, is out of step with the server for good.
\<close>

lemma subscribe_out_of_step:
  assumes ok: "ok s" "sv_established (view s)" and f: "factory_ok L elems ordered (view s) stubs f"
    and nm: "valid_name nm" "position_of L (sv_services (view s)) nm = Some k" "length (sv_services (view s)) < 65536"
    and sub: "stubs k = None" "k \<in> sv_subscribed (view s)"
  obtains s' where "subscribe_service L P V sd nm req res_data (f, s) = (Inl bare_BackEndException, (f, s'))" "ok s'" "view s' = view s"
proof -
  note lk = factory_lookup [OF f service_names [OF ok(1)] nm]
  have bpc: "bpc_ready L elems ordered (m_bpc f)" using f by (simp add: factory_ok_def)
  let ?call = "remote_call V 0 2 (ser_SubscribeServiceRequest P \<lparr>sq_service_ordinal = of_nat k, sq_subscribe_request_string = req\<rparr>)
      (read_SubscribeServiceResponse P) s"
  obtain s' where s': "?call = (Inr \<lparr>ss_error = Some SERVICE_ALLREADY_SUBSCRIBED, ss_subscribe_result_string = None\<rparr>, s')"
    "ok s'" "view s' = view s"
    using subscribed_law [OF ok lk(5) sub(2)] by blast
  have call: "bpc_rpc_subscribe_service P V (m_bpc f)
      \<lparr>sq_service_ordinal = ucast (entry_ordinal (entries (m_client_services f) ! k)), sq_subscribe_request_string = req\<rparr> s = ?call"
    unfolding bpc_rpc_subscribe_service_def lk(3,6) bpc_calls [OF bpc] ..
  have ord: "\<not> entry_ordinal (entries (m_client_services f) ! k) \<ge> service_count f" using lk(3,4) by simp
  have "subscribe_service L P V sd nm req res_data (f, s) = (Inl bare_BackEndException, (f, s'))"
    unfolding subscribe_service_def prod.case lk(1) sum.case option.case Let_def lk(2) sub(1) call using s'(1) ord by simp
  then show ?thesis using s'(2,3) by (rule that)
qed

end

end
