(* ===== verification/In_Process_Calls.thy ===== *)
theory In_Process_Calls
  imports Client_Contract Call_Properties
begin

text \<open>
  One call of a stub through an in-process invoker: it is prepared, posted, run and answered, and what comes
  back is what the method of the service returned.
\<close>

section \<open>One call\<close>

text \<open>The invoker after \<open>reset()\<close> and after the request was filled in.\<close>

definition prepared :: "uint32 \<Rightarrow> uint32 \<Rightarrow> string \<Rightarrow> InProcessInvoker \<Rightarrow> InProcessInvoker" where
  "prepared so ro q i =
     (upd_client (\<lambda>cd. cd\<lparr>cd_request := \<lparr>cr_service_ordinal = Some so, cr_request_ordinal = Some ro, cr_request_string = Some q\<rparr>,
                          cd_response := ClientResponse_Clear, cd_ec := ec_clear\<rparr>) i)
       \<lparr>ip_notification := notification_reset (ip_notification i)\<rparr>"

lemma prepared_simps [simp]:
  "cd_request (inv_client_data (ip_base (prepared so ro q i))) =
     \<lparr>cr_service_ordinal = Some so, cr_request_ordinal = Some ro, cr_request_string = Some q\<rparr>"
  "cd_response (inv_client_data (ip_base (prepared so ro q i))) = ClientResponse_Clear"
  "cd_client_established (inv_client_data (ip_base (prepared so ro q i))) = cd_client_established (inv_client_data (ip_base i))"
  "cd_rpc_active (inv_client_data (ip_base (prepared so ro q i))) = cd_rpc_active (inv_client_data (ip_base i))"
  "ip_connected (prepared so ro q i) = ip_connected i" "ip_mutex (prepared so ro q i) = ip_mutex i"
  "ip_notification (prepared so ro q i) = notification_reset (ip_notification i)"
  by (simp_all add: prepared_def)

lemma remote_call_prepared:
  fixes b :: "('ix, 'st, 'ck, 'm) BackEnd"
  assumes "\<not> cd_rpc_active (inv_client_data (ip_base i))"
  shows "remote_call (in_process_ops P x) so ro q read (i, b) =
    sbind (ip_call P x (prepared so ro q i, b)) (\<lambda>_. stub_result (in_process_ops P x) read)"
proof -
  let ?V = "in_process_ops P x :: (InProcessInvoker \<times> ('ix, 'st, 'ck, 'm) BackEnd) InvokerOps"
  let ?i = "(upd_client (\<lambda>cd. cd\<lparr>cd_request := ClientRequest_Clear, cd_response := ClientResponse_Clear,
      cd_ec := ec_clear\<rparr>) i)\<lparr>ip_notification := notification_reset (ip_notification i)\<rparr>"
  have "ip_reset i = (Inr (), ?i)" using assms by (simp add: ip_reset_def Let_def)
  then have reset: "iv_reset ?V (i, b) = (Inr (), (?i, b))" by (simp add: in_process_ops_def)
  have "iv_upd_request ?V (\<lambda>r. r\<lparr>cr_service_ordinal := Some so, cr_request_ordinal := Some ro, cr_request_string := Some q\<rparr>) (?i, b) =
      (prepared so ro q i, b)"
    by (cases i; cases "ip_base i"; cases "inv_client_data (ip_base i)")
      (simp add: in_process_ops_def prepared_def upd_client_def ClientRequest_Clear_def)
  moreover have "iv_invoke ?V = ip_call P x" by (simp add: in_process_ops_def)
  ultimately show ?thesis unfolding remote_call_def reset by simp
qed

lemma stub_result_in_process:
  "stub_result (in_process_ops P x) read (i, b) =
     (let r = cd_response (inv_client_data (ip_base i)) in
      if response_error r \<noteq> REQUEST_SUCCESS then (Inl (RBL_INVOKER_EXCEPTION (response_error r)), (i, b))
      else (Inr (read (response_string r)), (i, b)))"
  by (simp add: stub_result_def in_process_ops_def)

text \<open>What is known about the client data and the backend when the handler of a call starts.\<close>

definition handler_start :: "('ix \<Rightarrow> nat set) \<Rightarrow> ((nat \<Rightarrow> OidName) \<Rightarrow> 'ix \<Rightarrow> bool) \<Rightarrow> nat \<Rightarrow> cid \<Rightarrow> uint32 \<Rightarrow> uint32 \<Rightarrow> string
    \<Rightarrow> InProcessInvoker \<times> ('ix, 'st, 'ck, 'm) BackEnd \<Rightarrow> ClientData \<Rightarrow> ('ix, 'st, 'ck, 'm) BackEnd \<Rightarrow> bool" where
  "handler_start elems ordered n x so ro q w cd b0 \<longleftrightarrow>
     cd_request cd = \<lparr>cr_service_ordinal = Some so, cr_request_ordinal = Some ro, cr_request_string = Some q\<rparr> \<and>
     cd_response cd = \<lparr>cs_response_string = None, cs_error = Some REQUEST_SUCCESS\<rparr> \<and> cd_ec cd = ec_clear \<and>
     cd_rpc_active cd \<and> cd_client_established cd = cd_client_established (inv_client_data (ip_base (fst w))) \<and>
     run_ok elems ordered n b0 \<and> m_services b0 = m_services (snd w) \<and>
     m_source_type b0 = m_source_type (snd w) \<and> m_backend_type b0 = m_backend_type (snd w) \<and>
     end_a_request (m_synchronised_state b0) = m_synchronised_state (snd w) \<and>
     m_connected_clients b0 = m_connected_clients (snd w) \<and>
     cookies_abs (m_client_service_cookies b0) (unat so mod 65536, x) \<noteq> None \<and>
     (\<forall>j y. subscribed (m_client_service_cookies b0) j y = subscribed (m_client_service_cookies (snd w)) j y) \<and>
     (\<forall>j y c. cookies_abs (m_client_service_cookies (snd w)) (j, y) = Some c \<longrightarrow>
        cookies_abs (m_client_service_cookies b0) (j, y) = Some c)"

text \<open>The invoker after the call: its client data are those the handler left, no longer in a call.\<close>

definition call_done :: "cid \<Rightarrow> ClientData \<Rightarrow> InProcessInvoker \<Rightarrow> bool" where
  "call_done x cd i \<longleftrightarrow> inv_client_data (ip_base i) = cd\<lparr>cd_rpc_active := False\<rparr> \<and> ip_connected i \<and> \<not> ip_mutex i"

lemma in_process_posted:
  assumes run: "run_ok elems ordered n b" and idle: "\<not> cd_rpc_active (inv_client_data (ip_base i))"
    and conn: "ip_connected i" "\<not> ip_mutex i" and post: "verdict_of x (ip_base (prepared so ro q i)) b = Posted"
  obtains cd b0 where "handler_start elems ordered n x so ro q (i, b) cd b0"
    "\<forall>cd' b'. service_dispatch P x (ucast so) (ucast so) cd b0 = (Inr cd', b') \<and> cd_rpc_active cd' \<longrightarrow>
       (\<exists>i'. ip_call P x (prepared so ro q i, b) = (Inr False, (i', upd_sync end_a_request b')) \<and> call_done x cd' i')"
proof -
  let ?i = "prepared so ro q i"
  have idle': "\<not> cd_rpc_active (inv_client_data (ip_base ?i))" using idle by simp
  obtain base b1 where inv: "invoke P x (ip_base ?i, b) = (Inr False, (base, b1))"
    "after_call P Posted x n (ip_base ?i, b) (base, b1)"
  proof -
    obtain w where "invoke P x (ip_base ?i, b) = (Inr False, w)" "after_call P Posted x n (ip_base ?i, b) w"
      using invoke_after_call [OF run idle', of P x] unfolding post by (elim exE conjE) simp
    then show thesis by (cases w) (simp add: that)
  qed
  note a = inv(2) [unfolded after_call_def Let_def fst_conv snd_conv, simplified]
  let ?cd = "inv_client_data base" and ?b = "io_take x b1"
  have res: "cd_response ?cd = \<lparr>cs_response_string = None, cs_error = Some REQUEST_SUCCESS\<rparr>"
    using a by (cases "cd_response ?cd") (simp add: ClientResponse_Clear_def verdict_response_def)
  have start: "handler_start elems ordered n x so ro q (i, b) ?cd ?b"
    using a res run unfolding handler_start_def
    by (simp add: run_ok_def verdict_ec_def sync_defs) (simp add: io_take_def)
  have blocked: "ip_invoke P x (?i, b) = (Inl Blocked, (?i\<lparr>ip_base := base, ip_mutex := True\<rparr>, b1))"
    using inv(1) conn by (simp add: ip_invoke_def ip_after_post_def)
  have "\<exists>i'. ip_call P x (?i, b) = (Inr False, (i', upd_sync end_a_request b')) \<and> call_done x cd' i'"
    if d: "service_dispatch P x (ucast so) (ucast so) ?cd ?b = (Inr cd', b')" "cd_rpc_active cd'" for cd' b'
  proof -
    have "run_invoker P x (base, ?b) = (Inr (), (base\<lparr>inv_client_data := cd'\<lparr>cd_rpc_active := False\<rparr>\<rparr>, upd_sync end_a_request b'))"
      using a d by (simp add: run_invoker_def BackEnd_end_rpc_def end_rpc_def)
    then have "ip_call P x (?i, b) = (Inr False,
        (?i\<lparr>ip_base := base\<lparr>inv_client_data := cd'\<lparr>cd_rpc_active := False\<rparr>\<rparr>, ip_mutex := False,
            ip_notification := notify_one (ip_notification ?i)\<rparr>, upd_sync end_a_request b'))"
      unfolding ip_call_def blocked by (simp add: ip_operator_def ip_after_post_def)
    then show ?thesis using conn by (intro exI conjI) (assumption, simp add: call_done_def)
  qed
  with start show ?thesis by (intro that [of ?cd ?b]) blast+
qed

section \<open>Calls of the basic protocol\<close>

text \<open>A client that is connected and idle, at a backend that accepts requests.\<close>

definition client_idle :: "InProcessInvoker \<Rightarrow> bool" where
  "client_idle i \<longleftrightarrow> ip_connected i \<and> \<not> ip_mutex i \<and> \<not> cd_rpc_active (inv_client_data (ip_base i))"

abbreviation established :: "InProcessInvoker \<Rightarrow> bool" where
  "established i \<equiv> cd_client_established (inv_client_data (ip_base i))"

context boost_library
begin

lemma basic_call_posted:
  assumes run: "run_ok elems ordered n b" "0 < n" and acc: "is_accepting_requests (m_synchronised_state b)"
    and m: "m < 5" "established i \<noteq> (m = 0)"
  shows "verdict_of x (ip_base (prepared 0 (of_nat m) q i)) b = Posted"
proof -
  have "unat (0 :: uint16) < n" using run(2) by simp
  with run(1) obtain s where "service_wf elems ordered s"
    "map_option snd (oid_abs (m_services b) (unat (0 :: uint16))) = Some (Some s)" "is_basic s = (unat (0 :: uint16) = 0)"
    by (rule run_ok_service)
  then have "map_option slot_methods (oid_abs (m_services b) 0) = Some 5"
    by (auto simp: is_basic_def service_wf_def slot_methods_def split: Impl.splits)
  moreover have "unat (of_nat m :: uint32) = m" using m(1) by (simp add: unat_of_nat_uint32)
  moreover have "(of_nat m :: uint32) = 0 \<longleftrightarrow> m = 0" using calculation(2) by (simp add: unat_eq_zero [symmetric])
  ultimately show ?thesis
    using acc m by (auto simp: verdict_of_def decide_def view_of_def Let_def)
qed

lemma basic_answer:
  assumes run: "run_ok elems ordered n b" "0 < n" and acc: "is_accepting_requests (m_synchronised_state b)"
    and i: "client_idle i" and m: "m < 5" "established i \<noteq> (m = 0)"
    and gen: "\<forall>cd b'. basic_dispatch P x m cd b' = generated_dispatch_function parse call ser cd b'" and q: "parse q = Some a"
  obtains cd b0 where "handler_start elems ordered n x 0 (of_nat m) q (i, b) cd b0"
    "\<forall>out cd2 b'. call a cd b0 = (Inr (out, cd2), b') \<and> cd_rpc_active cd2 \<and> cd_response cd2 = cd_response cd \<longrightarrow>
       (\<exists>i' cd'. remote_call (in_process_ops P x) 0 (of_nat m) q read (i, b) =
            ((case ser out of None \<Rightarrow> Inl (RBL_INVOKER_EXCEPTION REQUEST_STRING_SERIALIZE_ERROR) | Some t \<Rightarrow> Inr (read t)),
             (i', upd_sync end_a_request b')) \<and>
          call_done x cd' i' \<and> cd_client_established cd' = cd_client_established cd2)"
proof -
  have idle: "\<not> cd_rpc_active (inv_client_data (ip_base i))" "ip_connected i" "\<not> ip_mutex i"
    using i by (simp_all add: client_idle_def)
  obtain cd b0 where h: "handler_start elems ordered n x 0 (of_nat m) q (i, b) cd b0"
    "\<forall>cd' b'. service_dispatch P x (ucast (0 :: uint32)) (ucast (0 :: uint32)) cd b0 = (Inr cd', b') \<and> cd_rpc_active cd' \<longrightarrow>
       (\<exists>i'. ip_call P x (prepared 0 (of_nat m) q i, b) = (Inr False, (i', upd_sync end_a_request b')) \<and> call_done x cd' i')"
    by (rule in_process_posted [OF run(1) idle basic_call_posted [OF run acc m]])
  note st = h(1) [unfolded handler_start_def]
  have "unat (of_nat m :: uint32) = m" using m(1) by (simp add: unat_of_nat_uint32)
  then have rm: "unat (ucast (request_ordinal (cd_request cd)) :: uint16) = m" using st m(1) by (simp add: unat_ucast_32_16)
  have disp: "service_dispatch P x 0 0 cd b0 = generated_dispatch_function parse call ser cd b0"
    using service_dispatch_basic [of n b0 cd m P x 0] st run(2) rm m(1) gen by simp
  have "\<exists>i' cd'. remote_call (in_process_ops P x) 0 (of_nat m) q read (i, b) =
        ((case ser out of None \<Rightarrow> Inl (RBL_INVOKER_EXCEPTION REQUEST_STRING_SERIALIZE_ERROR) | Some t \<Rightarrow> Inr (read t)),
         (i', upd_sync end_a_request b')) \<and>
      call_done x cd' i' \<and> cd_client_established cd' = cd_client_established cd2"
    if c: "call a cd b0 = (Inr (out, cd2), b')" "cd_rpc_active cd2" "cd_response cd2 = cd_response cd" for out cd2 b'
  proof -
    let ?cd = "case ser out of
        None \<Rightarrow> cd_set_response_error REQUEST_STRING_SERIALIZE_ERROR
          (cd_assign_error RBL_BACKEND_INVOKE_RESPONSE_STRING_SERIALIZE_ERROR (cd_set_response_string [] cd2))
      | Some t \<Rightarrow> cd_set_response_string t cd2"
    have "service_dispatch P x 0 0 cd b0 = (Inr ?cd, b')"
      unfolding disp using st q c(1) by (simp add: generated_dispatch_function_def split: option.split)
    moreover have "cd_rpc_active ?cd" using c(2) by (simp split: option.split)
    ultimately obtain i' where i': "ip_call P x (prepared 0 (of_nat m) q i, b) = (Inr False, (i', upd_sync end_a_request b'))"
      "call_done x ?cd i'"
      using h(2) by fastforce
    have "remote_call (in_process_ops P x) 0 (of_nat m) q read (i, b) =
        stub_result (in_process_ops P x) read (i', upd_sync end_a_request b')"
      unfolding remote_call_prepared [OF idle(1)] i'(1) by simp
    also have "\<dots> = ((case ser out of None \<Rightarrow> Inl (RBL_INVOKER_EXCEPTION REQUEST_STRING_SERIALIZE_ERROR) | Some t \<Rightarrow> Inr (read t)),
         (i', upd_sync end_a_request b'))"
      unfolding stub_result_in_process
      using i'(2) c(3) st by (cases "ser out") (simp_all add: call_done_def)
    finally have eq: "remote_call (in_process_ops P x) 0 (of_nat m) q read (i, b) =
        ((case ser out of None \<Rightarrow> Inl (RBL_INVOKER_EXCEPTION REQUEST_STRING_SERIALIZE_ERROR) | Some t \<Rightarrow> Inr (read t)),
         (i', upd_sync end_a_request b'))" .
    have "cd_client_established ?cd = cd_client_established cd2" by (simp split: option.split)
    then show ?thesis using i'(2) by (intro exI conjI) (rule eq, assumption+)
  qed
  with h(1) show ?thesis by (intro that [of cd b0]) blast+
qed

end

section \<open>Calling a method of a service\<close>

text \<open>
  The reference for a remote call: calling the method of the implementation with the client's cookie and reading
  back what it returns, without any invoker, backend or table in between. The value is what the caller sees
  and what becomes of the state of the service and of the cookie.
\<close>

definition direct_call :: "('st, 'ck, 'm) UserImpl \<Rightarrow> nat \<Rightarrow> 'ck ClientCookie \<Rightarrow> ClientData \<Rightarrow> string \<Rightarrow> (string \<Rightarrow> 'r)
    \<Rightarrow> (exn + 'r) \<times> 'st \<times> 'ck ClientCookie" where
  "direct_call u j cc cd req read =
     (case u_parse u j req of
        None \<Rightarrow> (Inl (RBL_INVOKER_EXCEPTION REQUEST_STRING_PARSE_ERROR), u_state u, cc)
      | Some m_in \<Rightarrow>
          (case u_call u j (u_state u) cc cd m_in of (st, cc, cd, m_out) \<Rightarrow>
             (case u_serialize u j m_out of
                None \<Rightarrow> (Inl (RBL_INVOKER_EXCEPTION REQUEST_STRING_SERIALIZE_ERROR), st, cc)
              | Some t \<Rightarrow>
                  (if response_error (cd_response cd) \<noteq> REQUEST_SUCCESS
                   then Inl (RBL_INVOKER_EXCEPTION (response_error (cd_response cd)))
                   else Inr (read t), st, cc))))"

lemma linked_dispatch_direct:
  assumes "request_string (cd_request cd) = q" "response_error (cd_response cd) = REQUEST_SUCCESS"
    "direct_call u j cc cd q read = (r, st, cc')" "impl_behaves u"
  obtains cd' where "linked_dispatch j cd (u, cc) = (Inr cd', (u\<lparr>u_state := st\<rparr>, cc'))" "cd_rpc_active cd' = cd_rpc_active cd"
    "r = (if response_error (cd_response cd') \<noteq> REQUEST_SUCCESS then Inl (RBL_INVOKER_EXCEPTION (response_error (cd_response cd')))
          else Inr (read (response_string (cd_response cd'))))"
proof (cases "u_parse u j q")
  case None
  then show ?thesis
    using assms by (intro that [of "cd_set_response_error REQUEST_STRING_PARSE_ERROR
        (cd_assign_error RBL_BACKEND_INVOKE_REQUEST_STRING_PARSE_ERROR cd)"])
      (auto simp: linked_dispatch_def generated_dispatch_function_def direct_call_def)
next
  case (Some m_in)
  obtain st1 cc1 cd1 out where call: "u_call u j (u_state u) cc cd m_in = (st1, cc1, cd1, out)" by (metis prod_cases4)
  note act = impl_behavesD(1) [OF assms(4) call]
  show ?thesis
  proof (cases "u_serialize u j out")
    case None
    with Some call act assms show ?thesis
      by (intro that [of "cd_set_response_error REQUEST_STRING_SERIALIZE_ERROR
            (cd_assign_error RBL_BACKEND_INVOKE_RESPONSE_STRING_SERIALIZE_ERROR (cd_set_response_string [] cd1))"])
        (auto simp: linked_dispatch_def generated_dispatch_function_def linked_call_def direct_call_def)
  next
    case (Some t)
    with \<open>u_parse u j q = Some m_in\<close> call act assms show ?thesis
      by (intro that [of "cd_set_response_string t cd1"])
        (auto simp: linked_dispatch_def generated_dispatch_function_def linked_call_def direct_call_def)
  qed
qed

text \<open>A call that the backend refuses.\<close>

lemma in_process_refused:
  assumes run: "run_ok elems ordered n b" and i: "client_idle i"
    and v: "verdict_of x (ip_base (prepared so ro q i)) b = v" "verdict_response v \<noteq> REQUEST_SUCCESS"
  shows "\<exists>i' b'. remote_call (in_process_ops P x) so ro q read (i, b) = (Inl (RBL_INVOKER_EXCEPTION (verdict_response v)), (i', b')) \<and>
    client_idle i' \<and> run_ok elems ordered n b' \<and> m_services b' = m_services b \<and> m_synchronised_state b' = m_synchronised_state b \<and>
    (\<forall>j y. subscribed (m_client_service_cookies b') j y = subscribed (m_client_service_cookies b) j y)"
proof -
  let ?i = "prepared so ro q i"
  have idle: "\<not> cd_rpc_active (inv_client_data (ip_base i))" "ip_connected i" "\<not> ip_mutex i"
    using i by (simp_all add: client_idle_def)
  then have idle': "\<not> cd_rpc_active (inv_client_data (ip_base ?i))" by simp
  have np: "v \<noteq> Posted" using v(2) by (auto simp: verdict_response_def)
  obtain base b' where inv: "invoke P x (ip_base ?i, b) = (Inr True, (base, b'))" "after_call P v x n (ip_base ?i, b) (base, b')"
  proof -
    obtain w where "invoke P x (ip_base ?i, b) = (Inr True, w)" "after_call P v x n (ip_base ?i, b) w"
      using invoke_after_call [OF run idle', of P x] np unfolding v(1) by (elim exE conjE) simp
    then show thesis by (cases w) (simp add: that)
  qed
  note a = inv(2) [unfolded after_call_def Let_def fst_conv snd_conv]
  let ?i' = "?i\<lparr>ip_base := base\<rparr>"
  have "ip_call P x (?i, b) = (Inr True, (?i', b'))"
    using inv(1) idle by (simp add: ip_call_def ip_invoke_def)
  then have "remote_call (in_process_ops P x) so ro q read (i, b) = stub_result (in_process_ops P x) read (?i', b')"
    unfolding remote_call_prepared [OF idle(1)] by simp
  also have "\<dots> = (Inl (RBL_INVOKER_EXCEPTION (verdict_response v)), (?i', b'))"
    unfolding stub_result_in_process using a v(2) by simp
  finally have "remote_call (in_process_ops P x) so ro q read (i, b) = (Inl (RBL_INVOKER_EXCEPTION (verdict_response v)), (?i', b'))" .
  moreover have "client_idle ?i'" using a np idle by (simp add: client_idle_def)
  moreover have "m_synchronised_state b' = m_synchronised_state b" using a np by (simp add: rpc_count_def)
  moreover have "run_ok elems ordered n b'" using a run by (simp add: run_ok_def)
  ultimately show ?thesis using a by blast
qed

text \<open>A call that is posted to a service of the application.\<close>

context boost_library
begin

lemma in_process_direct:
  assumes run: "run_ok elems ordered n b" and acc: "is_accepting_requests (m_synchronised_state b)" and i: "client_idle i" "established i"
    and k: "k < n" "k \<noteq> 0" and s: "oid_abs (m_services b) k = Some (nm, Some s)" "svc_impl s = Linked u" and j: "j < method_count s"
    and cc: "cookies_abs (m_client_service_cookies b) (k, x) = Some cc" "is_subscribed cc"
  shows "\<exists>cd r st cc' i' b'.
    cd_request cd = \<lparr>cr_service_ordinal = Some (of_nat k), cr_request_ordinal = Some (of_nat j), cr_request_string = Some q\<rparr> \<and>
    cd_response cd = \<lparr>cs_response_string = None, cs_error = Some REQUEST_SUCCESS\<rparr> \<and> cd_client_established cd \<and>
    direct_call u j cc cd q read = (r, st, cc') \<and>
    remote_call (in_process_ops P x) (of_nat k) (of_nat j) q read (i, b) = (r, (i', b')) \<and>
    client_idle i' \<and> run_ok elems ordered n b' \<and> m_synchronised_state b' = m_synchronised_state b \<and>
    oid_abs (m_services b') = (oid_abs (m_services b))(k \<mapsto> (nm, Some (s\<lparr>svc_impl := Linked (u\<lparr>u_state := st\<rparr>)\<rparr>))) \<and>
    cookies_abs (m_client_service_cookies b') (k, x) = Some cc'"
proof -
  have idle: "\<not> cd_rpc_active (inv_client_data (ip_base i))" "ip_connected i" "\<not> ip_mutex i"
    using i by (simp_all add: client_idle_def)
  have tab: "table_ok elems ordered n (m_services b)" "n \<le> 65536" by (rule run_okD [OF run])+
  obtain nm' s1 where "oid_abs (m_services b) k = Some (nm', Some s1)" "service_wf elems ordered s1"
    by (rule table_okD [OF tab(1) k(1)])
  with s(1) have wf: "service_wf elems ordered s" by simp
  then have ok: "service_ok elems ordered (method_count s) s" "impl_behaves u" "method_count s \<le> 65536"
    using s(2) by (auto simp: service_wf_def service_ok_def)
  have u: "unat (of_nat k :: uint32) = k" "unat (of_nat j :: uint32) = j" "unat (ucast (of_nat k :: uint32) :: uint16) = k"
    "unat (ucast (of_nat j :: uint32) :: uint16) = j"
    using k j tab(2) ok(3) by (simp_all add: unat_of_nat_uint32 unat_ucast_32_16)
  have kz: "(of_nat k :: uint32) \<noteq> 0" using u(1) k(2) by (metis unat_0)
  have sub: "subscribed (m_client_service_cookies b) k x" using cc by (simp add: subscribed_def)
  have "verdict_of x (ip_base (prepared (of_nat k) (of_nat j) q i)) b = Posted"
    using acc i(2) u kz s j sub k tab(2) ok(3)
    by (simp add: verdict_of_def decide_def view_of_def Let_def slot_methods_def)
  then obtain cd b0 where h: "handler_start elems ordered n x (of_nat k) (of_nat j) q (i, b) cd b0"
    "\<forall>cd' b'. service_dispatch P x (ucast (of_nat k :: uint32)) (ucast (of_nat k :: uint32)) cd b0 = (Inr cd', b') \<and> cd_rpc_active cd' \<longrightarrow>
       (\<exists>i'. ip_call P x (prepared (of_nat k) (of_nat j) q i, b) = (Inr False, (i', upd_sync end_a_request b')) \<and> call_done x cd' i')"
    by (rule in_process_posted [OF run idle])
  note st = h(1) [unfolded handler_start_def fst_conv snd_conv]
  let ?k = "ucast (of_nat k :: uint32) :: uint16"
  have cc0: "cookies_abs (m_client_service_cookies b0) (unat ?k, x) = Some cc" using st cc(1) u(3) by simp
  have run0: "run_ok elems ordered n b0" and ck0: "cookies_ok n (m_client_service_cookies b0)"
    using st by (auto dest: run_okD)
  obtain r us cc' where dc: "direct_call u j cc cd q read = (r, us, cc')" by (metis prod_cases3)
  obtain cd' where d: "linked_dispatch j cd (u, cc) = (Inr cd', (u\<lparr>u_state := us\<rparr>, cc'))" "cd_rpc_active cd' = cd_rpc_active cd"
    "r = (if response_error (cd_response cd') \<noteq> REQUEST_SUCCESS then Inl (RBL_INVOKER_EXCEPTION (response_error (cd_response cd')))
          else Inr (read (response_string (cd_response cd'))))"
    using st by (elim conjE) (rule linked_dispatch_direct [OF _ _ dc ok(2)]; simp)
  have kn: "unat ?k < n" using u(3) k(1) by simp
  obtain v where v: "cookie_write ?k x cc' (m_client_service_cookies b0) = Inr v" "cookies_ok n v"
    "cookies_abs v = (cookies_abs (m_client_service_cookies b0))((unat ?k, x) \<mapsto> cc')"
    using ck.wr_spec [OF ck0 kn cc0, of cc'] by blast
  let ?s = "s\<lparr>svc_impl := Linked (u\<lparr>u_state := us\<rparr>)\<rparr>"
  let ?b = "(store_service ?k ?s b0)\<lparr>m_client_service_cookies := v\<rparr>"
  have at: "at_ordinal (m_services b0) ?k = Some (Some s)" using st s(1) u(3) by (simp add: at_ordinal_abs)
  have fn: "at_ordinal (svc_dispatch_table s) (ucast (of_nat j :: uint32)) = Some (Some j)"
    using service_ok_at_ordinal [OF ok(1)] u(4) j by simp
  have rd: "cookie_read ?k x (m_client_service_cookies b0) = Inr cc" using ck.rd_spec [OF ck0 kn, of x] cc0 by simp
  have "service_dispatch P x ?k ?k cd b0 = (Inr cd', ?b)"
    using st at fn rd d(1) v(1) s(2) by (simp add: service_dispatch_def Let_def)
  then obtain i' where i': "ip_call P x (prepared (of_nat k) (of_nat j) q i, b) = (Inr False, (i', upd_sync end_a_request ?b))"
    "call_done x cd' i'"
    using h(2) d(2) st by blast
  have call: "remote_call (in_process_ops P x) (of_nat k) (of_nat j) q read (i, b) = (r, (i', upd_sync end_a_request ?b))"
    unfolding remote_call_prepared [OF idle(1)] i'(1) sbind_simps stub_result_in_process d(3)
    using i'(2) by (simp add: call_done_def)
  have inv0: "oid_inv elems ordered (m_services b0)" using run0 by (simp add: run_ok_def table_ok_def dense_def)
  have abs0: "oid_abs (m_services b0) (unat ?k) = Some (nm, Some s)" using st s(1) u(3) by simp
  have abs: "oid_abs (m_services (upd_sync end_a_request ?b)) = (oid_abs (m_services b))(k \<mapsto> (nm, Some ?s))"
    using store_entry_ok(2) [OF inv0 abs0, of "Some ?s"] st u(3) by (simp add: store_service_def)
  have "is_basic ?s = (unat ?k = 0)" using k(2) u(3) by (simp add: is_basic_def)
  then have "run_ok elems ordered n (store_service ?k ?s b0)"
    by (rule run_ok_store [OF run0 kn service_wf_state(2) [OF wf s(2)]])
  then have "run_ok elems ordered n (upd_sync end_a_request ?b)" using v(2) by (simp add: run_ok_def)
  moreover have "m_synchronised_state (upd_sync end_a_request ?b) = m_synchronised_state b"
    using st by (simp add: store_service_def)
  moreover have "client_idle i'" using i'(2) by (simp add: call_done_def client_idle_def)
  moreover have "cookies_abs (m_client_service_cookies (upd_sync end_a_request ?b)) (k, x) = Some cc'" using v(3) u(3) by simp
  moreover have "cd_client_established cd" using st i(2) by simp
  ultimately show ?thesis using st dc call abs by (intro exI conjI) (blast | assumption)+
qed

end

end
