(* ===== verification/Protobuf_Codec.thy ===== *)
theory Protobuf_Codec
  imports Basic_Protocol_Messages
begin

text \<open>
  What the client and the server rely on when they exchange messages of the basic protocol: a request
  is decoded to what was encoded, and so is a response whose required fields are set. Of a message that lacks a
  required field protobuf documents that \<open>SerializeToString\<close> checks it by a debugging assertion only: the
  library as it is built by default writes the fields that are set, and \<open>ParseFromString\<close> leaves those fields in
  the message although it reports failure, which the generated stubs ignore. This matters for
  \<open>SubscribeServiceResponse\<close>, whose law therefore has no condition; with a library built for debugging the server
  process stops there instead. The reference encoding at the end keeps these laws.
\<close>

locale protobuf_codec =
  fixes P :: protobuf
  assumes HelloRequest_rt: "parse_HelloRequest P (ser_HelloRequest P hq) = Some hq"
    and ListServicesRequest_rt: "parse_ListServicesRequest P (ser_ListServicesRequest P u) = Some u"
    and SubscribeServiceRequest_rt: "parse_SubscribeServiceRequest P (ser_SubscribeServiceRequest P sq) = Some sq"
    and UnsubscribeServiceRequest_rt: "parse_UnsubscribeServiceRequest P (ser_UnsubscribeServiceRequest P uq) = Some uq"
    and ListMethodsRequest_rt: "parse_ListMethodsRequest P (ser_ListMethodsRequest P lq) = Some lq"
    and HelloResponse_rt: "hs_error_type hs \<noteq> None \<Longrightarrow> \<exists>t. ser_HelloResponse P hs = Some t \<and> read_HelloResponse P t = hs"
    and ListServicesResponse_rt: "\<exists>t. ser_ListServicesResponse P ls = Some t \<and> read_ListServicesResponse P t = ls"
    and SubscribeServiceResponse_rt: "\<exists>t. ser_SubscribeServiceResponse P ss = Some t \<and> read_SubscribeServiceResponse P t = ss"
    and UnsubscribeServiceResponse_rt: "us_error us \<noteq> None \<Longrightarrow>
      \<exists>t. ser_UnsubscribeServiceResponse P us = Some t \<and> read_UnsubscribeServiceResponse P t = us"
    and ListMethodsResponse_rt: "lm_error lm \<noteq> None \<Longrightarrow>
      \<exists>t. ser_ListMethodsResponse P lm = Some t \<and> read_ListMethodsResponse P t = lm"

section \<open>A reference encoding\<close>

text \<open>
  A number is that many ones before a zero, a string its length and its characters, an optional
  field whether it is set and its value, a list its length and its elements. A reader returns what
  it has read and the rest.
\<close>

definition w_nat :: "nat \<Rightarrow> string" where
  "w_nat n = replicate n CHR ''1'' @ ''0''"

definition r_nat :: "string \<Rightarrow> nat \<times> string" where
  "r_nat s = (length (takeWhile (\<lambda>c. c = CHR ''1'') s), tl (dropWhile (\<lambda>c. c = CHR ''1'') s))"

definition w_text :: "string \<Rightarrow> string" where
  "w_text t = w_nat (length t) @ t"

definition r_text :: "string \<Rightarrow> string \<times> string" where
  "r_text s = (case r_nat s of (n, r) \<Rightarrow> (take n r, drop n r))"

definition w_word :: "uint32 \<Rightarrow> string" where
  "w_word w = w_nat (unat w)"

definition r_word :: "string \<Rightarrow> uint32 \<times> string" where
  "r_word s = (case r_nat s of (n, r) \<Rightarrow> (of_nat n, r))"

definition w_opt :: "('a \<Rightarrow> string) \<Rightarrow> 'a option \<Rightarrow> string" where
  "w_opt w x = (case x of None \<Rightarrow> w_nat 0 | Some v \<Rightarrow> w_nat 1 @ w v)"

definition r_opt :: "(string \<Rightarrow> 'a \<times> string) \<Rightarrow> string \<Rightarrow> 'a option \<times> string" where
  "r_opt rd s = (case r_nat s of (n, r) \<Rightarrow> if n = 0 then (None, r) else (case rd r of (v, r) \<Rightarrow> (Some v, r)))"

fun r_many :: "nat \<Rightarrow> (string \<Rightarrow> 'a \<times> string) \<Rightarrow> string \<Rightarrow> 'a list \<times> string" where
  "r_many 0 rd s = ([], s)"
| "r_many (Suc n) rd s = (case rd s of (v, r) \<Rightarrow> case r_many n rd r of (vs, r) \<Rightarrow> (v # vs, r))"

definition w_list :: "('a \<Rightarrow> string) \<Rightarrow> 'a list \<Rightarrow> string" where
  "w_list w xs = w_nat (length xs) @ concat (map w xs)"

definition r_list :: "(string \<Rightarrow> 'a \<times> string) \<Rightarrow> string \<Rightarrow> 'a list \<times> string" where
  "r_list rd s = (case r_nat s of (n, r) \<Rightarrow> r_many n rd r)"

text \<open>An enumeration, as the position of a value in the list of all values.\<close>

definition w_enum :: "'a list \<Rightarrow> 'a \<Rightarrow> string" where
  "w_enum es e = w_nat (length (takeWhile (\<lambda>y. y \<noteq> e) es))"

definition r_enum :: "'a list \<Rightarrow> string \<Rightarrow> 'a \<times> string" where
  "r_enum es s = (case r_nat s of (n, r) \<Rightarrow> (if n < length es then es ! n else hd es, r))"

lemma r_nat_w [simp]: "r_nat (w_nat n @ s) = (n, s)"
  by (simp add: r_nat_def w_nat_def takeWhile_append takeWhile_replicate dropWhile_append dropWhile_replicate)

lemma r_text_w [simp]: "r_text (w_text t @ s) = (t, s)"
  by (simp add: r_text_def w_text_def)

lemma r_word_w [simp]: "r_word (w_word w @ s) = (w, s)"
  by (simp add: r_word_def w_word_def)

lemma r_opt_w: "(\<And>v r. rd (w v @ r) = (v, r)) \<Longrightarrow> r_opt rd (w_opt w x @ s) = (x, s)"
  by (simp add: r_opt_def w_opt_def split: option.split)

lemma r_many_w: "(\<And>v r. rd (w v @ r) = (v, r)) \<Longrightarrow> r_many (length xs) rd (concat (map w xs) @ s) = (xs, s)"
  by (induction xs) simp_all

lemma r_list_w: "(\<And>v r. rd (w v @ r) = (v, r)) \<Longrightarrow> r_list rd (w_list w xs @ s) = (xs, s)"
  by (simp add: r_list_def w_list_def r_many_w)

lemma r_enum_w: "e \<in> set es \<Longrightarrow> r_enum es (w_enum es e @ s) = (e, s)"
proof -
  assume e: "e \<in> set es"
  let ?n = "length (takeWhile (\<lambda>y. y \<noteq> e) es)"
  have "takeWhile (\<lambda>y. y \<noteq> e) es \<noteq> es" using e by (auto simp: takeWhile_eq_all_conv)
  then have n: "?n < length es" using length_takeWhile_le [of "\<lambda>y. y \<noteq> e" es] takeWhile_eq_take [of "\<lambda>y. y \<noteq> e" es]
    by (metis le_neq_implies_less take_all_iff)
  then have "es ! ?n = e" using nth_length_takeWhile by fastforce
  with n show ?thesis by (simp add: r_enum_def w_enum_def)
qed

definition source_types :: "SourceConnectionType list" where
  "source_types = [SOURCE_GENERATOR, SOURCE_RELAY]"

definition target_types :: "DestinationConnectionType list" where
  "target_types = [TARGET_RELAY, TARGET_MARSHALL]"

definition hello_errors :: "HelloErrorType list" where
  "hello_errors = [NO_HELLO_ERRORS, DESTINATION_EXPECTATION_MISMATCH, SOURCE_EXPECTATION_MISMATCH, CLIENT_ALLREADY_ESTABLISHED]"

definition subscribe_errors :: "ServiceSubscribeErrorType list" where
  "subscribe_errors = [NO_SUBSCRIBE_SERVICE_ERROR, SERVICE_ORDINAL_NOT_IN_USE, SERVICE_ALLREADY_SUBSCRIBED, NO_SUBSCRIPTION_FOR_SERVICE]"

definition list_errors :: "ListMethodErrorType list" where
  "list_errors = [NO_LIST_METHOD_ERROR, NO_SERVICE_WITH_ORDINAL]"

lemma all_values:
  "st \<in> set source_types" "tt \<in> set target_types" "he \<in> set hello_errors" "se \<in> set subscribe_errors" "le \<in> set list_errors"
proof -
  show "st \<in> set source_types" by (cases st) (simp_all add: source_types_def)
  show "tt \<in> set target_types" by (cases tt) (simp_all add: target_types_def)
  show "he \<in> set hello_errors" by (cases he) (simp_all add: hello_errors_def)
  show "se \<in> set subscribe_errors" by (cases se) (simp_all add: subscribe_errors_def)
  show "le \<in> set list_errors" by (cases le) (simp_all add: list_errors_def)
qed

text \<open>The messages, field by field; \<open>fst\<close> of a reader is the message.\<close>

definition w_service_entry :: "ServiceEntry \<Rightarrow> string" where
  "w_service_entry e = w_word (se_service_ordinal e) @ w_text (se_service_name e)"

definition r_service_entry :: "string \<Rightarrow> ServiceEntry \<times> string" where
  "r_service_entry s =
     (case r_word s of (k, r) \<Rightarrow> case r_text r of (n, r) \<Rightarrow> (\<lparr>se_service_ordinal = k, se_service_name = n\<rparr>, r))"

definition w_method_entry :: "MethodEntry \<Rightarrow> string" where
  "w_method_entry e = w_word (me_service_ordinal e) @ w_text (me_service_name e)"

definition r_method_entry :: "string \<Rightarrow> MethodEntry \<times> string" where
  "r_method_entry s =
     (case r_word s of (k, r) \<Rightarrow> case r_text r of (n, r) \<Rightarrow> (\<lparr>me_service_ordinal = k, me_service_name = n\<rparr>, r))"

definition reference_protobuf :: protobuf where
  "reference_protobuf =
     \<lparr>parse_HelloRequest = \<lambda>s. (case r_enum source_types s of (a, r) \<Rightarrow> case r_enum target_types r of (b, r) \<Rightarrow>
        Some \<lparr>hq_source_type = a, hq_expected_target = b, hq_node_name = fst (r_text r)\<rparr>),
      ser_HelloRequest = \<lambda>q. w_enum source_types (hq_source_type q) @ w_enum target_types (hq_expected_target q) @ w_text (hq_node_name q),
      read_HelloResponse = \<lambda>s. \<lparr>hs_error_type = fst (r_opt (r_enum hello_errors) s)\<rparr>,
      ser_HelloResponse = \<lambda>a. Some (w_opt (w_enum hello_errors) (hs_error_type a)),
      parse_ListServicesRequest = \<lambda>s. Some (), ser_ListServicesRequest = \<lambda>q. [],
      read_ListServicesResponse = \<lambda>s. \<lparr>ls_services = fst (r_list r_service_entry s)\<rparr>,
      ser_ListServicesResponse = \<lambda>a. Some (w_list w_service_entry (ls_services a)),
      parse_SubscribeServiceRequest = \<lambda>s. (case r_word s of (k, r) \<Rightarrow>
        Some \<lparr>sq_service_ordinal = k, sq_subscribe_request_string = fst (r_opt r_text r)\<rparr>),
      ser_SubscribeServiceRequest = \<lambda>q. w_word (sq_service_ordinal q) @ w_opt w_text (sq_subscribe_request_string q),
      read_SubscribeServiceResponse = \<lambda>s. (case r_opt (r_enum subscribe_errors) s of (e, r) \<Rightarrow>
        \<lparr>ss_error = e, ss_subscribe_result_string = fst (r_opt r_text r)\<rparr>),
      ser_SubscribeServiceResponse = \<lambda>a. Some (w_opt (w_enum subscribe_errors) (ss_error a) @ w_opt w_text (ss_subscribe_result_string a)),
      parse_UnsubscribeServiceRequest = \<lambda>s. Some \<lparr>uq_service_ordinal = fst (r_word s)\<rparr>,
      ser_UnsubscribeServiceRequest = \<lambda>q. w_word (uq_service_ordinal q),
      read_UnsubscribeServiceResponse = \<lambda>s. \<lparr>us_error = fst (r_opt (r_enum subscribe_errors) s)\<rparr>,
      ser_UnsubscribeServiceResponse = \<lambda>a. Some (w_opt (w_enum subscribe_errors) (us_error a)),
      parse_ListMethodsRequest = \<lambda>s. Some \<lparr>lq_service_ordinal = fst (r_word s)\<rparr>,
      ser_ListMethodsRequest = \<lambda>q. w_word (lq_service_ordinal q),
      read_ListMethodsResponse = \<lambda>s. (case r_opt (r_enum list_errors) s of (e, r) \<Rightarrow>
        \<lparr>lm_error = e, lm_methods = fst (r_list r_method_entry r)\<rparr>),
      ser_ListMethodsResponse = \<lambda>a. Some (w_opt (w_enum list_errors) (lm_error a) @ w_list w_method_entry (lm_methods a))\<rparr>"

lemma r_entry_w: "r_service_entry (w_service_entry e @ s) = (e, s)" "r_method_entry (w_method_entry g @ s) = (g, s)"
  by (simp_all add: r_service_entry_def w_service_entry_def r_method_entry_def w_method_entry_def)

lemma r_w_end: "r_word (w_word w) = (w, [])" "r_text (w_text t) = (t, [])"
  using r_word_w [of w "[]"] r_text_w [of t "[]"] by simp_all

lemma r_opt_w_end: "(\<And>v r. rd (w v @ r) = (v, r)) \<Longrightarrow> r_opt rd (w_opt w x) = (x, [])"
  using r_opt_w [of rd w x "[]"] by simp

lemma r_list_w_end: "(\<And>v r. rd (w v @ r) = (v, r)) \<Longrightarrow> r_list rd (w_list w xs) = (xs, [])"
  using r_list_w [of rd w xs "[]"] by simp

lemma reference_codec: "protobuf_codec reference_protobuf"
  by unfold_locales (simp_all add: reference_protobuf_def r_enum_w all_values r_opt_w r_opt_w_end r_list_w_end r_entry_w r_w_end)

interpretation rp: protobuf_codec reference_protobuf
  by (rule reference_codec)

end
