(* ===== verification/In_Process_Channel.thy ===== *)
theory In_Process_Channel
  imports In_Process_Calls Protobuf_Codec
begin

text \<open>
  The backend behind an in-process invoker keeps the contract of the factory: the view that the contract
  speaks of is read off the backend's tables and cookies, and each law is a call of \<open>In_Process_Calls\<close>.
\<close>

section \<open>The backend as a server for the factory\<close>

text \<open>
  The names in a table were made by \<open>Oid\<close>. Of a service that is subscribed to, the client relies on its
  leaving the response and the state of the client alone; a service that reports no error and hands out
  no data welcomes everybody, one that always reports an error refuses everybody.
\<close>

definition named :: "'ix boost \<Rightarrow> ('ix, 'e) OidContainer \<Rightarrow> bool" where
  "named L t \<longleftrightarrow> (\<forall>i nm e. oid_abs t i = Some (nm, e) \<longrightarrow> (\<exists>s. valid_name s \<and> nm = name_of L s))"

definition impl_polite :: "('st, 'ck, 'm) UserImpl \<Rightarrow> bool" where
  "impl_polite u \<longleftrightarrow>
     (\<forall>st cc cd q r. case u_subscribe u st cc cd q r of (st', cc', cd', r') \<Rightarrow>
        cd_response cd' = cd_response cd \<and> cd_client_established cd' = cd_client_established cd) \<and>
     (\<forall>st cc cd. case u_unsubscribe u st cc cd of (st', cc', cd') \<Rightarrow>
        cd_response cd' = cd_response cd \<and> cd_client_established cd' = cd_client_established cd)"

definition impl_welcomes :: "('st, 'ck, 'm) UserImpl \<Rightarrow> bool" where
  "impl_welcomes u \<longleftrightarrow>
     (\<forall>st cc cd q. case u_subscribe u st cc cd q [] of (st', cc', cd', r') \<Rightarrow> cd_ec cd' = cd_ec cd \<and> r' = [])"

definition impl_refuses :: "('st, 'ck, 'm) UserImpl \<Rightarrow> bool" where
  "impl_refuses u \<longleftrightarrow> (\<forall>st cc cd q. case u_subscribe u st cc cd q [] of (st', cc', cd', r') \<Rightarrow> ec_fails (cd_ec cd'))"

definition service_polite :: "('ix, 'st, 'ck, 'm) Service \<Rightarrow> bool" where
  "service_polite s = (case svc_impl s of BasicProtocolImpl \<Rightarrow> True | Linked u \<Rightarrow> impl_polite u)"

definition service_welcomes :: "('ix, 'st, 'ck, 'm) Service \<Rightarrow> bool" where
  "service_welcomes s = (case svc_impl s of BasicProtocolImpl \<Rightarrow> True | Linked u \<Rightarrow> impl_welcomes u)"

definition service_refuses :: "('ix, 'st, 'ck, 'm) Service \<Rightarrow> bool" where
  "service_refuses s = (case svc_impl s of BasicProtocolImpl \<Rightarrow> False | Linked u \<Rightarrow> impl_refuses u)"

definition services_good :: "'ix boost \<Rightarrow> ('ix, 'st, 'ck, 'm) t_services \<Rightarrow> bool" where
  "services_good L t \<longleftrightarrow>
     named L t \<and> (\<forall>i nm s. oid_abs t i = Some (nm, Some s) \<longrightarrow> named L (svc_dispatch_table s) \<and> service_polite s)"

definition ip_ready :: "'ix boost \<Rightarrow> ('ix \<Rightarrow> nat set) \<Rightarrow> ((nat \<Rightarrow> OidName) \<Rightarrow> 'ix \<Rightarrow> bool) \<Rightarrow> nat
    \<Rightarrow> InProcessInvoker \<times> ('ix, 'st, 'ck, 'm) BackEnd \<Rightarrow> bool" where
  "ip_ready L elems ordered n w \<longleftrightarrow>
     (case w of (i, b) \<Rightarrow> run_ok elems ordered n b \<and> 0 < n \<and> is_accepting_requests (m_synchronised_state b) \<and>
        client_idle i \<and> services_good L (m_services b))"

definition method_names_of :: "('ix, 'st, 'ck, 'm) t_services \<Rightarrow> nat \<Rightarrow> string list" where
  "method_names_of t k =
     (case table_shape t k of
        Some (nm, Some (sn, tab, td)) \<Rightarrow> map (display_name tab) [0..<OidContainer_size tab]
      | _ \<Rightarrow> [])"

type_synonym ('ix, 'st, 'ck, 'm) shape =
  "nat \<rightharpoonup> OidName \<times> (string \<times> ('ix, nat option) OidContainer \<times> ('st, 'ck, 'm) code option) option"

definition ip_view :: "nat \<Rightarrow> cid \<Rightarrow> InProcessInvoker \<times> ('ix, 'st, 'ck, 'm) BackEnd \<Rightarrow> ('ix, 'st, 'ck, 'm) shape server_view" where
  "ip_view n x w =
     (case w of (i, b) \<Rightarrow>
        \<lparr>sv_services = map (display_name (m_services b)) [0..<n], sv_methods = method_names_of (m_services b),
         sv_subscribed = {k. subscribed (m_client_service_cookies b) k x}, sv_established = established i,
         sv_source = m_source_type b, sv_target = m_backend_type b,
         sv_code = table_shape (m_services b)\<rparr>)"

definition ip_welcomes :: "nat \<Rightarrow> ('ix, 'st, 'ck, 'm) shape \<Rightarrow> bool" where
  "ip_welcomes k c \<longleftrightarrow> (\<forall>nm sn t g st. c k = Some (nm, Some (sn, t, Some g)) \<longrightarrow> impl_welcomes (g st))"

lemma ip_welcomes_code:
  "(\<forall>g st. impl_code s = Some g \<longrightarrow> impl_welcomes (g st)) \<longleftrightarrow> service_welcomes s"
  by (auto simp: service_welcomes_def impl_code_def impl_welcomes_def split: Impl.split)

lemma ip_welcomes_table:
  "ip_welcomes k (table_shape t) \<longleftrightarrow> (\<forall>nm s. oid_abs t k = Some (nm, Some s) \<longrightarrow> service_welcomes s)"
  unfolding ip_welcomes_code [symmetric] by (auto simp: ip_welcomes_def table_shape_def service_shape_def)

definition ip_refuses :: "nat \<Rightarrow> ('ix, 'st, 'ck, 'm) shape \<Rightarrow> bool" where
  "ip_refuses k c \<longleftrightarrow> (\<exists>nm sn t g. c k = Some (nm, Some (sn, t, Some g)) \<and> (\<forall>st. impl_refuses (g st)))"

lemma ip_refuses_code:
  "(\<exists>g. impl_code s = Some g \<and> (\<forall>st. impl_refuses (g st))) \<longleftrightarrow> service_refuses s"
  by (auto simp: service_refuses_def impl_code_def impl_refuses_def split: Impl.split)

lemma ip_refuses_table:
  "ip_refuses k (table_shape t) \<longleftrightarrow> (\<exists>nm s. oid_abs t k = Some (nm, Some s) \<and> service_refuses s)"
  unfolding ip_refuses_code [symmetric] by (fastforce simp: ip_refuses_def table_shape_def service_shape_def)

lemma display_name_abs: "oid_abs t i = Some (nm, e) \<Longrightarrow> display_name t i = takeWhile (\<lambda>c. c \<noteq> NUL) (str_of nm)"
  by (auto simp: display_name_def oid_abs_def split: if_splits)

text \<open>The shape of a table determines the names the view shows.\<close>

lemma display_name_shape:
  assumes "table_shape t' = table_shape t" "i \<in> dom (oid_abs t)"
  shows "display_name t' i = display_name t i"
proof -
  obtain nm e where e: "oid_abs t i = Some (nm, e)" using assms(2) unfolding dom_def by auto
  then have "table_shape t' i = Some (nm, map_option service_shape e)" using assms(1) by (simp add: table_shape_def)
  then obtain e' where "oid_abs t' i = Some (nm, e')" by (auto simp: table_shape_def)
  with e show ?thesis by (simp add: display_name_abs)
qed

lemma method_names_shape: "table_shape t' = table_shape t \<Longrightarrow> method_names_of t' = method_names_of t"
  by (simp add: method_names_of_def fun_eq_iff)

context boost_library
begin

lemma named_display:
  assumes "dense (oid_inv elems ordered) oid_abs OidContainer_size n t" "named L t" "n \<le> 65536"
  shows "names_ok L (map (display_name t) [0..<n])"
proof -
  have ex: "\<exists>s e. valid_name s \<and> oid_abs t i = Some (name_of L s, e) \<and> display_name t i = to_lower L s" if "i < n" for i
  proof -
    have "i \<in> dom (oid_abs t)" using assms(1) that unfolding dense_def by simp
    then obtain nm e where e: "oid_abs t i = Some (nm, e)" unfolding dom_def by auto
    then obtain s where s: "valid_name s" "nm = name_of L s" using assms(2) unfolding named_def by blast
    then show ?thesis using e display_name_abs [OF e] takeWhile_name_of [OF s(1)] by auto
  qed
  have val: "valid_name (display_name t i)" "to_lower L (display_name t i) = display_name t i" if "i < n" for i
    using ex [OF that] to_lower_valid(3) to_lower_idem by auto
  have "i = j" if ij: "i < n" "j < n" "display_name t i = display_name t j" for i j
  proof -
    obtain s e where s: "valid_name s" "oid_abs t i = Some (name_of L s, e)" "display_name t i = to_lower L s"
      using ex [OF ij(1)] by blast
    obtain r g where r: "valid_name r" "oid_abs t j = Some (name_of L r, g)" "display_name t j = to_lower L r"
      using ex [OF ij(2)] by blast
    have "name_of L s = name_of L r" using s r ij(3) name_of_eq_iff by simp
    then show ?thesis using names_distinct [of t i "name_of L s" e j g] assms(1) s(2) r(2) by (simp add: dense_def)
  qed
  then have "distinct (map (display_name t) [0..<n])" by (auto simp: distinct_map inj_on_def)
  moreover have "map (to_lower L) (map (display_name t) [0..<n]) = map (display_name t) [0..<n]"
    using val(2) by simp
  ultimately show ?thesis using val(1) assms(3) by (simp add: names_ok_def del: map_map)
qed

end

lemma service_polite_kept [simp]:
  "service_polite (fst (service_subscribe s cc cd q r)) = service_polite s"
  "service_polite (fst (service_unsubscribe s cc cd)) = service_polite s"
  by (simp_all add: service_polite_def service_subscribe_def service_unsubscribe_def impl_polite_def
      split: Impl.split prod.split)

lemma service_polite_subscribe:
  assumes "service_polite s" "service_subscribe s cc cd q r = (s', cc', cd', r')"
  shows "cd_response cd' = cd_response cd" "cd_client_established cd' = cd_client_established cd" "service_polite s'"
    "service_welcomes s \<Longrightarrow> r = [] \<Longrightarrow> cd_ec cd' = cd_ec cd \<and> r' = []"
    "service_refuses s \<Longrightarrow> r = [] \<Longrightarrow> ec_fails (cd_ec cd')"
proof -
  show "ec_fails (cd_ec cd')" if "service_refuses s" "r = []"
  proof (cases "svc_impl s")
    case (Linked u)
    then have "impl_refuses u" using that(1) by (simp add: service_refuses_def)
    then have "case u_subscribe u (u_state u) cc cd q [] of (st', cc', cd', r') \<Rightarrow> ec_fails (cd_ec cd')"
      unfolding impl_refuses_def by simp
    with Linked assms(2) that(2) show ?thesis by (auto simp: service_subscribe_def split: prod.splits)
  qed (use that(1) in \<open>simp add: service_refuses_def\<close>)
  show "service_polite s'" using service_polite_kept(1) [of s cc cd q r] assms by simp
  have "cd_response cd' = cd_response cd \<and> cd_client_established cd' = cd_client_established cd"
  proof (cases "svc_impl s")
    case (Linked u)
    then have "impl_polite u" using assms(1) by (simp add: service_polite_def)
    then have "case u_subscribe u (u_state u) cc cd q r of (st', cc', cd', r') \<Rightarrow>
        cd_response cd' = cd_response cd \<and> cd_client_established cd' = cd_client_established cd"
      unfolding impl_polite_def by simp
    with Linked assms(2) show ?thesis by (auto simp: service_subscribe_def split: prod.splits)
  qed (use assms(2) in \<open>simp add: service_subscribe_def\<close>)
  then show "cd_response cd' = cd_response cd" "cd_client_established cd' = cd_client_established cd" by simp_all
  assume w: "service_welcomes s" "r = []"
  show "cd_ec cd' = cd_ec cd \<and> r' = []"
  proof (cases "svc_impl s")
    case (Linked u)
    then have "impl_welcomes u" using w(1) by (simp add: service_welcomes_def)
    then have "case u_subscribe u (u_state u) cc cd q [] of (st', cc', cd', r') \<Rightarrow> cd_ec cd' = cd_ec cd \<and> r' = []"
      unfolding impl_welcomes_def by simp
    with Linked assms(2) w(2) show ?thesis by (auto simp: service_subscribe_def split: prod.splits)
  qed (use assms(2) w(2) in \<open>simp add: service_subscribe_def\<close>)
qed

lemma service_polite_unsubscribe:
  assumes "service_polite s" "service_unsubscribe s cc cd = (s', cc', cd')"
  shows "cd_response cd' = cd_response cd" "cd_client_established cd' = cd_client_established cd" "service_polite s'"
proof -
  show "service_polite s'" using service_polite_kept(2) [of s cc cd] assms by simp
  have "cd_response cd' = cd_response cd \<and> cd_client_established cd' = cd_client_established cd"
  proof (cases "svc_impl s")
    case (Linked u)
    then have "impl_polite u" using assms(1) by (simp add: service_polite_def)
    then have "case u_unsubscribe u (u_state u) cc cd of (st', cc', cd') \<Rightarrow>
        cd_response cd' = cd_response cd \<and> cd_client_established cd' = cd_client_established cd"
      unfolding impl_polite_def by simp
    with Linked assms(2) show ?thesis by (auto simp: service_unsubscribe_def split: prod.splits)
  qed (use assms(2) in \<open>simp add: service_unsubscribe_def\<close>)
  then show "cd_response cd' = cd_response cd" "cd_client_established cd' = cd_client_established cd" by simp_all
qed

context boost_library
begin

lemma services_good_store:
  assumes "run_ok elems ordered n b" "services_good L (m_services b)"
    "map_option snd (oid_abs (m_services b) (unat k)) = Some (Some s)" "service_shape s' = service_shape s" "service_polite s'"
  shows "services_good L (m_services ((store_service k s' b)\<lparr>m_client_service_cookies := v\<rparr>))"
proof -
  have inv: "oid_inv elems ordered (m_services b)" using assms(1) by (simp add: run_ok_def table_ok_def dense_def)
  obtain nm where nm: "oid_abs (m_services b) (unat k) = Some (nm, Some s)" using assms(3) by auto
  have abs: "oid_abs (m_services ((store_service k s' b)\<lparr>m_client_service_cookies := v\<rparr>)) =
      (oid_abs (m_services b))(unat k \<mapsto> (nm, Some s'))"
    using store_entry_ok(2) [OF inv nm, of "Some s'"] by (simp add: store_service_def)
  have "svc_dispatch_table s' = svc_dispatch_table s" using assms(4) by (simp add: service_shape_def)
  moreover have "named L (svc_dispatch_table s)" "\<exists>t. valid_name t \<and> nm = name_of L t"
    using assms(2) nm unfolding services_good_def named_def by blast+
  ultimately show ?thesis using assms(2,5) unfolding services_good_def named_def abs by auto
qed

lemma basic_call_done:
  assumes h: "handler_start elems ordered n x so ro q (i, b) cd b0" and r: "ip_ready L elems ordered n (i, b)"
    and kp: "keeps elems ordered n x (cd, b0) (cd2, b')" and good: "services_good L (m_services b')"
    and d: "call_done x cd' i'"
  shows "ip_ready L elems ordered n (i', upd_sync end_a_request b')"
    "ip_view n x (i', upd_sync end_a_request b') = (ip_view n x (i, b))
       \<lparr>sv_subscribed := {k. subscribed (m_client_service_cookies b') k x}, sv_established := cd_client_established cd'\<rparr>"
proof -
  note st = h [unfolded handler_start_def fst_conv snd_conv]
  have k: "run_ok elems ordered n b'" "same_control b0 b'" "table_shape (m_services b') = table_shape (m_services b)"
    using kp st by (simp_all add: keeps_def)
  note ctl = same_controlD [OF k(2)]
  have sync: "m_synchronised_state (upd_sync end_a_request b') = m_synchronised_state b" using ctl st by simp
  have "0 < n" using r by (simp add: ip_ready_def)
  then show "ip_ready L elems ordered n (i', upd_sync end_a_request b')"
    using r k(1) good d sync by (simp add: ip_ready_def call_done_def client_idle_def run_ok_def)
  have "display_name (m_services b') j = display_name (m_services b) j" if "j < n" for j
  proof (rule display_name_shape [OF k(3)])
    show "j \<in> dom (oid_abs (m_services b))"
      using r that unfolding ip_ready_def prod.case run_ok_def table_ok_def dense_def by blast
  qed
  then have "map (display_name (m_services b')) [0..<n] = map (display_name (m_services b)) [0..<n]" by simp
  then show "ip_view n x (i', upd_sync end_a_request b') = (ip_view n x (i, b))
       \<lparr>sv_subscribed := {k. subscribed (m_client_service_cookies b') k x}, sv_established := cd_client_established cd'\<rparr>"
    using d st ctl method_names_shape [OF k(3)] k(3) by (simp add: ip_view_def call_done_def)
qed

end

section \<open>What subscribing and unsubscribing do to the backend\<close>

text \<open>What the client relies on when a method of the basic protocol has run on its behalf.\<close>

definition client_kept :: "'ix boost \<Rightarrow> ('ix \<Rightarrow> nat set) \<Rightarrow> ((nat \<Rightarrow> OidName) \<Rightarrow> 'ix \<Rightarrow> bool) \<Rightarrow> nat \<Rightarrow> cid
    \<Rightarrow> ClientData \<times> ('ix, 'st, 'ck, 'm) BackEnd \<Rightarrow> ClientData \<times> ('ix, 'st, 'ck, 'm) BackEnd \<Rightarrow> bool" where
  "client_kept L elems ordered n x w w' \<longleftrightarrow>
     keeps elems ordered n x w w' \<and> cd_response (fst w') = cd_response (fst w) \<and>
     cd_client_established (fst w') = cd_client_established (fst w) \<and> services_good L (m_services (snd w'))"

context boost_library
begin

lemma unsubscribe_effect:
  assumes run: "run_ok elems ordered n b" and good: "services_good L (m_services b)"
    and k: "unat (uq_service_ordinal q) = k" "k < n" and sub: "subscribed (m_client_service_cookies b) k x"
  shows "\<exists>cd2 b'. bp_rpc_unsubscribe_service x q cd b = (Inr (\<lparr>us_error = Some NO_SUBSCRIBE_SERVICE_ERROR\<rparr>, cd2), b') \<and>
    client_kept L elems ordered n x (cd, b) (cd2, b') \<and>
    {j. subscribed (m_client_service_cookies b') j x} = {j. subscribed (m_client_service_cookies b) j x} - {k}"
proof -
  have kk: "unat (ucast (uq_service_ordinal q) :: uint16) = k" "unat (uq_service_ordinal q) < n"
    using k run_okD(3) [OF run] by (simp_all add: unat_ucast_32_16)
  then have kn: "unat (ucast (uq_service_ordinal q) :: uint16) < n" using k by simp
  have sub': "subscribed (m_client_service_cookies b) (unat (uq_service_ordinal q)) x" using sub k by simp
  obtain s s' cc cd' v where s: "map_option snd (oid_abs (m_services b) (unat (ucast (uq_service_ordinal q) :: uint16))) = Some (Some s)"
    and un: "service_unsubscribe s (cookie_of (m_client_service_cookies b) (unat (ucast (uq_service_ordinal q) :: uint16)) x) cd = (s', cc, cd')"
    and res: "bp_rpc_unsubscribe_service x q cd b = (Inr (\<lparr>us_error = Some NO_SUBSCRIBE_SERVICE_ERROR\<rparr>, cd'),
      (store_service (ucast (uq_service_ordinal q)) s' b)\<lparr>m_client_service_cookies := v\<rparr>)"
    and v: "cookies_ok n v" "cookies_abs v = (cookies_abs (m_client_service_cookies b))((unat (ucast (uq_service_ordinal q) :: uint16), x) := None)"
    and kp: "service_wf elems ordered s'" "cd_rpc_active cd' = cd_rpc_active cd"
      "is_basic s' = (unat (ucast (uq_service_ordinal q) :: uint16) = 0)" "service_shape s' = service_shape s"
    by (rule bp_unsubscribe_subscribed [OF run kk(2) sub', of cd])
  have "service_polite s" using s good by (auto simp: services_good_def)
  note pol = service_polite_unsubscribe [OF this un]
  have "{j. subscribed v j x} = {j. subscribed (m_client_service_cookies b) j x} - {k}"
    using subscribed_upd [OF v(2), of _ x] kk(1) by auto
  moreover have "keeps elems ordered n x (cd, b) (cd', (store_service (ucast (uq_service_ordinal q)) s' b)\<lparr>m_client_service_cookies := v\<rparr>)"
    by (rule keeps_store [OF run kn kp(1,3) s kp(4) v(1,2) kp(2)])
  ultimately show ?thesis
    using res pol services_good_store [OF run good s kp(4) pol(3), of v] by (auto simp: client_kept_def)
qed

lemma subscribe_effect:
  assumes run: "run_ok elems ordered n b" and good: "services_good L (m_services b)"
    and k: "unat (sq_service_ordinal q) = k" "k < n" and new: "\<not> subscribed (m_client_service_cookies b) k x"
    and ec: "\<not> ec_fails (cd_ec cd)"
  shows "\<exists>res r cd2 b'. bp_rpc_subscribe_service x q cd b = (Inr (\<lparr>ss_error = res, ss_subscribe_result_string = Some r\<rparr>, cd2), b') \<and>
    client_kept L elems ordered n x (cd, b) (cd2, b') \<and>
    (res = Some NO_SUBSCRIBE_SERVICE_ERROR \<and>
       {j. subscribed (m_client_service_cookies b') j x} = insert k {j. subscribed (m_client_service_cookies b) j x} \<or>
     res = None \<and> {j. subscribed (m_client_service_cookies b') j x} = {j. subscribed (m_client_service_cookies b) j x}) \<and>
    ((\<forall>nm s. oid_abs (m_services b) k = Some (nm, Some s) \<longrightarrow> service_welcomes s) \<longrightarrow> res = Some NO_SUBSCRIBE_SERVICE_ERROR \<and> r = []) \<and>
    ((\<exists>nm s. oid_abs (m_services b) k = Some (nm, Some s) \<and> service_refuses s) \<longrightarrow> res = None)"
proof -
  have kk: "unat (ucast (sq_service_ordinal q) :: uint16) = k" "unat (sq_service_ordinal q) < n"
    using k run_okD(3) [OF run] by (simp_all add: unat_ucast_32_16)
  then have kn: "unat (ucast (sq_service_ordinal q) :: uint16) < n" using k by simp
  have new': "\<not> subscribed (m_client_service_cookies b) (unat (sq_service_ordinal q)) x" using new k by simp
  obtain s s' cc cd' r v where s: "map_option snd (oid_abs (m_services b) (unat (ucast (sq_service_ordinal q) :: uint16))) = Some (Some s)"
    and un: "service_subscribe s (cookie_of (m_client_service_cookies b) (unat (ucast (sq_service_ordinal q) :: uint16)) x) cd
      (sq_subscribe_request_string q) [] = (s', cc, cd', r)"
    and res: "bp_rpc_subscribe_service x q cd b =
       (Inr (\<lparr>ss_error = (if ec_fails (cd_ec cd') then None else Some NO_SUBSCRIBE_SERVICE_ERROR),
              ss_subscribe_result_string = Some r\<rparr>, cd'),
        (store_service (ucast (sq_service_ordinal q)) s' b)\<lparr>m_client_service_cookies := v\<rparr>)"
    and v: "cookies_ok n v" "cookies_abs v = (cookies_abs (m_client_service_cookies b))
      ((unat (ucast (sq_service_ordinal q) :: uint16), x) \<mapsto> (if ec_fails (cd_ec cd') then cc else cookie_subscribe cc))"
    and kp: "service_wf elems ordered s'" "cd_rpc_active cd' = cd_rpc_active cd" "\<not> m_subscribed cc"
      "is_basic s' = (unat (ucast (sq_service_ordinal q) :: uint16) = 0)" "service_shape s' = service_shape s"
    by (rule bp_subscribe_new [OF run kk(2) new', of cd])
  have "service_polite s" using s good by (auto simp: services_good_def)
  note pol = service_polite_subscribe [OF this un]
  let ?b = "(store_service (ucast (sq_service_ordinal q)) s' b)\<lparr>m_client_service_cookies := v\<rparr>"
  have "subscribed v j x = (if j = k then \<not> ec_fails (cd_ec cd') else subscribed (m_client_service_cookies b) j x)" for j
    using subscribed_upd [OF v(2), of j x] kk(1) kp(3) by (simp add: cookie_subscribe_def is_subscribed_def)
  then have "{j. subscribed v j x} = (if ec_fails (cd_ec cd') then {j. subscribed (m_client_service_cookies b) j x}
      else insert k {j. subscribed (m_client_service_cookies b) j x})"
    using new by auto
  moreover have "keeps elems ordered n x (cd, b) (cd', ?b)"
    by (rule keeps_store [OF run kn kp(1,4) s kp(5) v(1,2) kp(2)])
  moreover have "services_good L (m_services ?b)" by (rule services_good_store [OF run good s kp(5) pol(3)])
  moreover have "\<not> ec_fails (cd_ec cd') \<and> r = []" if "\<forall>nm s. oid_abs (m_services b) k = Some (nm, Some s) \<longrightarrow> service_welcomes s"
    using that s kk(1) pol(4) ec by auto
  moreover have "ec_fails (cd_ec cd')" if "\<exists>nm s. oid_abs (m_services b) k = Some (nm, Some s) \<and> service_refuses s"
    using that s kk(1) pol(5) by auto
  ultimately show ?thesis
    unfolding res using pol(1,2) by (intro exI [of _ "if ec_fails (cd_ec cd') then None else Some NO_SUBSCRIBE_SERVICE_ERROR"]
      exI [of _ r] exI [of _ cd'] exI [of _ ?b]) (auto simp: client_kept_def)
qed

end

section \<open>The laws of the contract\<close>

locale in_process_channel = boost_library L elems ordered + protobuf_codec P
  for L :: "'ix boost" and elems :: "'ix \<Rightarrow> nat set" and ordered :: "(nat \<Rightarrow> OidName) \<Rightarrow> 'ix \<Rightarrow> bool" and P :: protobuf +
  fixes n :: nat and x :: cid
begin

lemma ip_readyD:
  assumes "ip_ready L elems ordered n (i, b)"
  shows "run_ok elems ordered n b" "0 < n" "is_accepting_requests (m_synchronised_state b)" "client_idle i"
    "services_good L (m_services b)"
  using assms by (simp_all add: ip_ready_def)

lemma ip_hello:
  assumes r: "ip_ready L elems ordered n (i, b)" and e: "\<not> established i"
  shows "\<exists>s'. remote_call (in_process_ops P x) 0 0 (ser_HelloRequest P hr) (read_HelloResponse P) (i, b) =
      (Inr \<lparr>hs_error_type = Some (hello_answer (ip_view n x (i, b)) hr)\<rparr>, s') \<and> ip_ready L elems ordered n s' \<and>
    ip_view n x s' = (ip_view n x (i, b))\<lparr>sv_established := (hello_answer (ip_view n x (i, b)) hr = NO_HELLO_ERRORS)\<rparr>"
proof -
  have gen: "\<forall>cd b'. basic_dispatch P x 0 cd b' =
      generated_dispatch_function (parse_HelloRequest P) bp_hello (ser_HelloResponse P) cd b'"
    by (simp add: basic_dispatch_def)
  have e': "established i \<noteq> (0 = (0 :: nat))" and z: "(0 :: nat) < 5" using e by simp_all
  obtain cd b0 where h: "handler_start elems ordered n x 0 (of_nat 0) (ser_HelloRequest P hr) (i, b) cd b0" and
    ans: "\<forall>out cd2 b'. bp_hello hr cd b0 = (Inr (out, cd2), b') \<and> cd_rpc_active cd2 \<and> cd_response cd2 = cd_response cd \<longrightarrow>
       (\<exists>i' cd'. remote_call (in_process_ops P x) 0 (of_nat 0) (ser_HelloRequest P hr) (read_HelloResponse P) (i, b) =
            ((case ser_HelloResponse P out of None \<Rightarrow> Inl (RBL_INVOKER_EXCEPTION REQUEST_STRING_SERIALIZE_ERROR)
              | Some t \<Rightarrow> Inr (read_HelloResponse P t)), (i', upd_sync end_a_request b')) \<and>
          call_done x cd' i' \<and> cd_client_established cd' = cd_client_established cd2)"
    by (rule basic_answer [OF ip_readyD(1-4) [OF r] z e' gen HelloRequest_rt])
  note st = h [unfolded handler_start_def fst_conv snd_conv]
  let ?v = "ip_view n x (i, b)"
  let ?a = "hello_answer ?v hr"
  obtain cd2 where call: "bp_hello hr cd b0 = (Inr (\<lparr>hs_error_type = Some ?a\<rparr>, cd2), b0)" "cd_rpc_active cd2"
    "cd_response cd2 = cd_response cd" "cd_client_established cd2 = (?a = NO_HELLO_ERRORS)"
  proof -
    let ?cd = "if m_backend_type b0 \<noteq> hq_expected_target hr
        then request_disconect (cd_assign_error RBL_BACKEND_CLIENT_TARGET_TYPE_MISMATCH cd)
        else if m_source_type b0 \<noteq> hq_source_type hr
        then request_disconect (cd_assign_error RBL_BACKEND_CLIENT_SOURCE_TYPE_MISMATCH cd)
        else cd\<lparr>cd_name := hq_node_name hr, cd_client_established := True\<rparr>"
    have ty: "sv_target ?v = m_backend_type b0" "sv_source ?v = m_source_type b0" using st by (simp_all add: ip_view_def)
    have est: "\<not> cd_client_established cd" "cd_rpc_active cd" using st e by simp_all
    show thesis
      by (rule that [of ?cd]) (use est in \<open>simp_all add: bp_hello_cases hello_answer_def ty HelloResponse_new_def\<close>)
  qed
  have kp: "keeps elems ordered n x (cd, b0) (cd2, b0)" using st call(2) by (simp add: keeps_refl)
  have good: "services_good L (m_services b0)" using st ip_readyD(5) [OF r] by simp
  obtain i' cd' where i': "remote_call (in_process_ops P x) 0 (of_nat 0) (ser_HelloRequest P hr) (read_HelloResponse P) (i, b) =
      (Inr \<lparr>hs_error_type = Some ?a\<rparr>, (i', upd_sync end_a_request b0))" "call_done x cd' i'"
    "cd_client_established cd' = (?a = NO_HELLO_ERRORS)"
    using ans call HelloResponse_rt [of "\<lparr>hs_error_type = Some ?a\<rparr>"] by fastforce
  note fin = basic_call_done [OF h r kp good i'(2)]
  have "{k. subscribed (m_client_service_cookies b0) k x} = sv_subscribed ?v" using st by (simp add: ip_view_def)
  then have "ip_view n x (i', upd_sync end_a_request b0) = ?v\<lparr>sv_established := (?a = NO_HELLO_ERRORS)\<rparr>"
    unfolding fin(2) i'(3) by (cases ?v) simp
  with i'(1) fin(1) show ?thesis by auto
qed

text \<open>The other four methods, for an established client.\<close>

lemma ip_basic:
  assumes r: "ip_ready L elems ordered n (i, b)" and e: "established i" and m: "m < 5" "m \<noteq> 0"
    and gen: "\<forall>cd b'. basic_dispatch P x m cd b' = generated_dispatch_function parse call ser cd b'" and q: "parse q = Some a"
    and ex: "\<And>cd b0. handler_start elems ordered n x 0 (of_nat m) q (i, b) cd b0 \<Longrightarrow>
      \<exists>out cd2 b'. call a cd b0 = (Inr (out, cd2), b') \<and> keeps elems ordered n x (cd, b0) (cd2, b') \<and>
        cd_response cd2 = cd_response cd \<and> cd_client_established cd2 = cd_client_established cd \<and>
        services_good L (m_services b') \<and> Q out b'"
  obtains out b' s' where "Q out b'"
    "remote_call (in_process_ops P x) 0 (of_nat m) q read (i, b) =
      ((case ser out of None \<Rightarrow> Inl (RBL_INVOKER_EXCEPTION REQUEST_STRING_SERIALIZE_ERROR) | Some t \<Rightarrow> Inr (read t)), s')"
    "ip_ready L elems ordered n s'"
    "ip_view n x s' = (ip_view n x (i, b))\<lparr>sv_subscribed := {k. subscribed (m_client_service_cookies b') k x}\<rparr>"
proof -
  have e': "established i \<noteq> (m = 0)" using e m by simp
  obtain cd b0 where h: "handler_start elems ordered n x 0 (of_nat m) q (i, b) cd b0" and
    ans: "\<forall>out cd2 b'. call a cd b0 = (Inr (out, cd2), b') \<and> cd_rpc_active cd2 \<and> cd_response cd2 = cd_response cd \<longrightarrow>
       (\<exists>i' cd'. remote_call (in_process_ops P x) 0 (of_nat m) q read (i, b) =
            ((case ser out of None \<Rightarrow> Inl (RBL_INVOKER_EXCEPTION REQUEST_STRING_SERIALIZE_ERROR) | Some t \<Rightarrow> Inr (read t)),
             (i', upd_sync end_a_request b')) \<and>
          call_done x cd' i' \<and> cd_client_established cd' = cd_client_established cd2)"
    by (rule basic_answer [OF ip_readyD(1-4) [OF r] m(1) e' gen q])
  obtain out cd2 b' where c: "call a cd b0 = (Inr (out, cd2), b')" "keeps elems ordered n x (cd, b0) (cd2, b')"
    "cd_response cd2 = cd_response cd" "cd_client_established cd2 = cd_client_established cd"
    "services_good L (m_services b')" "Q out b'"
    using ex [OF h] by blast
  have act: "cd_rpc_active cd2" using c(2) h by (simp add: keeps_def handler_start_def)
  obtain i' cd' where i': "remote_call (in_process_ops P x) 0 (of_nat m) q read (i, b) =
      ((case ser out of None \<Rightarrow> Inl (RBL_INVOKER_EXCEPTION REQUEST_STRING_SERIALIZE_ERROR) | Some t \<Rightarrow> Inr (read t)),
       (i', upd_sync end_a_request b'))" "call_done x cd' i'" "cd_client_established cd' = cd_client_established cd2"
    using ans c(1,3) act by blast
  note fin = basic_call_done [OF h r c(2,5) i'(2)]
  have "cd_client_established cd' = sv_established (ip_view n x (i, b))"
    using i'(3) c(4) h by (simp add: handler_start_def ip_view_def)
  then have "ip_view n x (i', upd_sync end_a_request b') =
      (ip_view n x (i, b))\<lparr>sv_subscribed := {k. subscribed (m_client_service_cookies b') k x}\<rparr>"
    unfolding fin(2) by (cases "ip_view n x (i, b)") simp
  with c(6) i'(1) fin(1) show ?thesis by (rule that)
qed

text \<open>A method whose answer is known and can be encoded.\<close>

lemma ip_reply:
  assumes r: "ip_ready L elems ordered n (i, b)" and e: "established i" and m: "m < 5" "m \<noteq> 0"
    and gen: "\<forall>cd b'. basic_dispatch P x m cd b' = generated_dispatch_function parse call ser cd b'" and q: "parse q = Some a"
    and out: "\<exists>t. ser out = Some t \<and> read t = out"
    and ex: "\<And>cd b0. handler_start elems ordered n x 0 (of_nat m) q (i, b) cd b0 \<Longrightarrow>
      \<exists>cd2 b'. call a cd b0 = (Inr (out, cd2), b') \<and> keeps elems ordered n x (cd, b0) (cd2, b') \<and>
        cd_response cd2 = cd_response cd \<and> cd_client_established cd2 = cd_client_established cd \<and>
        services_good L (m_services b') \<and> {k. subscribed (m_client_service_cookies b') k x} = S"
  shows "\<exists>s'. remote_call (in_process_ops P x) 0 (of_nat m) q read (i, b) = (Inr out, s') \<and> ip_ready L elems ordered n s' \<and>
    ip_view n x s' = (ip_view n x (i, b))\<lparr>sv_subscribed := S\<rparr>"
proof (rule ip_basic [OF r e m gen q, where read = read and Q = "\<lambda>o1 b1. o1 = out \<and> {k. subscribed (m_client_service_cookies b1) k x} = S"])
  fix cd b0
  assume "handler_start elems ordered n x 0 (of_nat m) q (i, b) cd b0"
  then show "\<exists>o1 cd2 b'. call a cd b0 = (Inr (o1, cd2), b') \<and> keeps elems ordered n x (cd, b0) (cd2, b') \<and>
      cd_response cd2 = cd_response cd \<and> cd_client_established cd2 = cd_client_established cd \<and>
      services_good L (m_services b') \<and> (o1 = out \<and> {k. subscribed (m_client_service_cookies b') k x} = S)"
    using ex by blast
qed (use out in auto)

lemma ip_view_same: "sv_subscribed w = S \<Longrightarrow> w\<lparr>sv_subscribed := S\<rparr> = w"
  by (cases w) simp

lemma ip_list_services:
  assumes r: "ip_ready L elems ordered n (i, b)" and e: "established i"
  shows "\<exists>s'. remote_call (in_process_ops P x) 0 1 (ser_ListServicesRequest P ()) (read_ListServicesResponse P) (i, b) =
      (Inr \<lparr>ls_services = service_listing (sv_services (ip_view n x (i, b)))\<rparr>, s') \<and> ip_ready L elems ordered n s' \<and>
    ip_view n x s' = ip_view n x (i, b)"
proof -
  have m: "(1 :: nat) < 5" "(1 :: nat) \<noteq> 0" by simp_all
  have gen: "\<forall>cd b'. basic_dispatch P x 1 cd b' =
      generated_dispatch_function (parse_ListServicesRequest P) bp_list_services (ser_ListServicesResponse P) cd b'"
    by (simp add: basic_dispatch_def)
  let ?S = "sv_subscribed (ip_view n x (i, b))"
  have "\<exists>s'. remote_call (in_process_ops P x) 0 (of_nat 1) (ser_ListServicesRequest P ()) (read_ListServicesResponse P) (i, b) =
      (Inr \<lparr>ls_services = service_listing (sv_services (ip_view n x (i, b)))\<rparr>, s') \<and> ip_ready L elems ordered n s' \<and>
    ip_view n x s' = (ip_view n x (i, b))\<lparr>sv_subscribed := ?S\<rparr>"
  proof (rule ip_reply [OF r e m gen ListServicesRequest_rt ListServicesResponse_rt])
    fix cd b0
    assume h: "handler_start elems ordered n x 0 (of_nat 1) (ser_ListServicesRequest P ()) (i, b) cd b0"
    note st = h [unfolded handler_start_def fst_conv snd_conv]
    have run: "run_ok elems ordered n b0" using st by simp
    show "\<exists>cd2 b'. bp_list_services () cd b0 = (Inr (\<lparr>ls_services = service_listing (sv_services (ip_view n x (i, b)))\<rparr>, cd2), b') \<and>
        keeps elems ordered n x (cd, b0) (cd2, b') \<and> cd_response cd2 = cd_response cd \<and>
        cd_client_established cd2 = cd_client_established cd \<and> services_good L (m_services b') \<and>
        {k. subscribed (m_client_service_cookies b') k x} = ?S"
      using st ip_readyD(5) [OF r]
      by (simp add: bp_list_services_ok [OF run] keeps_refl [OF run] ip_view_def service_listing_def)
  qed
  then show ?thesis by (simp add: ip_view_same)
qed

lemma ip_list_methods:
  assumes r: "ip_ready L elems ordered n (i, b)" and e: "established i" and k: "k < n"
  shows "\<exists>s'. remote_call (in_process_ops P x) 0 4 (ser_ListMethodsRequest P \<lparr>lq_service_ordinal = of_nat k\<rparr>) (read_ListMethodsResponse P) (i, b) =
      (Inr \<lparr>lm_error = Some NO_LIST_METHOD_ERROR, lm_methods = method_listing (sv_methods (ip_view n x (i, b)) k)\<rparr>, s') \<and>
    ip_ready L elems ordered n s' \<and> ip_view n x s' = ip_view n x (i, b)"
proof -
  have m: "(4 :: nat) < 5" "(4 :: nat) \<noteq> 0" by simp_all
  have gen: "\<forall>cd b'. basic_dispatch P x 4 cd b' =
      generated_dispatch_function (parse_ListMethodsRequest P) bp_list_methods (ser_ListMethodsResponse P) cd b'"
    by (simp add: basic_dispatch_def)
  let ?S = "sv_subscribed (ip_view n x (i, b))" and ?q = "\<lparr>lq_service_ordinal = of_nat k\<rparr>"
  let ?out = "\<lparr>lm_error = Some NO_LIST_METHOD_ERROR, lm_methods = method_listing (sv_methods (ip_view n x (i, b)) k)\<rparr>"
  have out: "\<exists>t. ser_ListMethodsResponse P ?out = Some t \<and> read_ListMethodsResponse P t = ?out"
    by (rule ListMethodsResponse_rt) simp
  have "k < 65536" using k ip_readyD(1) [OF r] by (auto dest: run_okD(3))
  then have ku: "unat (lq_service_ordinal ?q) = k" by (simp add: unat_of_nat_uint32)
  have "\<exists>s'. remote_call (in_process_ops P x) 0 (of_nat 4) (ser_ListMethodsRequest P ?q) (read_ListMethodsResponse P) (i, b) =
      (Inr ?out, s') \<and> ip_ready L elems ordered n s' \<and> ip_view n x s' = (ip_view n x (i, b))\<lparr>sv_subscribed := ?S\<rparr>"
  proof (rule ip_reply [OF r e m gen ListMethodsRequest_rt out])
    fix cd b0
    assume h: "handler_start elems ordered n x 0 (of_nat 4) (ser_ListMethodsRequest P ?q) (i, b) cd b0"
    note st = h [unfolded handler_start_def fst_conv snd_conv]
    have run: "run_ok elems ordered n b0" using st by simp
    have kn: "unat (lq_service_ordinal ?q) < n" using ku k by simp
    obtain s where s: "map_option snd (oid_abs (m_services b0) k) = Some (Some s)"
      "bp_list_methods ?q cd b0 = (Inr (\<lparr>lm_error = Some NO_LIST_METHOD_ERROR,
          lm_methods = map (\<lambda>i. \<lparr>me_service_ordinal = of_nat i,
            me_service_name = display_name (svc_dispatch_table s) i\<rparr>) [0..<method_count s]\<rparr>, cd), b0)"
      using bp_list_methods_ok [OF run kn, of cd] unfolding ku by blast
    have "sv_methods (ip_view n x (i, b)) k = map (display_name (svc_dispatch_table s)) [0..<method_count s]"
      using s(1) st by (auto simp: ip_view_def method_names_of_def table_shape_def service_shape_def method_count_def)
    then have "bp_list_methods ?q cd b0 = (Inr (?out, cd), b0)" using s(2) by (simp add: method_listing_def)
    then show "\<exists>cd2 b'. bp_list_methods ?q cd b0 = (Inr (?out, cd2), b') \<and>
        keeps elems ordered n x (cd, b0) (cd2, b') \<and> cd_response cd2 = cd_response cd \<and>
        cd_client_established cd2 = cd_client_established cd \<and> services_good L (m_services b') \<and>
        {k. subscribed (m_client_service_cookies b') k x} = ?S"
      using st ip_readyD(5) [OF r] by (simp add: keeps_refl [OF run] ip_view_def)
  qed
  then show ?thesis by (simp add: ip_view_same)
qed

lemma ip_unsubscribe:
  assumes r: "ip_ready L elems ordered n (i, b)" and e: "established i" and k: "k < n"
    and sub: "k \<in> sv_subscribed (ip_view n x (i, b))"
  shows "\<exists>s'. remote_call (in_process_ops P x) 0 3 (ser_UnsubscribeServiceRequest P \<lparr>uq_service_ordinal = of_nat k\<rparr>)
        (read_UnsubscribeServiceResponse P) (i, b) = (Inr \<lparr>us_error = Some NO_SUBSCRIBE_SERVICE_ERROR\<rparr>, s') \<and>
    ip_ready L elems ordered n s' \<and>
    ip_view n x s' = (ip_view n x (i, b))\<lparr>sv_subscribed := sv_subscribed (ip_view n x (i, b)) - {k}\<rparr>"
proof -
  have m: "(3 :: nat) < 5" "(3 :: nat) \<noteq> 0" by simp_all
  have gen: "\<forall>cd b'. basic_dispatch P x 3 cd b' = generated_dispatch_function (parse_UnsubscribeServiceRequest P)
      (bp_rpc_unsubscribe_service x) (ser_UnsubscribeServiceResponse P) cd b'"
    by (simp add: basic_dispatch_def)
  let ?q = "\<lparr>uq_service_ordinal = of_nat k\<rparr>" and ?out = "\<lparr>us_error = Some NO_SUBSCRIBE_SERVICE_ERROR\<rparr>"
  let ?S = "sv_subscribed (ip_view n x (i, b)) - {k}"
  have out: "\<exists>t. ser_UnsubscribeServiceResponse P ?out = Some t \<and> read_UnsubscribeServiceResponse P t = ?out"
    by (rule UnsubscribeServiceResponse_rt) simp
  have kb: "k < 65536" using k ip_readyD(1) [OF r] by (auto dest: run_okD(3))
  then have ku: "unat (uq_service_ordinal ?q) = k" by (simp add: unat_of_nat_uint32)
  have "\<exists>s'. remote_call (in_process_ops P x) 0 (of_nat 3) (ser_UnsubscribeServiceRequest P ?q) (read_UnsubscribeServiceResponse P) (i, b) =
      (Inr ?out, s') \<and> ip_ready L elems ordered n s' \<and> ip_view n x s' = (ip_view n x (i, b))\<lparr>sv_subscribed := ?S\<rparr>"
  proof (rule ip_reply [OF r e m gen UnsubscribeServiceRequest_rt out])
    fix cd b0
    assume h: "handler_start elems ordered n x 0 (of_nat 3) (ser_UnsubscribeServiceRequest P ?q) (i, b) cd b0"
    note st = h [unfolded handler_start_def fst_conv snd_conv]
    have "\<exists>cd2 b'. bp_rpc_unsubscribe_service x ?q cd b0 = (Inr (?out, cd2), b') \<and> client_kept L elems ordered n x (cd, b0) (cd2, b') \<and>
        {j. subscribed (m_client_service_cookies b') j x} = {j. subscribed (m_client_service_cookies b0) j x} - {k}"
      by (rule unsubscribe_effect) (use st sub ku k ip_readyD(5) [OF r] in \<open>simp_all add: ip_view_def\<close>)
    moreover have "{j. subscribed (m_client_service_cookies b0) j x} = sv_subscribed (ip_view n x (i, b))"
      using st by (simp add: ip_view_def)
    ultimately show "\<exists>cd2 b'. bp_rpc_unsubscribe_service x ?q cd b0 = (Inr (?out, cd2), b') \<and>
        keeps elems ordered n x (cd, b0) (cd2, b') \<and> cd_response cd2 = cd_response cd \<and>
        cd_client_established cd2 = cd_client_established cd \<and> services_good L (m_services b') \<and>
        {k. subscribed (m_client_service_cookies b') k x} = ?S"
      by (auto simp: client_kept_def)
  qed
  then show ?thesis by simp
qed

lemma ip_subscribe:
  fixes d :: "string option"
  assumes r: "ip_ready L elems ordered n (i, b)" and e: "established i" and k: "k < n"
    and new: "k \<notin> sv_subscribed (ip_view n x (i, b))"
  defines "call \<equiv> remote_call (in_process_ops P x) 0 2
      (ser_SubscribeServiceRequest P \<lparr>sq_service_ordinal = of_nat k, sq_subscribe_request_string = d\<rparr>)
      (read_SubscribeServiceResponse P) (i, b)"
  shows "\<exists>s' taken t. ip_ready L elems ordered n s' \<and>
    call = (Inr \<lparr>ss_error = (if taken then Some NO_SUBSCRIBE_SERVICE_ERROR else None), ss_subscribe_result_string = Some t\<rparr>, s') \<and>
    ip_view n x s' = (if taken then (ip_view n x (i, b))\<lparr>sv_subscribed := insert k (sv_subscribed (ip_view n x (i, b)))\<rparr> else ip_view n x (i, b)) \<and>
    (ip_welcomes k (sv_code (ip_view n x (i, b))) \<longrightarrow> taken \<and> t = []) \<and> (ip_refuses k (sv_code (ip_view n x (i, b))) \<longrightarrow> \<not> taken)"
proof -
  have m: "(2 :: nat) < 5" "(2 :: nat) \<noteq> 0" by simp_all
  have gen: "\<forall>cd b'. basic_dispatch P x 2 cd b' = generated_dispatch_function (parse_SubscribeServiceRequest P)
      (bp_rpc_subscribe_service x) (ser_SubscribeServiceResponse P) cd b'"
    by (simp add: basic_dispatch_def)
  let ?q = "\<lparr>sq_service_ordinal = of_nat k, sq_subscribe_request_string = d\<rparr>" and ?S = "sv_subscribed (ip_view n x (i, b))"
  let ?Q = "\<lambda>out b'. \<exists>res t. out = \<lparr>ss_error = res, ss_subscribe_result_string = Some t\<rparr> \<and>
      (res = Some NO_SUBSCRIBE_SERVICE_ERROR \<and> {j. subscribed (m_client_service_cookies b') j x} = insert k ?S \<or>
       res = None \<and> {j. subscribed (m_client_service_cookies b') j x} = ?S) \<and>
      (ip_welcomes k (sv_code (ip_view n x (i, b))) \<longrightarrow> res = Some NO_SUBSCRIBE_SERVICE_ERROR \<and> t = []) \<and>
      (ip_refuses k (sv_code (ip_view n x (i, b))) \<longrightarrow> res = None)"
  have "k < 65536" using k ip_readyD(1) [OF r] by (auto dest: run_okD(3))
  then have ku: "unat (sq_service_ordinal ?q) = k" by (simp add: unat_of_nat_uint32)
  show ?thesis
  proof (rule ip_basic [OF r e m gen SubscribeServiceRequest_rt, where read = "read_SubscribeServiceResponse P" and Q = ?Q])
    fix cd b0
    assume h: "handler_start elems ordered n x 0 (of_nat 2) (ser_SubscribeServiceRequest P ?q) (i, b) cd b0"
    note st = h [unfolded handler_start_def fst_conv snd_conv]
    have S: "{j. subscribed (m_client_service_cookies b0) j x} = ?S" using st by (simp add: ip_view_def)
    have w: "ip_welcomes k (sv_code (ip_view n x (i, b))) \<longleftrightarrow> (\<forall>nm s. oid_abs (m_services b0) k = Some (nm, Some s) \<longrightarrow> service_welcomes s)"
      "ip_refuses k (sv_code (ip_view n x (i, b))) \<longleftrightarrow> (\<exists>nm s. oid_abs (m_services b0) k = Some (nm, Some s) \<and> service_refuses s)"
      using st by (simp_all add: ip_view_def ip_welcomes_table ip_refuses_table)
    have pre: "run_ok elems ordered n b0" "services_good L (m_services b0)" "\<not> subscribed (m_client_service_cookies b0) k x"
      "\<not> ec_fails (cd_ec cd)"
      using st new ip_readyD(5) [OF r] by (simp_all add: ip_view_def)
    show "\<exists>out cd2 b'. bp_rpc_subscribe_service x ?q cd b0 = (Inr (out, cd2), b') \<and>
        keeps elems ordered n x (cd, b0) (cd2, b') \<and> cd_response cd2 = cd_response cd \<and>
        cd_client_established cd2 = cd_client_established cd \<and> services_good L (m_services b') \<and> ?Q out b'"
      using subscribe_effect [OF pre(1,2) ku k pre(3,4), unfolded S, folded w] unfolding client_kept_def fst_conv snd_conv by blast
  next
    fix out b' s'
    assume "?Q out b'" and call: "remote_call (in_process_ops P x) 0 (of_nat 2) (ser_SubscribeServiceRequest P ?q) (read_SubscribeServiceResponse P) (i, b) =
        ((case ser_SubscribeServiceResponse P out of None \<Rightarrow> Inl (RBL_INVOKER_EXCEPTION REQUEST_STRING_SERIALIZE_ERROR)
          | Some t \<Rightarrow> Inr (read_SubscribeServiceResponse P t)), s')"
      and fin: "ip_ready L elems ordered n s'"
        "ip_view n x s' = (ip_view n x (i, b))\<lparr>sv_subscribed := {k. subscribed (m_client_service_cookies b') k x}\<rparr>"
    then obtain res t where out: "out = \<lparr>ss_error = res, ss_subscribe_result_string = Some t\<rparr>"
      "res = Some NO_SUBSCRIBE_SERVICE_ERROR \<and> {j. subscribed (m_client_service_cookies b') j x} = insert k ?S \<or>
       res = None \<and> {j. subscribed (m_client_service_cookies b') j x} = ?S"
      "ip_welcomes k (sv_code (ip_view n x (i, b))) \<longrightarrow> res = Some NO_SUBSCRIBE_SERVICE_ERROR \<and> t = []"
      "ip_refuses k (sv_code (ip_view n x (i, b))) \<longrightarrow> res = None"
      by blast
    obtain u where "ser_SubscribeServiceResponse P out = Some u" "read_SubscribeServiceResponse P u = out"
      using SubscribeServiceResponse_rt by blast
    then have "call = (Inr out, s')" using call by (simp add: call_def)
    then show ?thesis
      using fin out by (intro exI [of _ s'] exI [of _ "res \<noteq> None"] exI [of _ t]) (auto simp: ip_view_same)
  qed
qed

lemma ip_subscribed:
  assumes r: "ip_ready L elems ordered n (i, b)" and e: "established i" and k: "k < n"
    and sub: "k \<in> sv_subscribed (ip_view n x (i, b))"
  shows "\<exists>s'. remote_call (in_process_ops P x) 0 2 (ser_SubscribeServiceRequest P \<lparr>sq_service_ordinal = of_nat k, sq_subscribe_request_string = d\<rparr>)
        (read_SubscribeServiceResponse P) (i, b) =
      (Inr \<lparr>ss_error = Some SERVICE_ALLREADY_SUBSCRIBED, ss_subscribe_result_string = None\<rparr>, s') \<and>
    ip_ready L elems ordered n s' \<and> ip_view n x s' = ip_view n x (i, b)"
proof -
  have m: "(2 :: nat) < 5" "(2 :: nat) \<noteq> 0" by simp_all
  have gen: "\<forall>cd b'. basic_dispatch P x 2 cd b' = generated_dispatch_function (parse_SubscribeServiceRequest P)
      (bp_rpc_subscribe_service x) (ser_SubscribeServiceResponse P) cd b'"
    by (simp add: basic_dispatch_def)
  let ?q = "\<lparr>sq_service_ordinal = of_nat k, sq_subscribe_request_string = d\<rparr>" and ?S = "sv_subscribed (ip_view n x (i, b))"
  let ?out = "\<lparr>ss_error = Some SERVICE_ALLREADY_SUBSCRIBED, ss_subscribe_result_string = None\<rparr>"
  have out: "\<exists>t. ser_SubscribeServiceResponse P ?out = Some t \<and> read_SubscribeServiceResponse P t = ?out"
    by (rule SubscribeServiceResponse_rt)
  have "k < 65536" using k ip_readyD(1) [OF r] by (auto dest: run_okD(3))
  then have ku: "unat (sq_service_ordinal ?q) = k" by (simp add: unat_of_nat_uint32)
  have "\<exists>s'. remote_call (in_process_ops P x) 0 (of_nat 2) (ser_SubscribeServiceRequest P ?q) (read_SubscribeServiceResponse P) (i, b) =
      (Inr ?out, s') \<and> ip_ready L elems ordered n s' \<and> ip_view n x s' = (ip_view n x (i, b))\<lparr>sv_subscribed := ?S\<rparr>"
  proof (rule ip_reply [OF r e m gen SubscribeServiceRequest_rt out])
    fix cd b0
    assume h: "handler_start elems ordered n x 0 (of_nat 2) (ser_SubscribeServiceRequest P ?q) (i, b) cd b0"
    note st = h [unfolded handler_start_def fst_conv snd_conv]
    have run: "run_ok elems ordered n b0" and kn: "unat (sq_service_ordinal ?q) < n"
      and sub0: "subscribed (m_client_service_cookies b0) (unat (sq_service_ordinal ?q)) x"
      using st ku k sub by (simp_all add: ip_view_def)
    obtain v where v: "bp_rpc_subscribe_service x ?q cd b0 =
        (Inr (?out, cd_assign_error RBL_BACKEND_ALLREADY_SUBSCRIBED cd), b0\<lparr>m_client_service_cookies := v\<rparr>)"
      "cookies_ok n v" "cookies_abs v = cookies_abs (m_client_service_cookies b0)"
      by (rule bp_subscribe_again [OF run kn sub0, of cd])
    then show "\<exists>cd2 b'. bp_rpc_subscribe_service x ?q cd b0 = (Inr (?out, cd2), b') \<and>
        keeps elems ordered n x (cd, b0) (cd2, b') \<and> cd_response cd2 = cd_response cd \<and>
        cd_client_established cd2 = cd_client_established cd \<and> services_good L (m_services b') \<and>
        {k. subscribed (m_client_service_cookies b') k x} = ?S"
      using st ip_readyD(5) [OF r] by (simp add: keeps_def run_ok_cookies [OF run] ip_view_def subscribed_def)
  qed
  then show ?thesis by (simp add: ip_view_same)
qed

lemma ip_names:
  assumes r: "ip_ready L elems ordered n (i, b)"
  shows "names_ok L (sv_services (ip_view n x (i, b)))" "k < n \<Longrightarrow> names_ok L (sv_methods (ip_view n x (i, b)) k)"
proof -
  note d = ip_readyD [OF r]
  have t: "dense (oid_inv elems ordered) oid_abs OidContainer_size n (m_services b)" "n \<le> 65536"
    using d(1) by (simp_all add: run_ok_def table_ok_def)
  have "named L (m_services b)" using d(5) by (simp add: services_good_def)
  then show "names_ok L (sv_services (ip_view n x (i, b)))"
    using named_display [OF t(1) _ t(2)] by (simp add: ip_view_def)
  assume "k < n"
  then obtain nm s where s: "oid_abs (m_services b) k = Some (nm, Some s)" "service_wf elems ordered s"
    using table_okD [OF run_okD(4) [OF d(1)]] by metis
  let ?t = "svc_dispatch_table s"
  have "dense (oid_inv elems ordered) oid_abs OidContainer_size (method_count s) ?t" "method_count s \<le> 65536"
    using s(2) by (auto simp: service_wf_def service_ok_def)
  moreover have "named L ?t" using d(5) s(1) unfolding services_good_def by blast
  ultimately have "names_ok L (map (display_name ?t) [0..<method_count s])" by (intro named_display)
  then show "names_ok L (sv_methods (ip_view n x (i, b)) k)"
    using s(1) by (simp add: ip_view_def method_names_of_def table_shape_def service_shape_def method_count_def)
qed

lemma ip_length [simp]: "length (sv_services (ip_view n x (i, b))) = n" "sv_established (ip_view n x (i, b)) = established i"
  by (simp_all add: ip_view_def)

end

sublocale in_process_channel \<subseteq> ipc: basic_server L elems ordered "in_process_ops P x" P "ip_ready L elems ordered n"
  "ip_view n x" ip_welcomes ip_refuses
proof unfold_locales
  fix s :: "InProcessInvoker \<times> ('ix, 'st, 'ck, 'm) BackEnd" and hr k q
  obtain i b where s: "s = (i, b)" by (cases s)
  assume r: "ip_ready L elems ordered n s"
  show "iv_is_useable (in_process_ops P x) s"
    using r by (simp add: s in_process_ops_def ip_is_useable_def is_useable_def ip_ready_def run_ok_def)
  show "names_ok L (sv_services (ip_view n x s))" using ip_names(1) r by (simp add: s)
  show "names_ok L (sv_methods (ip_view n x s) k)" if "k < length (sv_services (ip_view n x s))"
    using ip_names(2) r that by (simp add: s)
  show "\<exists>s'. remote_call (in_process_ops P x) 0 0 (ser_HelloRequest P hr) (read_HelloResponse P) s =
      (Inr \<lparr>hs_error_type = Some (hello_answer (ip_view n x s) hr)\<rparr>, s') \<and> ip_ready L elems ordered n s' \<and>
      ip_view n x s' = (ip_view n x s)\<lparr>sv_established := (hello_answer (ip_view n x s) hr = NO_HELLO_ERRORS)\<rparr>"
    if "\<not> sv_established (ip_view n x s)"
    using ip_hello r that unfolding s ip_length(2) by blast
  assume e: "sv_established (ip_view n x s)"
  show "\<exists>s'. remote_call (in_process_ops P x) 0 1 (ser_ListServicesRequest P ()) (read_ListServicesResponse P) s =
      (Inr \<lparr>ls_services = service_listing (sv_services (ip_view n x s))\<rparr>, s') \<and> ip_ready L elems ordered n s' \<and>
      ip_view n x s' = ip_view n x s"
    using ip_list_services r e unfolding s ip_length(2) by blast
  assume k: "k < length (sv_services (ip_view n x s))"
  show "\<exists>s'. remote_call (in_process_ops P x) 0 4 (ser_ListMethodsRequest P \<lparr>lq_service_ordinal = of_nat k\<rparr>) (read_ListMethodsResponse P) s =
      (Inr \<lparr>lm_error = Some NO_LIST_METHOD_ERROR, lm_methods = method_listing (sv_methods (ip_view n x s) k)\<rparr>, s') \<and>
      ip_ready L elems ordered n s' \<and> ip_view n x s' = ip_view n x s"
    using ip_list_methods r e k unfolding s ip_length by blast
  {
    assume "k \<notin> sv_subscribed (ip_view n x s)"
    then show "\<exists>s' taken r. ip_ready L elems ordered n s' \<and>
        remote_call (in_process_ops P x) 0 2 (ser_SubscribeServiceRequest P \<lparr>sq_service_ordinal = of_nat k, sq_subscribe_request_string = q\<rparr>)
            (read_SubscribeServiceResponse P) s =
          (Inr \<lparr>ss_error = (if taken then Some NO_SUBSCRIBE_SERVICE_ERROR else None), ss_subscribe_result_string = Some r\<rparr>, s') \<and>
        ip_view n x s' = (if taken then (ip_view n x s)\<lparr>sv_subscribed := insert k (sv_subscribed (ip_view n x s))\<rparr> else ip_view n x s) \<and>
        (ip_welcomes k (sv_code (ip_view n x s)) \<longrightarrow> taken \<and> r = []) \<and> (ip_refuses k (sv_code (ip_view n x s)) \<longrightarrow> \<not> taken)"
      using r e k unfolding s ip_length by (intro ip_subscribe)
  }
  assume "k \<in> sv_subscribed (ip_view n x s)"
  then show "\<exists>s'. remote_call (in_process_ops P x) 0 2 (ser_SubscribeServiceRequest P \<lparr>sq_service_ordinal = of_nat k, sq_subscribe_request_string = q\<rparr>)
            (read_SubscribeServiceResponse P) s =
          (Inr \<lparr>ss_error = Some SERVICE_ALLREADY_SUBSCRIBED, ss_subscribe_result_string = None\<rparr>, s') \<and>
        ip_ready L elems ordered n s' \<and> ip_view n x s' = ip_view n x s"
    "\<exists>s'. remote_call (in_process_ops P x) 0 3 (ser_UnsubscribeServiceRequest P \<lparr>uq_service_ordinal = of_nat k\<rparr>)
            (read_UnsubscribeServiceResponse P) s =
          (Inr \<lparr>us_error = Some NO_SUBSCRIBE_SERVICE_ERROR\<rparr>, s') \<and> ip_ready L elems ordered n s' \<and>
        ip_view n x s' = (ip_view n x s)\<lparr>sv_subscribed := sv_subscribed (ip_view n x s) - {k}\<rparr>"
    using r e k unfolding s ip_length by - (rule ip_subscribed, assumption+, rule ip_unsubscribe, assumption+)
qed

section \<open>The contract at top level\<close>

context in_process_channel
begin

lemma serves: "basic_server L elems ordered
    (in_process_ops P x :: (InProcessInvoker \<times> ('ix, 'st, 'ck, 'm) BackEnd) InvokerOps) P
    (ip_ready L elems ordered n) (ip_view n x) ip_welcomes ip_refuses"
  by (rule ipc.basic_server_axioms)

end

lemma in_process_serves:
  assumes "boost_library L elems ordered" "protobuf_codec P"
  shows "basic_server L elems ordered (in_process_ops P x :: (InProcessInvoker \<times> ('ix, 'st, 'ck, 'm) BackEnd) InvokerOps) P
    (ip_ready L elems ordered n) (ip_view n x) ip_welcomes ip_refuses"
  by (rule in_process_channel.serves [OF in_process_channel.intro [OF assms]])

section \<open>The view in terms of the backend's tables\<close>

context boost_library
begin

lemma named_entry:
  assumes "named L t" "oid_abs t k = Some (nm, e)"
  shows "name_of L (display_name t k) = nm"
proof -
  obtain s where s: "valid_name s" "nm = name_of L s" using assms unfolding named_def by blast
  then have "display_name t k = to_lower L s" using display_name_abs [OF assms(2)] takeWhile_name_of [OF s(1)] by simp
  then show ?thesis using s to_lower_valid(3) [OF s(1)] name_of_eq_iff [of "to_lower L s" s] by (simp add: to_lower_idem)
qed

lemma position_of_display:
  assumes d: "dense (oid_inv elems ordered) oid_abs OidContainer_size n t" "named L t" "n \<le> 65536"
    and e: "oid_abs t k = Some (name_of L s, e)" "valid_name s"
  shows "position_of L (map (display_name t) [0..<n]) s = Some k"
proof -
  have "k \<in> dom (oid_abs t)" using e by blast
  then have k: "k < n" using d(1) by (simp add: dense_def)
  have "display_name t k = to_lower L s" using display_name_abs [OF e(1)] takeWhile_name_of [OF e(2)] by simp
  then show ?thesis using position_of_Some [OF named_display [OF d]] k by (simp add: to_lower_idem)
qed

lemma ip_position:
  assumes "ip_ready L elems ordered n (i, b)" "oid_abs (m_services b) k = Some (name_of L s, e)" "valid_name s"
  shows "position_of L (sv_services (ip_view n x (i, b))) s = Some k"
proof -
  have "dense (oid_inv elems ordered) oid_abs OidContainer_size n (m_services b)" "named L (m_services b)" "n \<le> 65536"
    using assms(1) by (simp_all add: ip_ready_def run_ok_def table_ok_def services_good_def)
  from position_of_display [OF this assms(2,3)] show ?thesis by (simp add: ip_view_def)
qed

lemma factory_table:
  assumes "ip_ready L elems ordered n (i, b)"
    "tabled L elems ordered (sv_services (ip_view n x (i, b))) (\<lambda>_. None) c"
  shows "oid_abs c = (\<lambda>k. map_option (\<lambda>(nm, s). (nm, None)) (oid_abs (m_services b) k))"
proof
  fix k
  have d: "dom (oid_abs (m_services b)) = {..<n}" "named L (m_services b)" "dom (oid_abs c) = {..<n}"
    using assms by (simp_all add: ip_ready_def run_ok_def table_ok_def services_good_def dense_def tabled_def ip_view_def)
  show "oid_abs c k = map_option (\<lambda>(nm, s). (nm, None)) (oid_abs (m_services b) k)"
  proof (cases "k < n")
    case True
    then have "k \<in> dom (oid_abs (m_services b))" using d(1) by simp
    then obtain nm e where e: "oid_abs (m_services b) k = Some (nm, e)" unfolding dom_def by auto
    moreover have "oid_abs c k = Some (name_of L (display_name (m_services b) k), None)"
      using assms(2) True by (simp add: tabled_def ip_view_def)
    ultimately show ?thesis using named_entry [OF d(2) e] by simp
  next
    case False
    then have "oid_abs c k = None" "oid_abs (m_services b) k = None" using d(1,3) by (blast, blast)
    then show ?thesis by simp
  qed
qed

end

lemma mapped_ordinal_value:
  "mapped_ordinal L ns' ns i = (case position_of L ns' (ns ! i) of None \<Rightarrow> 65535 | Some j \<Rightarrow> of_nat j)"
  by (simp add: mapped_ordinal_def split: option.split)

lemma ip_service:
  assumes "oid_abs (m_services b) k = Some (nm, Some s)"
  shows "ip_welcomes k (sv_code (ip_view n x (i, b))) = service_welcomes s"
    "ip_refuses k (sv_code (ip_view n x (i, b))) = service_refuses s" "sv_methods (ip_view n x (i, b)) k = method_names_of (m_services b) k"
    "k \<in> sv_subscribed (ip_view n x (i, b)) \<longleftrightarrow> subscribed (m_client_service_cookies b) k x"
    "length (sv_services (ip_view n x (i, b))) = n" "sv_established (ip_view n x (i, b)) = established i"
  using assms by (simp_all add: ip_welcomes_table ip_refuses_table ip_view_def)

end
