(* ===== verification/Client_Instances.thy ===== *)
theory Client_Instances
  imports In_Process_Channel System
begin

text \<open>
  A concrete client: an in-process invoker just created on the backend of \<open>Concrete_Instances\<close>, with the reference
  encoding of the messages. The state satisfies what the properties of the client's side assume.
\<close>

section \<open>Services that are registered keep the names they were made from\<close>

lemma services_good_update:
  assumes "services_good L t" "oid_abs t' = (oid_abs t)(n \<mapsto> (name_of L nm, Some s))" "valid_name nm"
    "named L (svc_dispatch_table s)" "service_polite s"
  shows "services_good L t'"
  using assms unfolding services_good_def named_def by (simp split: if_splits) blast

context boost_library
begin

lemma service_named_table:
  assumes "service_ok elems ordered (length ms) s" "\<forall>m \<in> set ms. valid_name m"
    "\<And>i. i < length ms \<Longrightarrow> oid_abs (svc_dispatch_table s) i = Some (name_of L (ms ! i), Some i)"
  shows "named L (svc_dispatch_table s)"
  unfolding named_def
proof (intro allI impI)
  fix i nm e assume e: "oid_abs (svc_dispatch_table s) i = Some (nm, e)"
  then have "i \<in> dom (oid_abs (svc_dispatch_table s))" by blast
  then have "i < length ms" using assms(1) by (simp add: service_ok_def dense_def)
  then show "\<exists>s. valid_name s \<and> nm = name_of L s"
    using assms(3) [of i] e assms(2) by (intro exI [of _ "ms ! i"]) simp
qed

lemma BackEnd_new_good:
  fixes b :: "('ix, 'st, 'ck, 'm) BackEnd"
  assumes "BackEnd_new L src dst = (Inr (), b)"
  shows "services_good L (m_services b)"
proof -
  obtain b' :: "('ix, 'st, 'ck, 'm) BackEnd" and s where b': "BackEnd_new L src dst = (Inr (), b')" "fresh_ok elems ordered 1 b'"
    "oid_abs (m_services b') = [0 \<mapsto> (name_of L ''basic_protocol'', Some s)]" "svc_impl s = BasicProtocolImpl" "method_count s = 5"
    "\<And>i. i < 5 \<Longrightarrow> oid_abs (svc_dispatch_table s) i = Some (name_of L (bp_names ! i), Some i)"
    by (rule BackEnd_new_ok [of src dst]) blast
  have len: "length bp_names = 5" by (simp add: basic_protocol_descriptor_def)
  have "table_ok elems ordered 1 (m_services b')" using b'(2) by (simp add: fresh_ok_def)
  then have "service_wf elems ordered s" using table_okD [of elems ordered 1 "m_services b'" 0] b'(3) by auto
  then have "service_ok elems ordered (length bp_names) s"
    using b'(4,5) len by (simp add: service_wf_def)
  then have "named L (svc_dispatch_table s)"
    by (rule service_named_table) (use b'(6) bp_names_ok len in \<open>simp_all add: names_ok_def\<close>)
  moreover have "valid_name ''basic_protocol''" by (simp add: valid_name_code)
  ultimately have "services_good L (m_services b')"
    using b'(3,4) by (auto simp: services_good_def named_def service_polite_def split: if_splits)
  with assms b'(1) show ?thesis by simp
qed

end

section \<open>The concrete client\<close>

definition demo_link :: "InProcessInvoker \<times> demo_backend" where
  "demo_link = (fresh_invoker, upd_sync (sig_connect 7) (BackEnd_connect 7 backend_2))"

lemma demo_link_new: "InProcessInvoker_new 7 backend_2 = (Inr (), demo_link)"
  by (simp add: InProcessInvoker_new_def register_invoker_manager_def ip_connect_to_backend_def fresh_invoker_def
      InProcessInvoker_members_def demo_link_def)

lemma echo_impl_polite: "impl_polite echo_impl" "impl_welcomes echo_impl"
  by (simp_all add: impl_polite_def impl_welcomes_def echo_impl_def)

lemma echo_table:
  "dense (oid_inv set lst_ordered) oid_abs OidContainer_size 1 (svc_dispatch_table echo_service)"
  "oid_abs (svc_dispatch_table echo_service) 0 = Some (name_of list_boost ''echo'', Some 0)"
  "named list_boost (svc_dispatch_table echo_service)"
proof -
  let ?sd = "\<lparr>sd_name = ''echo'', sd_methods = [''echo'']\<rparr>"
  have "descriptor_ok list_boost ?sd" by (simp add: descriptor_ok_def valid_name_code)
  then obtain s :: demo_service where s: "create_constructor list_boost ?sd (Linked echo_impl) = Inr s" "service_ok set lst_ordered 1 s"
    "oid_abs (svc_dispatch_table s) 0 = Some (name_of list_boost ''echo'', Some 0)"
    by (rule lst.create_constructor_ok [of ?sd "Linked echo_impl"]) simp
  then have e: "echo_service = s" by (simp add: echo_service_def service_named_def)
  show "dense (oid_inv set lst_ordered) oid_abs OidContainer_size 1 (svc_dispatch_table echo_service)"
    "oid_abs (svc_dispatch_table echo_service) 0 = Some (name_of list_boost ''echo'', Some 0)"
    using s(2,3) by (simp_all add: e service_ok_def)
  show "named list_boost (svc_dispatch_table echo_service)"
    using lst.service_named_table [of "[''echo'']" echo_service] s(2,3) by (simp add: e valid_name_code)
qed

lemma backend_2_good: "services_good list_boost (m_services backend_2)"
proof -
  have "services_good list_boost (m_services backend_0)" by (rule lst.BackEnd_new_good [OF backend_0_ok(1)])
  moreover have "oid_abs (m_services backend_2) =
      (oid_abs (m_services backend_0))(1 \<mapsto> (name_of list_boost ''echo'', Some echo_service))"
    by (rule backend_2_table)
  ultimately show ?thesis
    by (rule services_good_update)
      (simp_all add: valid_name_code echo_table service_polite_def echo_service_ok echo_impl_polite)
qed

lemma demo_backend_simps [simp]:
  "m_services (snd demo_link) = m_services backend_2" "fst demo_link = fresh_invoker"
  "m_client_service_cookies (snd demo_link) = m_client_service_cookies backend_2"
  "m_source_type (snd demo_link) = SOURCE_GENERATOR" "m_backend_type (snd demo_link) = TARGET_RELAY"
  by (simp_all add: demo_link_def upd_sync_def BackEnd_connect_def backend_2_types)

lemma demo_invoker: "client_idle fresh_invoker" "\<not> established fresh_invoker"
  by (simp_all add: client_idle_def fresh_invoker_def InProcessInvoker_members_def InvokerBase_new_def ClientData_new_def)

lemma demo_ready: "ip_ready list_boost set lst_ordered 2 demo_link"
  using backend_2_ok(2,3) backend_2_good demo_invoker(1)
  by (simp add: demo_link_def ip_ready_def run_ok_def upd_sync_def BackEnd_connect_def sync_defs)

interpretation dc: in_process_channel list_boost set lst_ordered reference_protobuf n x for n x
  by unfold_locales

declare dc.ip_length [simp del]

section \<open>A factory on the concrete client, and a stub\<close>

definition demo_ops :: "(InProcessInvoker \<times> demo_backend) InvokerOps" where
  "demo_ops = in_process_ops reference_protobuf 7"

definition demo_built :: "(exn, nat list ServiceClientFactory, InProcessInvoker \<times> demo_backend) sres" where
  "demo_built = ServiceClientFactory_new list_boost reference_protobuf demo_ops ''node'' SOURCE_GENERATOR TARGET_RELAY demo_link"

definition demo_session :: "nat list ServiceClientFactory \<times> InProcessInvoker \<times> demo_backend" where
  "demo_session = (projr (fst demo_built), snd demo_built)"

definition echo_descriptor :: ServiceDescriptor where
  "echo_descriptor = \<lparr>sd_name = ''echo'', sd_methods = [''shout'', ''Echo'']\<rparr>"

lemma demo_view:
  "sv_source (ip_view 2 7 demo_link) = SOURCE_GENERATOR" "sv_target (ip_view 2 7 demo_link) = TARGET_RELAY"
  "\<not> sv_established (ip_view 2 7 demo_link)" "sv_subscribed (ip_view 2 7 demo_link) = {}"
  by (simp_all add: ip_view_def demo_link_def upd_sync_def BackEnd_connect_def backend_2_types backend_2_ok(5) subscribed_def
      demo_invoker(2))

lemma demo_session_ok:
  obtains f i b where "demo_built = (Inr f, (i, b))" "demo_session = (f, (i, b))" "ip_ready list_boost set lst_ordered 2 (i, b)"
    "ip_view 2 7 (i, b) = (ip_view 2 7 demo_link)\<lparr>sv_established := True\<rparr>" "factory_ok list_boost set lst_ordered (ip_view 2 7 (i, b)) (\<lambda>_. None) f"
proof -
  have "hello_answer (ip_view 2 7 demo_link) \<lparr>hq_source_type = SOURCE_GENERATOR, hq_expected_target = TARGET_RELAY, hq_node_name = ''node''\<rparr> =
      NO_HELLO_ERRORS"
    using demo_view by (simp add: hello_answer_def)
  then obtain f w where w: "demo_built = (Inr f, w)" "ip_ready list_boost set lst_ordered 2 w"
    "ip_view 2 7 w = (ip_view 2 7 demo_link)\<lparr>sv_established := True\<rparr>" "factory_ok list_boost set lst_ordered (ip_view 2 7 w) (\<lambda>_. None) f"
    unfolding demo_built_def demo_ops_def by (rule basic_server.factory_new [OF dc.serves demo_ready demo_view(3)])
  obtain i b where ib: "w = (i, b)" by (cases w)
  have "demo_session = (f, (i, b))" unfolding demo_session_def w(1) ib by simp
  with w show ?thesis unfolding ib by (intro that)
qed

lemma demo_lower: "to_lower list_boost ''echo'' = ''echo''" "to_lower list_boost ''Echo'' = ''echo''" "to_lower list_boost ''shout'' = ''shout''"
  by code_simp+

lemma demo_methods: "method_names_of (m_services backend_2) 1 = [''echo'']"
proof -
  let ?t = "svc_dispatch_table echo_service"
  have len: "OidContainer_size ?t = 1" using echo_table(1) by (simp add: dense_def)
  have "valid_name ''echo''" by (simp add: valid_name_code)
  then have "display_name ?t 0 = to_lower list_boost ''echo''"
    using display_name_abs [OF echo_table(2)] lst.takeWhile_name_of by simp
  then have "display_name ?t 0 = ''echo''" by (simp add: demo_lower)
  then show ?thesis using backend_2_ok(4) len by (simp add: method_names_of_def table_shape_def service_shape_def)
qed

lemma echo_descriptor_ok:
  "names_ok list_boost (sd_methods echo_descriptor)" "knows_methods list_boost [''echo''] (sd_methods echo_descriptor)"
  "position_of list_boost [''echo''] (sd_methods echo_descriptor ! 0) = None" "position_of list_boost [''echo''] (sd_methods echo_descriptor ! 1) = Some 0"
  by (simp_all add: echo_descriptor_def names_ok_def knows_methods_def position_of_def valid_name_code demo_lower upt_rec)

lemma demo_entry:
  fixes b :: demo_backend
  assumes "table_shape (m_services b) = table_shape (m_services backend_2)"
  obtains s where "oid_abs (m_services b) 1 = Some (name_of list_boost ''echo'', Some s)" "svc_impl s = Linked echo_impl"
    "service_welcomes s" "method_count s = 1" "method_names_of (m_services b) 1 = [''echo'']"
proof -
  have "table_shape (m_services b) 1 = Some (name_of list_boost ''echo'', Some (service_shape echo_service))"
    using assms backend_2_ok(4) by (simp add: table_shape_def)
  then obtain s where s: "oid_abs (m_services b) 1 = Some (name_of list_boost ''echo'', Some s)" "service_shape s = service_shape echo_service"
    by (auto simp: table_shape_def)
  then have code: "impl_code s = impl_code echo_service" "method_count s = 1"
    using echo_service_ok(4) by (simp_all add: service_shape_def method_count_def)
  obtain u where u: "svc_impl s = Linked u" "(\<lambda>st. u\<lparr>u_state := st\<rparr>) = (\<lambda>st. echo_impl\<lparr>u_state := st\<rparr>)"
    using code(1) echo_service_ok(3) by (cases "svc_impl s") (simp_all add: impl_code_def)
  have "u = echo_impl" using fun_cong [OF u(2), of "()"] by (cases u) (simp add: echo_impl_def)
  with s(1) u(1) show ?thesis
    using code(2) method_names_shape [OF assms] demo_methods by (intro that [of s]) (simp_all add: service_welcomes_def echo_impl_polite)
qed

lemma demo_entry_any_case:
  fixes b :: demo_backend
  assumes "table_shape (m_services b) = table_shape (m_services backend_2)"
  obtains s where "oid_abs (m_services b) 1 = Some (name_of list_boost ''Echo'', Some s)" "svc_impl s = Linked echo_impl"
    "service_welcomes s" "method_count s = 1" "method_names_of (m_services b) 1 = [''echo'']"
proof -
  have "name_of list_boost ''Echo'' = name_of list_boost ''echo''"
    using lst.name_of_eq_iff [of "''Echo''" "''echo''"] by (simp add: valid_name_code demo_lower)
  with demo_entry [OF assms] show ?thesis using that by metis
qed

lemma demo_session_state:
  obtains f i b s where "demo_session = (f, (i, b))" "ip_ready list_boost set lst_ordered 2 (i, b)"
    "factory_ok list_boost set lst_ordered (ip_view 2 7 (i, b)) (\<lambda>_. None) f" "established i"
    "\<not> subscribed (m_client_service_cookies b) 1 7" "table_shape (m_services b) = table_shape (m_services backend_2)"
    "oid_abs (m_services b) 1 = Some (name_of list_boost ''Echo'', Some s)" "service_welcomes s" "method_names_of (m_services b) 1 = [''echo'']"
proof -
  obtain f i b where d: "demo_session = (f, (i, b))" "ip_ready list_boost set lst_ordered 2 (i, b)"
    "ip_view 2 7 (i, b) = (ip_view 2 7 demo_link)\<lparr>sv_established := True\<rparr>" "factory_ok list_boost set lst_ordered (ip_view 2 7 (i, b)) (\<lambda>_. None) f"
    by (rule demo_session_ok)
  have "sv_established (ip_view 2 7 (i, b))" "sv_subscribed (ip_view 2 7 (i, b)) = {}"
    "sv_code (ip_view 2 7 (i, b)) = sv_code (ip_view 2 7 demo_link)"
    using demo_view unfolding d(3) by simp_all
  then have e: "established i" "\<not> subscribed (m_client_service_cookies b) 1 7" "table_shape (m_services b) = table_shape (m_services backend_2)"
    by (simp_all add: ip_view_def demo_link_def BackEnd_connect_def)
  obtain s where "oid_abs (m_services b) 1 = Some (name_of list_boost ''Echo'', Some s)"
    "service_welcomes s" "method_names_of (m_services b) 1 = [''echo'']"
    by (rule demo_entry_any_case [OF e(3)])
  with d(1,2,4) e show ?thesis by (intro that)
qed

text \<open>The concrete client after it subscribed to the service.\<close>

definition demo_subscriber :: "nat list ServiceClientFactory \<times> InProcessInvoker \<times> demo_backend" where
  "demo_subscriber = snd (subscribe_service list_boost reference_protobuf demo_ops echo_descriptor ''Echo'' None False demo_session)"

lemma demo_subscriber_state:
  obtains c f i b where "demo_subscriber = (f, (i, b))" "ip_ready list_boost set lst_ordered 2 (i, b)"
    "factory_ok list_boost set lst_ordered (ip_view 2 7 (i, b)) ((\<lambda>_. None)(1 := Some c)) f" "established i"
    "subscribed (m_client_service_cookies b) 1 7" "table_shape (m_services b) = table_shape (m_services backend_2)"
    "stub_for list_boost set lst_ordered [''echo''] (sd_methods echo_descriptor) 1 c"
proof -
  obtain f i b s where d: "demo_session = (f, (i, b))" "ip_ready list_boost set lst_ordered 2 (i, b)"
    "factory_ok list_boost set lst_ordered (ip_view 2 7 (i, b)) (\<lambda>_. None) f" "established i"
    "\<not> subscribed (m_client_service_cookies b) 1 7" "table_shape (m_services b) = table_shape (m_services backend_2)"
    "oid_abs (m_services b) 1 = Some (name_of list_boost ''Echo'', Some s)" "service_welcomes s" "method_names_of (m_services b) 1 = [''echo'']"
    by (rule demo_session_state)
  note v = ip_service [OF d(7)]
  have pre: "sv_established (ip_view 2 7 (i, b))" "length (sv_services (ip_view 2 7 (i, b))) < 65536"
    "1 \<notin> sv_subscribed (ip_view 2 7 (i, b))" "knows_methods list_boost (sv_methods (ip_view 2 7 (i, b)) 1) (sd_methods echo_descriptor)"
    "valid_name ''Echo''" "ip_welcomes 1 (sv_code (ip_view 2 7 (i, b)))"
    using d(4,5,8,9) v echo_descriptor_ok(2) by (simp_all add: valid_name_code)
  obtain c r f' w where w: "subscribe_service list_boost reference_protobuf demo_ops echo_descriptor ''Echo'' None False demo_session = (Inr (1, r), (f', w))"
    "ip_ready list_boost set lst_ordered 2 w"
    "ip_view 2 7 w = (ip_view 2 7 (i, b))\<lparr>sv_subscribed := insert 1 (sv_subscribed (ip_view 2 7 (i, b)))\<rparr>"
    "factory_ok list_boost set lst_ordered (ip_view 2 7 w) ((\<lambda>_. None)(1 := Some c)) f'"
    "stub_for list_boost set lst_ordered (sv_methods (ip_view 2 7 (i, b)) 1) (sd_methods echo_descriptor) 1 c"
    unfolding d(1) demo_ops_def
    by (rule basic_server.subscribe_cases [OF dc.serves d(2) pre(1) d(3) pre(5) lst.ip_position [OF d(2,7) pre(5)] pre(2) refl pre(3)
          echo_descriptor_ok(1) pre(4), where req = None and res_data = False]) (use pre(6) in auto)
  obtain i' b' where ib: "w = (i', b')" by (cases w)
  have "established i'" "subscribed (m_client_service_cookies b') 1 7" "table_shape (m_services b') = table_shape (m_services backend_2)"
    using w(3) d(4,6) unfolding ib by (auto simp: ip_view_def)
  moreover have "demo_subscriber = (f', (i', b'))" unfolding demo_subscriber_def w(1) ib by simp
  ultimately show ?thesis using w(2,4,5) d(9) v(3) unfolding ib by (intro that [of f' i' b' c]) simp_all
qed

end
