(* ===== verification/Client_Properties.thy ===== *)
theory Client_Properties
  imports Client_Instances
begin

text \<open>
  The properties of the client's side, over an in-process invoker: the factory mirrors the backend's services,
  a stub reaches the methods of its service by name, and what goes wrong.
\<close>

section \<open>Properties\<close>

lemma hello_answer_match:
  "hello_answer (ip_view n x (i, b)) \<lparr>hq_source_type = src, hq_expected_target = dst, hq_node_name = name\<rparr> = NO_HELLO_ERRORS \<longleftrightarrow>
     m_backend_type b = dst \<and> m_source_type b = src"
  by (simp add: hello_answer_def ip_view_def)

text \<open>
  C20: Refinement: constructing a factory on an idle in-process invoker whose client is not established, at a backend that
  accepts requests. If the types the client states are those of the backend, the constructor succeeds, the client is established,
  and the factory's table of services is the backend's table, ordinal by ordinal and name by name, with no stub in any entry;
  otherwise it throws a bare \<open>BackEndException\<close>, and the client stays not established. Nothing else that a client
  sees of the backend changes.
\<close>
theorem factory_mirrors_backend:
  fixes b :: "('ix, 'st, 'ck, 'm) BackEnd"
  assumes "boost_library L elems ordered" "protobuf_codec P" "ip_ready L elems ordered n (i, b)" "\<not> established i"
  shows "\<exists>r i' b'. ServiceClientFactory_new L P (in_process_ops P x) name src dst (i, b) = (r, (i', b')) \<and>
    ip_ready L elems ordered n (i', b') \<and>
    ip_view n x (i', b') = (ip_view n x (i, b))\<lparr>sv_established := (m_backend_type b = dst \<and> m_source_type b = src)\<rparr> \<and>
    (case r of
       Inl e \<Rightarrow> \<not> (m_backend_type b = dst \<and> m_source_type b = src) \<and> e = bare_BackEndException
     | Inr f \<Rightarrow> m_backend_type b = dst \<and> m_source_type b = src \<and> factory_ok L elems ordered (ip_view n x (i', b')) (\<lambda>_. None) f \<and>
         service_count f = of_nat n \<and>
         oid_abs (m_client_services f) = (\<lambda>k. map_option (\<lambda>(nm, s). (nm, None)) (oid_abs (m_services b) k)))"
proof -
  note srv = in_process_serves [OF assms(1,2), where x = x and n = n]
  have ne: "\<not> sv_established (ip_view n x (i, b))" using assms(4) by (simp add: ip_view_def)
  show ?thesis
  proof (cases "m_backend_type b = dst \<and> m_source_type b = src")
    case True
    obtain f w where f: "ServiceClientFactory_new L P (in_process_ops P x) name src dst (i, b) = (Inr f, w)"
      "ip_ready L elems ordered n w" "ip_view n x w = (ip_view n x (i, b))\<lparr>sv_established := True\<rparr>"
      "factory_ok L elems ordered (ip_view n x w) (\<lambda>_. None) f"
      by (rule basic_server.factory_new [OF srv assms(3) ne hello_answer_match [THEN iffD2, OF True]])
    obtain i' b' where w: "w = (i', b')" by (cases w)
    have tab: "tabled L elems ordered (sv_services (ip_view n x (i, b))) (\<lambda>_. None) (m_client_services f)"
      using f(3,4) by (simp add: factory_ok_def)
    have "service_count f = of_nat n" using tabled_size [OF tab] by (simp add: service_count_def ip_view_def)
    then show ?thesis
      using f True boost_library.factory_table [OF assms(1,3) tab] unfolding w by (intro exI conjI) (assumption, simp_all)
  next
    case False
    obtain w where f: "ServiceClientFactory_new L P (in_process_ops P x) name src dst (i, b) = (Inl bare_BackEndException, w)"
      "ip_ready L elems ordered n w" "ip_view n x w = ip_view n x (i, b)"
      by (rule basic_server.factory_refused [OF srv assms(3) ne]) (use False hello_answer_match in blast)
    obtain i' b' where w: "w = (i', b')" by (cases w)
    have same: "ip_view n x (i, b) = (ip_view n x (i, b))\<lparr>sv_established := (m_backend_type b = dst \<and> m_source_type b = src)\<rparr>"
      using ne False by (cases "ip_view n x (i, b)") auto
    show ?thesis
      using f(1,2) False trans [OF f(3) same] unfolding w by (intro exI conjI) (assumption, assumption, assumption, simp)
  qed
qed

theorem factory_mirrors_backend_witness:
  "(\<exists>f w. ServiceClientFactory_new list_boost reference_protobuf (in_process_ops reference_protobuf 7) ''node'' SOURCE_GENERATOR TARGET_RELAY
      demo_link = (Inr f, w) \<and> established (fst w) \<and> service_count f = 2 \<and>
      oid_abs (m_client_services f) 1 = Some (name_of list_boost ''echo'', None)) \<and>
   (\<exists>w. ServiceClientFactory_new list_boost reference_protobuf (in_process_ops reference_protobuf 7) ''node'' SOURCE_RELAY TARGET_RELAY
      demo_link = (Inl bare_BackEndException :: (exn, nat list ServiceClientFactory) res, w) \<and> \<not> established (fst w))"
proof -
  obtain i b where link: "demo_link = (i, b)" by (cases demo_link)
  note d = demo_ready [unfolded link] demo_backend_simps [unfolded link fst_conv snd_conv] demo_invoker
  have est: "\<not> established i" using d by simp
  note fac = factory_mirrors_backend [OF lst.boost_library_axioms reference_codec d(1) est, where x = 7 and name = "''node''"]
  obtain r i1 b1 where r: "ServiceClientFactory_new list_boost reference_protobuf (in_process_ops reference_protobuf 7) ''node''
      SOURCE_GENERATOR TARGET_RELAY (i, b) = (r, (i1, b1))"
    "sv_established (ip_view 2 7 (i1, b1))" "case r of Inl e \<Rightarrow> False | Inr f \<Rightarrow> service_count f = 2 \<and>
       oid_abs (m_client_services f) = (\<lambda>k. map_option (\<lambda>(nm, s). (nm, None)) (oid_abs (m_services backend_2) k))"
    using fac [of SOURCE_GENERATOR TARGET_RELAY] d(5,6) by (elim exE conjE) (simp add: d(2) split: sum.splits)
  obtain q i2 b2 where q: "ServiceClientFactory_new list_boost reference_protobuf (in_process_ops reference_protobuf 7) ''node''
      SOURCE_RELAY TARGET_RELAY (i, b) = (q :: (exn, nat list ServiceClientFactory) res, (i2, b2))"
    "\<not> sv_established (ip_view 2 7 (i2, b2))" "case q of Inl e \<Rightarrow> e = bare_BackEndException | Inr f \<Rightarrow> False"
    using fac [of SOURCE_RELAY TARGET_RELAY] d(5,6) by (elim exE conjE) (simp add: d(2) split: sum.splits)
  show ?thesis
    using r q backend_2_ok(4) unfolding link by (cases r; cases q) (auto simp: ip_view_def)
qed




text \<open>
  C38: Unsubscribing ends the subscription on both sides, and makes the service unreachable for this factory for good: the
  entry of the service keeps its stub, so \<open>get_service\<close> still hands it out, and every later \<open>subscribe_service\<close> for that name throws without asking
  the server, whatever state the server is in.
\<close>
theorem resubscription_impossible:
  fixes b :: "('ix, 'st, 'ck, 'm) BackEnd"
  assumes "boost_library L elems ordered" "protobuf_codec P" "ip_ready L elems ordered n (i, b)" "established i"
    "factory_ok L elems ordered (ip_view n x (i, b)) stubs f" "n < 65536"
    "oid_abs (m_services b) k = Some (name_of L nm, Some s)" "valid_name nm"
    "stubs k = Some c" "subscribed (m_client_service_cookies b) k x"
  shows "\<exists>f' i' b'. unsubscribe_service L P (in_process_ops P x) nm (f, (i, b)) = (Inr (), (f', (i', b'))) \<and>
    ip_ready L elems ordered n (i', b') \<and> \<not> subscribed (m_client_service_cookies b') k x \<and>
    factory_ok L elems ordered (ip_view n x (i', b')) (stubs(k := Some (set_is_subscribed False c))) f' \<and>
    get_service L nm f' = Inr k \<and>
    (\<forall>sd req res_data (w :: InProcessInvoker \<times> ('ix, 'st, 'ck, 'm) BackEnd).
       subscribe_service L P (in_process_ops P x) sd nm req res_data (f', w) = (Inl bare_BackEndException, (f', w)))"
proof -
  note srv = in_process_serves [OF assms(1,2), where x = x and n = n]
  note v = ip_service [OF assms(7)]
  have pre: "sv_established (ip_view n x (i, b))" "length (sv_services (ip_view n x (i, b))) < 65536" "k \<in> sv_subscribed (ip_view n x (i, b))"
    using assms(4,6,10) v by simp_all
  note pos = boost_library.ip_position [OF assms(1,3,7,8), where x = x]
  obtain f' w' where w: "unsubscribe_service L P (in_process_ops P x) nm (f, (i, b)) = (Inr (), (f', w'))" "ip_ready L elems ordered n w'"
    "ip_view n x w' = (ip_view n x (i, b))\<lparr>sv_subscribed := sv_subscribed (ip_view n x (i, b)) - {k}\<rparr>"
    "factory_ok L elems ordered (ip_view n x w') (stubs(k := Some (set_is_subscribed False c))) f'"
    by (rule basic_server.unsubscribe_ok [OF srv assms(3) pre(1) assms(5,8) pos pre(2) assms(9) pre(3)])
  have names: "names_ok L (sv_services (ip_view n x w'))" by (rule basic_server.service_names [OF srv w(2)])
  have at: "position_of L (sv_services (ip_view n x w')) nm = Some k" "length (sv_services (ip_view n x w')) < 65536"
    using pos pre(2) unfolding w(3) by simp_all
  note occ = boost_library.subscribe_occupied [OF assms(1) w(4) names assms(8) at]
  have "get_service L nm f' = Inr k" using boost_library.get_service_ok [OF assms(1) w(4) names assms(8) at] by simp
  moreover obtain i' b' where ib: "w' = (i', b')" by (cases w')
  moreover have "\<not> subscribed (m_client_service_cookies b') k x" using w(3) unfolding ib by (simp add: ip_view_def set_eq_iff)
  ultimately show ?thesis using w(1,2,4) occ unfolding ib by (intro exI conjI allI) (assumption | simp)+
qed

theorem resubscription_impossible_witness:
  "\<exists>f w. unsubscribe_service list_boost reference_protobuf (in_process_ops reference_protobuf 7) ''Echo'' demo_subscriber = (Inr (), (f, w)) \<and>
     get_service list_boost ''Echo'' f = Inr 1 \<and>
     subscribe_service list_boost reference_protobuf (in_process_ops reference_protobuf 7) echo_descriptor ''Echo'' None False (f, w) =
       (Inl bare_BackEndException, (f, w))"
proof -
  obtain c f i b where d: "demo_subscriber = (f, (i, b))" "ip_ready list_boost set lst_ordered 2 (i, b)"
    "factory_ok list_boost set lst_ordered (ip_view 2 7 (i, b)) ((\<lambda>_. None)(1 := Some c)) f" "established i"
    "subscribed (m_client_service_cookies b) 1 7" "table_shape (m_services b) = table_shape (m_services backend_2)"
    by (rule demo_subscriber_state)
  obtain s where "oid_abs (m_services b) 1 = Some (name_of list_boost ''Echo'', Some s)" by (rule demo_entry_any_case [OF d(6)])
  from resubscription_impossible [OF lst.boost_library_axioms reference_codec d(2,4,3) _ this _ _ d(5)]
  show ?thesis unfolding d(1) by (fastforce simp: valid_name_code)
qed

lemma method_names_length:
  assumes "oid_abs t k = Some (nm, Some s)"
  shows "length (method_names_of t k) = method_count s"
  using assms by (simp add: method_names_of_def table_shape_def service_shape_def method_count_def)

text \<open>
  C19: Equivalence: an established client calls a method of a service that it is subscribed to, through the stub its factory
  made and an in-process invoker. If the server has a method of that name, the caller gets what calling the implementation directly
  gives - the response it computes, or the exception for an argument that cannot be parsed, a response that cannot be encoded, or
  the error the method reported - and the state of the service and of the client's cookie are those the direct call leaves;
  the client can call again, and no other service changes. If the server has no method of that name, the caller gets the exception for an
  unknown function, and nothing happens on the server.
\<close>
theorem stub_call_is_direct_call:
  fixes b :: "('ix, 'st, 'ck, 'm) BackEnd"
  assumes "boost_library L elems ordered" "run_ok elems ordered n b" "is_accepting_requests (m_synchronised_state b)" "client_idle i" "established i"
    "oid_abs (m_services b) k = Some (nm, Some s)" "svc_impl s = Linked u" "method_count s < 65536"
    "cookies_abs (m_client_service_cookies b) (k, x) = Some cc" "is_subscribed cc"
    "stub_for L elems ordered (method_names_of (m_services b) k) ns k c" "m < length ns" "length ns \<le> 65536"
  shows "case position_of L (method_names_of (m_services b) k) (ns ! m) of
      Some j \<Rightarrow>
        \<exists>cd r st cc' i' b'.
          cd_request cd = \<lparr>cr_service_ordinal = Some (of_nat k), cr_request_ordinal = Some (of_nat j), cr_request_string = Some q\<rparr> \<and>
          cd_response cd = \<lparr>cs_response_string = None, cs_error = Some REQUEST_SUCCESS\<rparr> \<and> cd_client_established cd \<and>
          direct_call u j cc cd q read = (r, st, cc') \<and>
          stub_call (in_process_ops P x) c (of_nat m) q read (i, b) = (r, (i', b')) \<and>
          client_idle i' \<and> run_ok elems ordered n b' \<and> m_synchronised_state b' = m_synchronised_state b \<and>
          oid_abs (m_services b') = (oid_abs (m_services b))(k \<mapsto> (nm, Some (s\<lparr>svc_impl := Linked (u\<lparr>u_state := st\<rparr>)\<rparr>))) \<and>
          cookies_abs (m_client_service_cookies b') (k, x) = Some cc'
    | None \<Rightarrow>
        \<exists>i' b'. stub_call (in_process_ops P x) c (of_nat m) q read (i, b) =
            (Inl (RBL_INVOKER_EXCEPTION REQUEST_NO_FUNCTION_WITH_ORDINAL), (i', b')) \<and>
          client_idle i' \<and> run_ok elems ordered n b' \<and> m_services b' = m_services b \<and> m_synchronised_state b' = m_synchronised_state b"
proof -
  have tab: "table_ok elems ordered n (m_services b)" "n \<le> 65536" by (rule run_okD [OF assms(2)])+
  have "k \<in> dom (oid_abs (m_services b))" using assms(6) by blast
  then have kn: "k < n" using tab(1) by (simp add: table_ok_def dense_def)
  then obtain nm' s1 where "oid_abs (m_services b) k = Some (nm', Some s1)" "is_basic s1 = (k = 0)" by (rule table_okD [OF tab(1)])
  then have k0: "k \<noteq> 0" using assms(6,7) by (simp add: is_basic_def)
  have so: "m_service_ordinal c = Some (of_nat k)" and
    t: "tabled L elems ordered ns (mapped_ordinal L (method_names_of (m_services b) k) ns) (m_service_method_map c)"
    using assms(11) by (simp_all add: stub_for_def)
  have "unat (of_nat m :: uint16) = m" using assms(12,13) by simp
  then have ro: "at_ordinal (m_service_method_map c) (of_nat m) = Some (mapped_ordinal L (method_names_of (m_services b) k) ns m)"
    using assms(12) by (simp add: tabled_at_ordinal [OF t])
  have uk: "ucast (of_nat k :: uint16) = (of_nat k :: uint32)" using kn tab(2) by (simp add: of_nat_uint32_ucast)
  note call = stub_call_remote [OF so ro, unfolded uk]
  show ?thesis
  proof (cases "position_of L (method_names_of (m_services b) k) (ns ! m)")
    case (Some j)
    then have j: "j < method_count s"
      using method_names_length [OF assms(6)] by (auto simp: position_of_def find_Some_iff)
    then have "ucast (of_nat j :: uint16) = (of_nat j :: uint32)" using assms(8) by (simp add: of_nat_uint32_ucast)
    then show ?thesis
      using boost_library.in_process_direct [OF assms(1-5) kn k0 assms(6,7) j assms(9,10), where q = q and read = read and P = P]
      unfolding call by (simp add: Some mapped_ordinal_def)
  next
    case None
    have "(of_nat k :: uint32) \<noteq> 0" using uk k0 kn tab(2) by (metis unat_of_nat_uint32 unat_0 order_less_le_trans)
    then have "verdict_of x (ip_base (prepared (of_nat k) (ucast (65535 :: uint16)) q i)) b = NoFunction"
      using assms(3,5,6,8) kn tab(2)
      by (simp add: verdict_of_def decide_def view_of_def Let_def slot_methods_def unat_of_nat_uint32)
    from in_process_refused [OF assms(2,4) this, where read = read and P = P] show ?thesis
      unfolding call by (simp add: None mapped_ordinal_value verdict_response_def) blast
  qed
qed

theorem stub_call_is_direct_call_witness:
  "\<exists>c w1 w2. at_ordinal (m_client_services (fst demo_subscriber)) 1 = Some (Some c) \<and>
     stub_call (in_process_ops reference_protobuf 7) c 1 ''text'' (\<lambda>t. t) (snd demo_subscriber) = (Inr ''text'', w1) \<and>
     stub_call (in_process_ops reference_protobuf 7) c 0 ''text'' (\<lambda>t. t) (snd demo_subscriber) =
       (Inl (RBL_INVOKER_EXCEPTION REQUEST_NO_FUNCTION_WITH_ORDINAL), w2)"
proof -
  obtain c f i b where d: "demo_subscriber = (f, (i, b))" "ip_ready list_boost set lst_ordered 2 (i, b)"
    "factory_ok list_boost set lst_ordered (ip_view 2 7 (i, b)) ((\<lambda>_. None)(1 := Some c)) f" "established i"
    "subscribed (m_client_service_cookies b) 1 7" "table_shape (m_services b) = table_shape (m_services backend_2)"
    "stub_for list_boost set lst_ordered [''echo''] (sd_methods echo_descriptor) 1 c"
    by (rule demo_subscriber_state)
  obtain s where s: "oid_abs (m_services b) 1 = Some (name_of list_boost ''Echo'', Some s)" "svc_impl s = Linked echo_impl"
    "method_count s = 1" "method_names_of (m_services b) 1 = [''echo'']"
    by (rule demo_entry_any_case [OF d(6)])
  obtain cc where cc: "cookies_abs (m_client_service_cookies b) (1, 7) = Some cc" "is_subscribed cc"
    using d(5) by (auto simp: subscribed_def split: option.splits)
  have r: "run_ok set lst_ordered 2 b" "is_accepting_requests (m_synchronised_state b)" "client_idle i" "method_count s < 65536"
    using d(2) s(3) by (simp_all add: ip_ready_def)
  have len: "0 < length (sd_methods echo_descriptor)" "1 < length (sd_methods echo_descriptor)" "length (sd_methods echo_descriptor) \<le> 65536"
    by (simp_all add: echo_descriptor_def)
  note call = stub_call_is_direct_call [OF lst.boost_library_axioms r(1-3) d(4) s(1,2) r(4) cc, unfolded s(4), OF d(7) _ len(3),
      where P = reference_protobuf and q = "''text''" and read = "\<lambda>t. t"]
  have "tabled list_boost set lst_ordered (sv_services (ip_view 2 7 (i, b))) ((\<lambda>_. None)(1 := Some c)) (m_client_services f)"
    "length (sv_services (ip_view 2 7 (i, b))) = 2"
    using d(3) by (simp_all add: factory_ok_def ip_view_def)
  then have "at_ordinal (m_client_services f) 1 = Some (Some c)" by (simp add: tabled_at_ordinal)
  moreover obtain w1 where "stub_call (in_process_ops reference_protobuf 7) c 1 ''text'' (\<lambda>t. t) (i, b) = (Inr ''text'', w1)"
    using call [OF len(2)] unfolding echo_descriptor_ok(4) by (auto simp: direct_call_def echo_impl_def)
  moreover obtain w2 where "stub_call (in_process_ops reference_protobuf 7) c 0 ''text'' (\<lambda>t. t) (i, b) =
      (Inl (RBL_INVOKER_EXCEPTION REQUEST_NO_FUNCTION_WITH_ORDINAL), w2)"
    using call [OF len(1)] unfolding echo_descriptor_ok(3) by auto
  ultimately show ?thesis unfolding d(1) by auto
qed

section \<open>A connection that ended\<close>

definition dead_peer :: "(byte list \<Rightarrow> byte list option) \<Rightarrow> bool" where
  "dead_peer peer \<longleftrightarrow> (\<forall>bs. case peer bs of None \<Rightarrow> True | Some inp \<Rightarrow> length inp < 8)"

definition tcp_idle :: "TcpInvoker \<Rightarrow> bool" where
  "tcp_idle i \<longleftrightarrow> ti_useable i \<and> \<not> cd_rpc_active (inv_client_data (ti_base i)) \<and> 8 \<le> buf_size (ti_buffer i)"

lemma dead_remote_call:
  assumes W: "wire_format W" and dead: "dead_peer peer" and i: "tcp_idle i"
    and q: "sendable (ser_ClientRequest W \<lparr>cr_service_ordinal = Some so, cr_request_ordinal = Some ro, cr_request_string = Some q\<rparr>)"
  obtains i' where "remote_call (tcp_ops W junk peer) so ro q read i = (Inr (read []), i')" "tcp_idle i'" "ti_error_code i'"
proof -
  let ?rq = "\<lparr>cr_service_ordinal = Some so, cr_request_ordinal = Some ro, cr_request_string = Some q\<rparr>"
  let ?i = "ti_upd_client (\<lambda>cd. cd\<lparr>cd_response := ClientResponse_Clear, cd_ec := ec_clear, cd_request := ?rq\<rparr>) i"
  have prep: "remote_call (tcp_ops W junk peer) so ro q read i =
      sbind (ti_invoke W junk peer ?i) (\<lambda>_. stub_result (tcp_ops W junk peer) read)"
    using i by (simp add: remote_call_def tcp_ops_def ti_reset_def Let_def tcp_idle_def)
      (simp add: ti_upd_client_def ClientRequest_Clear_def)
  obtain bu where s: "ti_send W ?i = Inr (bu, frame W 0 (ser_ClientRequest W ?rq))"
    "buf_size bu = max (buf_size (ti_buffer i)) (8 + length (ser_ClientRequest W ?rq))"
    by (rule wire_format.ti_send_ok [OF W _ q, of ?i]) simp_all
  have "8 \<le> buf_size bu" using s(2) by simp
  then obtain bu' where inv: "ti_invoke W junk peer ?i = (Inr False, ?i\<lparr>ti_buffer := bu', ti_error_code := True\<rparr>)" "8 \<le> buf_size bu'"
    using dead [unfolded dead_peer_def, rule_format, of "frame W 0 (ser_ClientRequest W ?rq)"] s(1)
    by (cases "peer (frame W 0 (ser_ClientRequest W ?rq))") (simp_all add: ti_invoke_def ti_receive_def Buffer_store_ok)
  let ?i' = "?i\<lparr>ti_buffer := bu', ti_error_code := True\<rparr>"
  have "remote_call (tcp_ops W junk peer) so ro q read i = (Inr (read []), ?i')"
    unfolding prep inv(1) by (simp add: stub_result_def tcp_ops_def ClientResponse_Clear_def field_or_def)
  moreover have "tcp_idle ?i'" using i inv(2) by (simp add: tcp_idle_def ti_upd_client_def)
  ultimately show ?thesis by (rule that) simp
qed

text \<open>
  C39: A client over TCP does not notice that its connection has ended: when nothing, or less than a frame header, comes back for what it
  sends, every method of a stub returns normally, with the message an empty string decodes to, and only the
  invoker's own error code, which no stub reads, records the failure. So a new factory is constructed successfully as well, with no services,
  since an empty answer to hello decodes to no error.
\<close>
theorem dead_connection_looks_alive:
  assumes "boost_library L elems ordered" "wire_format W" "dead_peer peer" "tcp_idle i"
    "hs_error_type (read_HelloResponse P []) = None" "ls_services (read_ListServicesResponse P []) = []"
    "\<And>so ro q. q \<in> {req, ser_HelloRequest P \<lparr>hq_source_type = src, hq_expected_target = dst, hq_node_name = name\<rparr>, ser_ListServicesRequest P ()} \<Longrightarrow>
       sendable (ser_ClientRequest W \<lparr>cr_service_ordinal = Some so, cr_request_ordinal = Some ro, cr_request_string = Some q\<rparr>)"
    "m_service_ordinal c = Some so" "at_ordinal (m_service_method_map c) k = Some ro"
  shows "(\<exists>i'. stub_call (tcp_ops W junk peer) c k req read i = (Inr (read []), i') \<and> tcp_idle i' \<and> ti_error_code i') \<and>
    (\<exists>f i'. ServiceClientFactory_new L P (tcp_ops W junk peer) name src dst i = (Inr f, i') \<and> service_count f = 0 \<and>
       tcp_idle i' \<and> ti_error_code i')"
proof
  note dead = dead_remote_call [OF assms(2,3), where junk = junk]
  let ?hr = "\<lparr>hq_source_type = src, hq_expected_target = dst, hq_node_name = name\<rparr>"
  have fits: "sendable (ser_ClientRequest W \<lparr>cr_service_ordinal = Some so, cr_request_ordinal = Some ro, cr_request_string = Some req\<rparr>)"
    "sendable (ser_ClientRequest W \<lparr>cr_service_ordinal = Some so, cr_request_ordinal = Some ro, cr_request_string = Some (ser_HelloRequest P ?hr)\<rparr>)"
    "sendable (ser_ClientRequest W \<lparr>cr_service_ordinal = Some so, cr_request_ordinal = Some ro, cr_request_string = Some (ser_ListServicesRequest P ())\<rparr>)"
    for so ro by (rule assms(7); simp)+
  obtain i' where "remote_call (tcp_ops W junk peer) (ucast so) (ucast ro) req read i = (Inr (read []), i')" "tcp_idle i'" "ti_error_code i'"
    by (rule dead [OF assms(4) fits(1)])
  then show "\<exists>i'. stub_call (tcp_ops W junk peer) c k req read i = (Inr (read []), i') \<and> tcp_idle i' \<and> ti_error_code i'"
    by (simp add: stub_call_remote [OF assms(8,9)])
  obtain bpc m bpc' where set: "create_client_service L basic_protocol_descriptor = Inr bpc"
    "BasicProtocolMethodMap L = (Inr (), m)" "remap_ordinals m (set_service_ordinal 0 bpc) = (Inr (), bpc')"
    "bpc_ready L elems ordered bpc'"
    by (rule boost_library.bpc_setup [OF assms(1)])
  obtain i1 where i1: "remote_call (tcp_ops W junk peer) 0 0 (ser_HelloRequest P ?hr) (read_HelloResponse P) i = (Inr (read_HelloResponse P []), i1)" "tcp_idle i1"
    by (rule dead [OF assms(4) fits(2)])
  obtain i2 where i2: "remote_call (tcp_ops W junk peer) 0 1 (ser_ListServicesRequest P ()) (read_ListServicesResponse P) i1 =
      (Inr (read_ListServicesResponse P []), i2)" "tcp_idle i2" "ti_error_code i2"
    by (rule dead [OF i1(2) fits(3)])
  let ?f = "\<lparr>m_factory_name = name, m_bpc = bpc', m_client_services = OidContainer_empty L\<rparr>"
  have use: "iv_is_useable (tcp_ops W junk peer) i" using assms(4) by (simp add: tcp_ops_def ti_is_useable_def tcp_idle_def)
  have "ServiceClientFactory_new L P (tcp_ops W junk peer) name src dst i = (Inr ?f, i2)"
    unfolding ServiceClientFactory_new_def bpc_hello_def bpc_list_services_def
    using set(1-3) i1(1) i2(1) use assms(5,6) by (simp add: bpc_calls [OF set(4)] field_or_def)
  moreover have "service_count ?f = 0" by (simp add: service_count_def OidContainer_empty_def OidContainer_size_def)
  ultimately show "\<exists>f i'. ServiceClientFactory_new L P (tcp_ops W junk peer) name src dst i = (Inr f, i') \<and> service_count f = 0 \<and>
      tcp_idle i' \<and> ti_error_code i'"
    using i2(2,3) by blast
qed

theorem dead_connection_looks_alive_witness:
  "(\<exists>i'. stub_call (tcp_ops demo_wire [] (\<lambda>_. None)) (set_service_ordinal 1 (projr (create_client_service list_boost echo_descriptor))) 0 ''text'' (\<lambda>t. t)
      (projr (TcpInvoker_new True)) = (Inr [], i') \<and> ti_error_code i') \<and>
   (\<exists>f i'. ServiceClientFactory_new list_boost reference_protobuf (tcp_ops demo_wire [] (\<lambda>_. None)) ''node'' SOURCE_GENERATOR TARGET_RELAY
      (projr (TcpInvoker_new True)) = (Inr f, i') \<and> service_count f = 0)"
proof -
  obtain c where c: "create_client_service list_boost echo_descriptor = Inr c"
    "tabled list_boost set lst_ordered (sd_methods echo_descriptor) (\<lambda>_. - 1) (m_service_method_map c)"
    by (rule lst.create_client_service_ok [OF echo_descriptor_ok(1)])
  let ?c = "set_service_ordinal 1 c" and ?i = "projr (TcpInvoker_new True)"
  have ord: "m_service_ordinal ?c = Some 1" "at_ordinal (m_service_method_map ?c) 0 = Some (- 1)"
    using tabled_at_ordinal [OF c(2), of 0] by (simp_all add: set_service_ordinal_def echo_descriptor_def)
  have idle: "tcp_idle ?i" "dead_peer (\<lambda>_. None)"
    by (simp_all add: tcp_idle_def TcpInvoker_new_def InvokerBase_new_def ClientData_new_def Buffer_new_def
        RBL_RPC_CONF_INITIAL_BUFFER_SIZE_def dead_peer_def)
  have reads: "hs_error_type (read_HelloResponse reference_protobuf []) = None" "ls_services (read_ListServicesResponse reference_protobuf []) = []"
    by (simp_all add: reference_protobuf_def r_opt_def r_list_def r_nat_def)
  have fits: "sendable (ser_ClientRequest demo_wire \<lparr>cr_service_ordinal = Some so, cr_request_ordinal = Some ro, cr_request_string = Some q\<rparr>)"
    if "q \<in> {''text'', ser_HelloRequest reference_protobuf \<lparr>hq_source_type = SOURCE_GENERATOR, hq_expected_target = TARGET_RELAY, hq_node_name = ''node''\<rparr>,
      ser_ListServicesRequest reference_protobuf ()}" for so ro q
    using that by (auto simp: sendable_def demo_wire_def enc_string_def reference_protobuf_def w_enum_def w_nat_def w_text_def
        source_types_def target_types_def)
  have "(\<exists>i'. stub_call (tcp_ops demo_wire [] (\<lambda>_. None)) ?c 0 ''text'' (\<lambda>t. t) ?i = (Inr [], i') \<and> tcp_idle i' \<and> ti_error_code i') \<and>
    (\<exists>f i'. ServiceClientFactory_new list_boost reference_protobuf (tcp_ops demo_wire [] (\<lambda>_. None)) ''node'' SOURCE_GENERATOR TARGET_RELAY ?i =
      (Inr f, i') \<and> service_count f = 0 \<and> tcp_idle i' \<and> ti_error_code i')"
    by (rule dead_connection_looks_alive [OF lst.boost_library_axioms demo_wire_format idle(2,1) reads _ ord]) (rule fits)
  then show ?thesis unfolding c(1) by auto
qed

end
