(* ===== verification/Rpc_Generator.thy ===== *)
theory Rpc_Generator
  imports Service_Base
begin

text \<open>
  The protobuf plugin that writes the server and client headers (\<^verbatim>\<open>src/rpc/codegen/proto_rbl_rpc_generator.cc\<close>).
  What it prints is the sequence of its calls of \<open>io::Printer\<close>; how the printer renders them is protobuf's
  affair. \<open>Service_Base\<close> and \<open>Client_Stubs\<close> model what the printed classes do; here it is what is printed.
\<close>

section \<open>Printing\<close>

datatype printer_op = Print string "(string \<times> string) list" | Indent | Outdent

record MethodDescriptor =
  md_name :: string
  md_input_type :: string
  md_output_type :: string

record GenService =
  gs_name :: string
  gs_methods :: "MethodDescriptor list"

record FileDescriptor =
  fd_name :: string
  fd_package :: string
  fd_services :: "GenService list"

text \<open>The descriptor as the model of the generated classes uses it.\<close>

definition descriptor_of :: "GenService \<Rightarrow> ServiceDescriptor" where
  "descriptor_of sd = \<lparr>sd_name = gs_name sd, sd_methods = map md_name (gs_methods sd)\<rparr>"

text \<open>
  What the generator uses of Boost: \<open>lexical_cast\<close> of a number, the stem and the parent of a path, and the tokens
  of a string between dots.
\<close>

record gen_boost =
  gb_lexical_cast :: "nat \<Rightarrow> string"
  gb_stem :: "string \<Rightarrow> string"
  gb_parent_path :: "string \<Rightarrow> string"
  gb_tokens :: "string \<Rightarrow> string list"

section \<open>The server header\<close>

definition skel_function :: "MethodDescriptor \<Rightarrow> printer_op list" where
  \<open>skel_function md =
     [Print ''void $METHOD_NAME$(ClientCookie &,ClientData &,$I$ & ,$O$ & ){}\<newline>''
        [(''METHOD_NAME'', md_name md), (''I'', md_input_type md), (''O'', md_output_type md)]]\<close>

definition print_dispatch_function :: "string \<Rightarrow> MethodDescriptor \<Rightarrow> printer_op list" where
  \<open>print_dispatch_function serv md =
     [Print ''template<typename T_IMPL>\<newline>'' [],
      Print ''void $SERV_NAME$_$METHOD_NAME$(T_IMPL & impl,ClientCookie & client_cookie_in,ClientData & cd)\<newline>''
        [(''SERV_NAME'', serv), (''METHOD_NAME'', md_name md)],
      Print ''{\<newline>'' [],
      Indent,
      Print ''$M_IN$ m_in;\<newline>'' [(''M_IN'', md_input_type md)],
      Print ''$M_OUT$ m_out;\<newline>'' [(''M_OUT'', md_output_type md)],
      Print ''bool res = m_in.ParseFromString(cd.request().request_string());\<newline>'' [],
      Print ''if(!res)\<newline>'' [],
      Print ''{\<newline>'' [],
      Print ''  cd.error_code().assign(\<newline>'' [],
      Print ''    error_codes::RBL_BACKEND_INVOKE_REQUEST_STRING_PARSE_ERROR,\<newline>'' [],
      Print ''    rpc_backend_error);\<newline>'' [],
      Print ''  cd.response().set_error(basic_protocol::REQUEST_STRING_PARSE_ERROR);\<newline>'' [],
      Print ''  return;\<newline>'' [],
      Print ''}\<newline>\<newline>'' [],
      Print ''impl.$M_NAME$(client_cookie_in,cd,m_in,m_out);\<newline>\<newline>'' [(''M_NAME'', md_name md)],
      Print ''//TODO test for rpc call error;\<newline>'' [],
      Print ''res = m_out.SerializeToString( cd.response().mutable_response_string());\<newline>'' [],
      Print ''if(!res)\<newline>'' [],
      Print ''{\<newline>'' [],
      Print ''  cd.error_code().assign(\<newline>'' [],
      Print ''    error_codes::RBL_BACKEND_INVOKE_RESPONSE_STRING_SERIALIZE_ERROR,\<newline>'' [],
      Print ''    rpc_backend_error);\<newline>'' [],
      Print ''  cd.response().set_error(basic_protocol::REQUEST_STRING_SERIALIZE_ERROR);\<newline>'' [],
      Print ''  return;\<newline>'' [],
      Print ''}\<newline>'' [],
      Outdent,
      Print ''}\<newline>\<newline>'' []]\<close>

definition create_dispatch_functions :: "GenService \<Rightarrow> printer_op list" where
  "create_dispatch_functions sd = concat (map (print_dispatch_function (gs_name sd)) (gs_methods sd))"

text \<open>The line of the constructor for one method, which \<open>registrations\<close> below reads back.\<close>

abbreviation set_entry_text :: string where
  \<open>set_entry_text \<equiv> ''m_dispatch_table.SetEntry( common::Oid("$MN$",$I$), & $SERV_NAME$_$MN$<T_IMPL>);\<newline>''\<close>

definition print_constructor :: "gen_boost \<Rightarrow> GenService \<Rightarrow> printer_op list" where
  \<open>print_constructor B sd =
     [Print ''$SERV_NAME$()\<newline>'' [(''SERV_NAME'', gs_name sd)],
      Print ''{\<newline>'' [],
      Indent] @
     map (\<lambda>i. Print set_entry_text
                [(''I'', gb_lexical_cast B i), (''MN'', md_name (gs_methods sd ! i)), (''SERV_NAME'', gs_name sd)])
       [0..<length (gs_methods sd)] @
     [Outdent,
      Print ''}\<newline>'' []]\<close>

definition create_dispatch_function :: "printer_op list" where
  \<open>create_dispatch_function =
     [Print ''virtual bool contains_function_at_ordinal(boost::uint16_t ordinal)\<newline>'' [],
      Print ''{\<newline>'' [],
      Indent,
      Print ''return !(m_dispatch_table[ordinal] == NULL);\<newline>'' [],
      Outdent,
      Print ''}\<newline>'' [],
      Print ''virtual void dispatch(ClientCookie & client_cookie,ClientData & cd)\<newline>'' [],
      Print ''{\<newline>'' [],
      Indent,
      Print ''(*m_dispatch_table[cd.request().request_ordinal()])(m_impl,client_cookie,cd);\<newline>'' [],
      Outdent,
      Print ''}\<newline>'' []]\<close>

definition create_service :: "gen_boost \<Rightarrow> GenService \<Rightarrow> printer_op list" where
  \<open>create_service B sd =
     [Indent,
      Print ''struct $SERV_NAME$_dummy_tag{};\<newline>\<newline>'' [(''SERV_NAME'', gs_name sd)],
      Print ''template<typename T>\<newline>'' [],
      Print ''class $SERV_NAME$_skel\<newline>{\<newline>'' [(''SERV_NAME'', gs_name sd)],
      Print ''public:\<newline>'' [],
      Indent,
      Print ''typedef ClientCookieBase t_client_cookie;\<newline>'' [],
      Print ''void init(boost::system::error_code & ec) {}\<newline>'' [],
      Print ''void teardown(boost::system::error_code & ec) {}\<newline>'' [],
      Print ''void subscribe(ClientCookie & client_cookie, ClientData & cd,\<newline>'' [],
      Print ''  std::string * from_client_string, std::string * to_client_string) {}\<newline>'' [],
      Print ''void unsubscribe(ClientCookie & client_cookie, ClientData & cd) {}\<newline>'' []] @
     concat (map skel_function (gs_methods sd)) @
     [Outdent,
      Print ''private:\<newline>'' [],
      Print ''};\<newline>\<newline>'' []] @
     create_dispatch_functions sd @
     [Print ''template<typename T_IMPL=$SERV_NAME$_skel<$SERV_NAME$_dummy_tag> >\<newline>'' [(''SERV_NAME'', gs_name sd)],
      Print ''class $SERV_NAME$ : public rubble::rpc::ServiceBase\<newline>{\<newline>'' [(''SERV_NAME'', gs_name sd)],
      Print ''public:\<newline>'' [],
      Indent,
      Print ''typedef void (*dispatch_function) (T_IMPL &,ClientCookie &,ClientData&) ;\<newline>'' []] @
     print_constructor B sd @
     create_dispatch_function @
     [Print ''T_IMPL & impl() {return m_impl;}\<newline>'' [],
      Print ''virtual void init(boost::system::error_code & ec) { return m_impl.init(ec); };\<newline>'' [],
      Print ''virtual void teardown(boost::system::error_code & ec) { return m_impl.teardown(ec); };\<newline>'' [],
      Print ''virtual void subscribe(ClientCookie & client_cookie, ClientData & cd,\<newline>'' [],
      Print ''  std::string * from_client_string, std::string * to_client_string)\<newline>'' [],
      Print ''  { m_impl.subscribe(client_cookie,cd,from_client_string, to_client_string); }\<newline>'' [],
      Print ''virtual void unsubscribe(ClientCookie & client_cookie, ClientData & cd)\<newline>'' [],
      Print ''  { m_impl.unsubscribe(client_cookie,cd); } \<newline>'' [],
      Print ''virtual const char * name() { return "$S_NAME$"; }\<newline>'' [(''S_NAME'', gs_name sd)],
      Print ''virtual bool require_tracking() \<newline>'' [],
      Print ''  { return !(boost::is_same<ClientCookieBase, typename T_IMPL::t_client_cookie>::value); }\<newline>'' [],
      Print ''const T_IMPL & get_impl() const { return m_impl; }\<newline>'' [],
      Print ''    virtual void produce_method_list(rubble::rpc::basic_protocol::ListMethodsResponse & lmr)'' [],
      Print ''  { ff_produce_method_list(m_dispatch_table,lmr);}\<newline>'' [],
      Outdent,
      Print ''private:\<newline>'' [],
      Indent,
      Print ''T_IMPL m_impl;\<newline>'' [],
      Print ''common::OidContainer<common::Oid,dispatch_function> m_dispatch_table;\<newline>'' [],
      Outdent,
      Print ''};\<newline>\<newline>'' [],
      Outdent]\<close>

section \<open>The client header\<close>

abbreviation map_entry_text :: string where
  \<open>map_entry_text \<equiv> ''m_service_method_map.SetEntry(common::Oid("$MN$",$I$),-1);\<newline>''\<close>

definition print_client_method :: "gen_boost \<Rightarrow> nat \<Rightarrow> MethodDescriptor \<Rightarrow> printer_op list" where
  \<open>print_client_method B i md =
     [Print ''void $MN$(const $IP$ & req, $OP$ & res)\<newline>{\<newline>''
        [(''IP'', md_input_type md), (''MN'', md_name md), (''OP'', md_output_type md)],
      Indent,
      Print ''static const boost::uint16_t method_id = $I$;\<newline>'' [(''I'', gb_lexical_cast B i)],
      Print ''m_invoker.reset();\<newline>'' [],
      Print ''m_invoker.request().set_service_ordinal(service_ordinal());'' [],
      Print ''m_invoker.request().set_request_ordinal( * m_service_method_map[method_id]);\<newline>'' [],
      Print ''req.SerializeToString(m_invoker.request().mutable_request_string());\<newline>\<newline>'' [],
      Print ''m_invoker.invoke();\<newline>'' [],
      Print ''if(m_invoker.response().error() != rubble::rpc::basic_protocol::REQUEST_SUCCESS)\<newline>'' [],
      Print ''{\<newline>  RBL_INVOKER_THROW_EXCEPTION(m_invoker.response().error());\<newline> }\<newline>\<newline>'' [],
      Print ''res.ParseFromString(m_invoker.response().response_string());\<newline>'' [],
      Outdent,
      Outdent,
      Print ''}\<newline>'' []]\<close>

definition print_client_service :: "gen_boost \<Rightarrow> GenService \<Rightarrow> printer_op list" where
  \<open>print_client_service B sd =
     [Indent,
      Print ''class $CN$_client: public rubble::rpc::ClientServiceBase \<newline>{\<newline>'' [(''CN'', gs_name sd)],
      Print ''public:\<newline>'' [],
      Indent,
      Print ''typedef boost::scoped_ptr<$CN$_client> scptr;\<newline>\<newline>'' [(''CN'', gs_name sd)],
      Print ''typedef boost::shared_ptr<$CN$_client> shptr;\<newline>\<newline>'' [(''CN'', gs_name sd)],
      Print ''$CN$_client(InvokerBase & invoker)\<newline>  : ClientServiceBase(invoker, $MC$)\<newline>''
        [(''CN'', gs_name sd), (''MC'', gb_lexical_cast B (length (gs_methods sd)))],
      Print ''{\<newline>'' [],
      Indent] @
     map (\<lambda>i. Print map_entry_text [(''MN'', md_name (gs_methods sd ! i)), (''I'', gb_lexical_cast B i)])
       [0..<length (gs_methods sd)] @
     [Outdent,
      Print ''}\<newline>'' []] @
     concat (map (\<lambda>i. print_client_method B i (gs_methods sd ! i)) [0..<length (gs_methods sd)]) @
     [Outdent,
      Print ''private:\<newline>'' [],
      Print ''};\<newline>'' [],
      Outdent]\<close>

section \<open>The plugin\<close>

text \<open>
  \<open>std::string::append\<close> changes the string it is called on: \<open>stem\<close> is the name of the output file once the server's
  file is open, and is computed again for the client's.
\<close>

definition open_namespaces :: "string list \<Rightarrow> printer_op list" where
  \<open>open_namespaces ns = concat (map (\<lambda>n. [Print ''namespace '' [], Print n [], Print '' {\<newline>'' []]) ns)\<close>

definition close_namespaces :: "string list \<Rightarrow> printer_op list" where
  \<open>close_namespaces ns =
     (if length ns \<noteq> 0
      then map (\<lambda>i. if i = length ns then Print ''\<newline>'' [] else if i = 0 then Print ''}'' [] else Print '' }'' []) [0..<Suc (length ns)]
      else [])\<close>

definition server_preamble :: "string \<Rightarrow> string \<Rightarrow> printer_op list" where
  \<open>server_preamble stem2 pbuf_name =
     [Print ''#ifndef RBL_RPC_GEN_$STEM$_SERVER_H\<newline>'' [(''STEM'', stem2)],
      Print ''#define RBL_RPC_GEN_$STEM$_SERVER_H\<newline>\<newline>'' [(''STEM'', stem2)],
      Print ''#include "$incl$" \<newline>'' [(''incl'', pbuf_name)],
      Print ''#include <$incl$> \<newline>'' [(''incl'', ''rpc/backend/ClientServiceCookies.h'')],
      Print ''#include <$incl$> \<newline>'' [(''incl'', ''rpc/backend/ServiceBase.h'')],
      Print ''#include <$incl$> \<newline>'' [(''incl'', ''rpc/common/rpc_errors.h'')],
      Print ''#include <$incl$> \<newline>'' [(''incl'', ''boost/cstdint.hpp'')],
      Print ''#include <$incl$> \<newline>\<newline>'' [(''incl'', ''boost/type_traits/is_same.hpp'')]]\<close>

definition client_preamble :: "string \<Rightarrow> string \<Rightarrow> printer_op list" where
  \<open>client_preamble stem3 pbuf_name =
     [Print ''#ifndef RBL_RPC_GEN_$STEM$_CLIENT_H\<newline>'' [(''STEM'', stem3)],
      Print ''#define RBL_RPC_GEN_$STEM$_CLIENT_H\<newline>\<newline>'' [(''STEM'', stem3)],
      Print ''#include "$incl$" \<newline>'' [(''incl'', pbuf_name)],
      Print ''#include "$incl$" \<newline>'' [(''incl'', ''rpc/client/ClientBase.h'')],
      Print ''#include <$incl$> \<newline>\<newline>'' [(''incl'', ''boost/cstdint.hpp'')]]\<close>

definition Generate :: "gen_boost \<Rightarrow> FileDescriptor \<Rightarrow> (string \<times> printer_op list) list" where
  \<open>Generate B file =
     (let stem = gb_stem B (fd_name file);
          pbuf_name = gb_parent_path B (fd_name file) @ stem @ ''.pb.h'';
          stem2 = stem @ ''_SERVER_RBLRPC_H'';
          stem3 = stem @ ''_CLIENT_RBLRPC_H'';
          namespace_strings = gb_tokens B (fd_package file)
      in [(stem @ ''-server.rblrpc.h'',
           server_preamble stem2 pbuf_name @
           open_namespaces namespace_strings @
           concat (map (create_service B) (fd_services file)) @
           close_namespaces namespace_strings @
           [Print ''#endif'' []]),
          (stem @ ''-client.rblrpc.h'',
           client_preamble stem3 pbuf_name @
           open_namespaces namespace_strings @
           concat (map (print_client_service B) (fd_services file)) @
           close_namespaces namespace_strings @
           [Print ''#endif\<newline>'' []])])\<close>

section \<open>Well-formed output\<close>

text \<open>The variables between dollar signs in a text; each has to be among those the call passes.\<close>

fun placeholders :: "string option \<Rightarrow> string \<Rightarrow> string list" where
  "placeholders None [] = []"
| "placeholders (Some v) [] = [rev v]"
| "placeholders None (c # cs) = (if c = CHR ''$'' then placeholders (Some []) cs else placeholders None cs)"
| "placeholders (Some v) (c # cs) = (if c = CHR ''$'' then rev v # placeholders None cs else placeholders (Some (c # v)) cs)"

fun defined_vars :: "printer_op \<Rightarrow> bool" where
  "defined_vars (Print t vs) = list_all (\<lambda>v. v \<in> fst ` set vs) (placeholders None t)"
| "defined_vars Indent = True"
| "defined_vars Outdent = True"

text \<open>The depth of the indentation, and the number of calls of \<open>Outdent\<close> without a matching \<open>Indent\<close>.\<close>

fun indentation :: "printer_op \<Rightarrow> nat \<times> nat \<Rightarrow> nat \<times> nat" where
  "indentation (Print t vs) w = w"
| "indentation Indent (d, e) = (Suc d, e)"
| "indentation Outdent (d, e) = (if d = 0 then (0, Suc e) else (d - 1, e))"

definition opened :: "printer_op list \<Rightarrow> nat" where
  "opened ops = length (filter (\<lambda>p. p = Print ''namespace '' []) ops)"

definition closed :: "printer_op list \<Rightarrow> nat" where
  "closed ops = length (filter (\<lambda>p. p = Print ''}'' [] \<or> p = Print '' }'' []) ops)"

text \<open>The methods that the printed constructors enter into the dispatch tables.\<close>

fun registration :: "printer_op \<Rightarrow> (string option \<times> string option) list" where
  "registration (Print t vs) = (if t = set_entry_text then [(map_of vs ''MN'', map_of vs ''I'')] else [])"
| "registration Indent = []"
| "registration Outdent = []"

lemma placeholders_plain: "CHR ''$'' \<notin> set t \<Longrightarrow> placeholders None t = []"
  by (induction t) auto

lemma printed_vars:
  "list_all defined_vars (skel_function md)" "list_all defined_vars (print_dispatch_function serv md)"
  "list_all defined_vars create_dispatch_function" "list_all defined_vars (print_client_method B i md)"
  by (simp_all add: skel_function_def print_dispatch_function_def create_dispatch_function_def print_client_method_def)

lemma list_all_map: "(\<And>x. P (f x)) \<Longrightarrow> list_all P (map f xs)"
  by (simp add: list_all_iff)

lemma list_all_concat_map: "(\<And>x. list_all P (f x)) \<Longrightarrow> list_all P (concat (map f xs))"
  by (induction xs) simp_all

lemma constructor_vars: "list_all defined_vars (print_constructor B sd)"
  unfolding print_constructor_def list_all_append by (intro conjI list_all_map) simp_all

lemma service_vars: "list_all defined_vars (create_service B sd)" "list_all defined_vars (print_client_service B sd)"
proof -
  show "list_all defined_vars (create_service B sd)"
    unfolding create_service_def create_dispatch_functions_def list_all_append
    by (intro conjI list_all_concat_map printed_vars constructor_vars) simp_all
  show "list_all defined_vars (print_client_service B sd)"
    unfolding print_client_service_def list_all_append
    by (intro conjI list_all_concat_map list_all_map printed_vars) simp_all
qed

text \<open>Printing text leaves the indentation alone; a class or a function of the server header restores it.\<close>

definition balanced :: "printer_op list \<Rightarrow> bool" where
  "balanced ops \<longleftrightarrow> (\<forall>d e. fold indentation ops (d, e) = (d, e))"

lemma balanced_append: "balanced xs \<Longrightarrow> balanced ys \<Longrightarrow> balanced (xs @ ys)"
  by (simp add: balanced_def)

lemma balanced_concat_map: "(\<And>x. balanced (f x)) \<Longrightarrow> balanced (concat (map f xs))"
  by (induction xs) (simp_all add: balanced_def)

lemma balanced_prints: "fold indentation (map (\<lambda>i. Print t (vs i)) js) w = w"
  by (induction js) simp_all

lemma balanced_parts:
  "balanced (skel_function md)" "balanced (print_dispatch_function serv md)" "balanced create_dispatch_function"
  "balanced (print_constructor B sd)" "balanced (open_namespaces ns)" "balanced (close_namespaces ns)"
proof -
  show "balanced (skel_function md)" "balanced (print_dispatch_function serv md)" "balanced create_dispatch_function"
    "balanced (print_constructor B sd)"
    by (simp_all add: balanced_def skel_function_def print_dispatch_function_def create_dispatch_function_def print_constructor_def
        balanced_prints)
  show "balanced (open_namespaces ns)"
    unfolding open_namespaces_def by (rule balanced_concat_map) (simp add: balanced_def)
  have "fold indentation (map (\<lambda>i. if i = k then Print ''\<newline>'' [] else if i = 0 then Print ''}'' [] else Print '' }'' []) js) w = w" for k w and js :: "nat list"
    by (induction js) simp_all
  then show "balanced (close_namespaces ns)" by (simp add: balanced_def close_namespaces_def del: upt_Suc)
qed

lemma create_service_balanced: "balanced (create_service B sd)"
proof -
  have sk: "fold indentation (concat (map skel_function ms)) w = w" and ds: "fold indentation (create_dispatch_functions sd) w = w"
    and co: "fold indentation (print_constructor B sd) w = w" and di: "fold indentation create_dispatch_function w = w" for ms w
    using balanced_concat_map [of skel_function, OF balanced_parts(1)] balanced_concat_map [of "print_dispatch_function (gs_name sd)", OF balanced_parts(2)]
      balanced_parts(3,4) unfolding balanced_def create_dispatch_functions_def by (cases w, simp)+
  show ?thesis unfolding balanced_def create_service_def fold_append o_def by (simp add: sk ds co di)
qed

lemma client_method_outdents:
  "fold indentation (concat (map (\<lambda>i. print_client_method B i (md i)) js)) (d, e) = (d - length js, e + (length js - d))"
proof (induction js arbitrary: d e)
  case (Cons j js)
  have "fold indentation (print_client_method B j (md j)) (d, e) = (if d = 0 then (0, Suc e) else (d - 1, e))"
    by (simp add: print_client_method_def)
  then show ?case using Cons.IH by (cases d) simp_all
qed simp

lemma client_service_outdents: "fold indentation (print_client_service B sd) (0, e) = (0, e + length (gs_methods sd))"
  unfolding print_client_service_def fold_append o_def
  by (simp add: balanced_prints client_method_outdents) (cases "length (gs_methods sd)"; simp; cases "length (gs_methods sd) - 1"; simp)

lemma client_services_outdents:
  "fold indentation (concat (map (print_client_service B) sds)) (0, e) = (0, e + sum_list (map (length \<circ> gs_methods) sds))"
  by (induction sds arbitrary: e) (simp_all add: client_service_outdents add.assoc)

text \<open>Only the functions for namespaces print what opens or closes one, only the constructor registers methods.\<close>

definition inert :: "printer_op \<Rightarrow> bool" where
  "inert p \<longleftrightarrow> p \<noteq> Print ''namespace '' [] \<and> p \<noteq> Print ''}'' [] \<and> p \<noteq> Print '' }'' []"

lemma inert_counts: "list_all inert ops \<Longrightarrow> opened ops = 0 \<and> closed ops = 0"
  by (auto simp: opened_def closed_def inert_def list_all_iff filter_empty_conv)

lemma counts_append: "opened (xs @ ys) = opened xs + opened ys" "closed (xs @ ys) = closed xs + closed ys"
  by (simp_all add: opened_def closed_def)

lemma inert_parts: "list_all inert (skel_function md)" "list_all inert (print_dispatch_function serv md)"
  "list_all inert create_dispatch_function" "list_all inert (print_client_method B i md)"
  by (simp_all add: inert_def skel_function_def print_dispatch_function_def create_dispatch_function_def print_client_method_def)

lemma inert_services: "list_all inert (create_service B sd)" "list_all inert (print_client_service B sd)"
proof -
  have "list_all inert (print_constructor B sd)"
    unfolding print_constructor_def list_all_append by (intro conjI list_all_map) (simp_all add: inert_def)
  then show "list_all inert (create_service B sd)"
    unfolding create_service_def create_dispatch_functions_def list_all_append
    by (intro conjI list_all_concat_map inert_parts) (simp_all add: inert_def)
  show "list_all inert (print_client_service B sd)"
    unfolding print_client_service_def list_all_append
    by (intro conjI list_all_concat_map list_all_map inert_parts) (simp_all add: inert_def)
qed

definition ident_chars :: string where
  "ident_chars = ''abcdefghijklmnopqrstuvwxyzABCDEFGHIJKLMNOPQRSTUVWXYZ0123456789_''"

definition is_identifier :: "string \<Rightarrow> bool" where
  "is_identifier n \<longleftrightarrow> list_all (\<lambda>c. c \<in> set ident_chars) n"

lemma is_identifier_plain: "is_identifier n \<Longrightarrow> CHR ''$'' \<notin> set n \<and> n \<noteq> ''namespace '' \<and> n \<noteq> ''}'' \<and> n \<noteq> '' }''"
proof -
  assume n: "is_identifier n"
  have "CHR ''$'' \<notin> set ident_chars" "CHR '' '' \<notin> set ident_chars" "CHR ''}'' \<notin> set ident_chars" by (simp_all add: ident_chars_def)
  then have "CHR ''$'' \<notin> set n" "CHR '' '' \<notin> set n" "CHR ''}'' \<notin> set n"
    using n unfolding is_identifier_def list_all_iff by blast+
  then show ?thesis by auto
qed

lemma namespaces_counts:
  assumes "list_all is_identifier ns"
  shows "opened (open_namespaces ns) = length ns" "closed (open_namespaces ns) = 0"
    "opened (close_namespaces ns) = 0" "closed (close_namespaces ns) = length ns"
    "list_all defined_vars (open_namespaces ns)" "list_all defined_vars (close_namespaces ns)"
proof -
  show "opened (open_namespaces ns) = length ns" "closed (open_namespaces ns) = 0" "list_all defined_vars (open_namespaces ns)"
    using assms by (induction ns) (simp_all add: open_namespaces_def opened_def closed_def is_identifier_plain placeholders_plain)
  let ?f = "\<lambda>i. if i = length ns then Print ''\<newline>'' [] else if i = 0 then Print ''}'' [] else Print '' }'' []"
  have f: "?f i \<noteq> Print ''namespace '' []" "defined_vars (?f i)" "(?f i = Print ''}'' [] \<or> ?f i = Print '' }'' []) \<longleftrightarrow> i \<noteq> length ns" for i
    by simp_all
  show "list_all defined_vars (close_namespaces ns)"
    unfolding close_namespaces_def using list_all_map [of defined_vars ?f, OF f(2)] by simp
  show "opened (close_namespaces ns) = 0"
    by (simp add: close_namespaces_def opened_def filter_map o_def f(1) del: upt_Suc)
  have "length (filter (\<lambda>i. i \<noteq> k) [0..<Suc k]) = k" for k by simp
  then show "closed (close_namespaces ns) = length ns"
    by (simp add: close_namespaces_def closed_def filter_map o_def f(3) del: upt_Suc)
qed

definition registrations :: "printer_op list \<Rightarrow> (string option \<times> string option) list" where
  "registrations ops = concat (map registration ops)"

lemma registrations_simps [simp]: "registrations [] = []" "registrations (p # ps) = registration p @ registrations ps"
  and registrations_append: "registrations (xs @ ys) = registrations xs @ registrations ys"
  by (simp_all add: registrations_def)

lemma registrations_none: "(\<And>x. registrations (f x) = []) \<Longrightarrow> registrations (concat (map f xs)) = []"
  by (induction xs) (simp_all add: registrations_def)

lemma constructor_registrations:
  "registrations (print_constructor B sd) =
     map (\<lambda>i. (Some (md_name (gs_methods sd ! i)), Some (gb_lexical_cast B i))) [0..<length (gs_methods sd)]"
proof -
  have "registrations (map (\<lambda>i. Print set_entry_text
      [(''I'', gb_lexical_cast B i), (''MN'', md_name (gs_methods sd ! i)), (''SERV_NAME'', gs_name sd)]) js) =
    map (\<lambda>i. (Some (md_name (gs_methods sd ! i)), Some (gb_lexical_cast B i))) js" for js
    by (induction js) simp_all
  then show ?thesis unfolding print_constructor_def registrations_append by simp
qed

lemma service_registrations: "registrations (create_service B sd) = registrations (print_constructor B sd)"
proof -
  have r: "registrations (concat (map skel_function ms)) = []" "registrations (create_dispatch_functions sd) = []" for ms
    unfolding create_dispatch_functions_def
    by (rule registrations_none, simp add: skel_function_def print_dispatch_function_def)+
  have "registrations create_dispatch_function = []" by (simp add: create_dispatch_function_def)
  with r show ?thesis unfolding create_service_def registrations_append by simp
qed

text \<open>The lines before and after the namespaces.\<close>

definition plain_op :: "printer_op \<Rightarrow> bool" where
  "plain_op p \<longleftrightarrow> defined_vars p \<and> inert p \<and> registration p = [] \<and> (\<forall>w. indentation p w = w)"

lemma plain_ops:
  assumes "list_all plain_op ops"
  shows "list_all defined_vars ops" "opened ops = 0" "closed ops = 0" "registrations ops = []" "fold indentation ops w = w"
proof -
  show "list_all defined_vars ops" using assms by (auto simp: list_all_iff plain_op_def)
  have "list_all inert ops" using assms by (auto simp: list_all_iff plain_op_def)
  then show "opened ops = 0" "closed ops = 0" by (simp_all add: inert_counts)
  show "registrations ops = []" "fold indentation ops w = w"
    using assms by (cases w; induction ops; simp add: plain_op_def)+
qed

lemma plain_preambles: "list_all plain_op (server_preamble st pb)" "list_all plain_op (client_preamble st pb)"
  "list_all plain_op [Print ''#endif'' []]" "list_all plain_op [Print ''#endif\<newline>'' []]"
  by (simp_all add: server_preamble_def client_preamble_def plain_op_def inert_def)

lemmas plain_frame = plain_ops [OF plain_preambles(1)] plain_ops [OF plain_preambles(2)] plain_ops [OF plain_preambles(3)]
  plain_ops [OF plain_preambles(4)]

lemma services_printed:
  "list_all defined_vars (concat (map (create_service B) sds))" "list_all defined_vars (concat (map (print_client_service B) sds))"
  "opened (concat (map (create_service B) sds)) = 0" "closed (concat (map (create_service B) sds)) = 0"
  "opened (concat (map (print_client_service B) sds)) = 0" "closed (concat (map (print_client_service B) sds)) = 0"
  "balanced (concat (map (create_service B) sds))"
  by (simp_all add: list_all_concat_map service_vars inert_counts inert_services balanced_concat_map create_service_balanced)

lemma namespaces_registrations: "list_all is_identifier ns \<Longrightarrow> registrations (open_namespaces ns) = []" "registrations (close_namespaces ns) = []"
proof -
  have dollar: "CHR ''$'' \<in> set set_entry_text" by simp
  have n: "n \<noteq> set_entry_text" if "is_identifier n" for n
  proof
    assume "n = set_entry_text"
    with dollar have "CHR ''$'' \<in> set n" by (simp only:)
    with is_identifier_plain [OF that] show False by (elim conjE notE)
  qed
  show "list_all is_identifier ns \<Longrightarrow> registrations (open_namespaces ns) = []"
    by (induction ns) (simp_all add: open_namespaces_def n)
  have "registrations (map (\<lambda>i. if i = k then Print ''\<newline>'' [] else if i = 0 then Print ''}'' [] else Print '' }'' []) js) = []" for k and js :: "nat list"
    by (induction js) simp_all
  then show "registrations (close_namespaces ns) = []" by (simp add: close_namespaces_def del: upt_Suc)
qed

lemma services_registrations:
  "registrations (concat (map (create_service B) sds)) =
     concat (map (\<lambda>sd. map (\<lambda>(m, i). (Some m, Some (gb_lexical_cast B i)))
       (zip (sd_methods (descriptor_of sd)) [0..<length (sd_methods (descriptor_of sd))])) sds)"
proof (induction sds)
  case (Cons sd sds)
  have "registrations (create_service B sd) = map (\<lambda>(m, i). (Some m, Some (gb_lexical_cast B i)))
      (zip (sd_methods (descriptor_of sd)) [0..<length (sd_methods (descriptor_of sd))])"
    unfolding service_registrations constructor_registrations by (rule nth_equalityI) (simp_all add: descriptor_of_def)
  with Cons show ?case by (simp add: registrations_append)
qed simp

text \<open>A file with one service, and a reference for what Boost provides.\<close>

definition demo_file :: FileDescriptor where
  "demo_file = \<lparr>fd_name = ''clock.proto'', fd_package = ''demo.time'',
     fd_services = [\<lparr>gs_name = ''clock'', gs_methods =
       [\<lparr>md_name = ''tick'', md_input_type = ''Void'', md_output_type = ''Time''\<rparr>,
        \<lparr>md_name = ''set'', md_input_type = ''Time'', md_output_type = ''Void''\<rparr>]\<rparr>]\<rparr>"

fun split_at :: "char \<Rightarrow> string \<Rightarrow> string \<Rightarrow> string list" where
  "split_at sep acc [] = (if acc = [] then [] else [rev acc])"
| "split_at sep acc (c # cs) =
     (if c = sep then (if acc = [] then [] else [rev acc]) @ split_at sep [] cs else split_at sep (c # acc) cs)"

definition demo_gen :: gen_boost where
  "demo_gen = \<lparr>gb_lexical_cast = \<lambda>n. [''0123456789'' ! (n mod 10)], gb_stem = takeWhile (\<lambda>c. c \<noteq> CHR ''.''), gb_parent_path = \<lambda>s. [],
     gb_tokens = split_at (CHR ''.'') []\<rparr>"

section \<open>Properties\<close>

text \<open>
  C36: What the plugin prints, for a file whose package consists of identifiers. In both headers every variable between
  dollar signs is among those passed with the text, and as many namespaces are closed as are opened, which is one per component of
  the package. In the server's header the indentation is balanced, with no \<open>Outdent\<close> that has no \<open>Indent\<close>, and the constructor of each
  service enters the methods of its descriptor in their order, each with its position as its ordinal, as
  \<open>create_constructor\<close> models it.
\<close>
theorem generated_headers_well_formed:
  assumes "list_all is_identifier (gb_tokens B (fd_package file))"
  shows "\<exists>server client. map snd (Generate B file) = [server, client] \<and>
    list_all defined_vars (server @ client) \<and>
    opened server = length (gb_tokens B (fd_package file)) \<and> closed server = length (gb_tokens B (fd_package file)) \<and>
    opened client = length (gb_tokens B (fd_package file)) \<and> closed client = length (gb_tokens B (fd_package file)) \<and>
    fold indentation server (0, 0) = (0, 0) \<and>
    registrations server = concat (map (\<lambda>sd. map (\<lambda>(m, i). (Some m, Some (gb_lexical_cast B i)))
      (zip (sd_methods (descriptor_of sd)) [0..<length (sd_methods (descriptor_of sd))])) (fd_services file))"
proof -
  let ?ns = "gb_tokens B (fd_package file)"
  note n = namespaces_counts [OF assms] and r = namespaces_registrations(1) [OF assms] namespaces_registrations(2) [of ?ns]
  have ind: "fold indentation (concat (map (create_service B) (fd_services file))) (0, 0) = (0, 0)"
    "fold indentation (open_namespaces ?ns) (0, 0) = (0, 0)" "fold indentation (close_namespaces ?ns) (0, 0) = (0, 0)"
    using services_printed(7) balanced_parts(5,6) unfolding balanced_def by blast+
  show ?thesis
    unfolding Generate_def Let_def list.map snd_conv
    by (intro exI conjI, rule refl)
      (simp_all only: fold_append o_def list_all_append counts_append registrations_append append_Nil append_Nil2 add_0 add_0_right
        n r ind plain_frame services_printed(1-6) services_registrations simp_thms)
qed

theorem generated_headers_well_formed_witness:
  "\<exists>server client. map snd (Generate demo_gen demo_file) = [server, client] \<and> opened server = 2 \<and> closed client = 2 \<and>
     registrations server = [(Some ''tick'', Some ''0''), (Some ''set'', Some ''1'')]"
proof -
  have "list_all is_identifier (gb_tokens demo_gen (fd_package demo_file))"
    by (simp add: demo_gen_def demo_file_def is_identifier_def ident_chars_def)
  from generated_headers_well_formed [OF this] show ?thesis
    by (auto simp: demo_gen_def demo_file_def descriptor_of_def upt_rec)
qed

text \<open>
  C37: The client's header is printed with one \<open>Outdent\<close> too many for every method: printing it makes as many unmatched calls of \<open>Outdent\<close> as the
  file has methods, each of which the printer reports as a fatal error in debug builds. The number of
  methods is the only thing that matters; in particular every file that declares a method is affected.
\<close>
theorem client_header_unmatched_outdents:
  "\<exists>server client. map snd (Generate B file) = [server, client] \<and>
     fold indentation client (0, 0) = (0, sum_list (map (length \<circ> gs_methods) (fd_services file)))"
proof -
  let ?ns = "gb_tokens B (fd_package file)"
  have ind: "fold indentation (open_namespaces ?ns) w = w" "fold indentation (close_namespaces ?ns) w = w" for w
    using balanced_parts(5,6) [of ?ns] unfolding balanced_def by (cases w; simp)+
  show ?thesis
    unfolding Generate_def Let_def list.map snd_conv
    by (intro exI conjI, rule refl) (simp only: fold_append o_def ind plain_frame client_services_outdents add_0)
qed

end
