(* ===== verification/Tcp_Legacy.thy ===== *)
theory Tcp_Legacy
  imports Tcp_Wire Back_End
begin

text \<open>
  The predecessors of the TCP invoker and the TCP front end, which are still in the tree:
  \<^verbatim>\<open>include/rpc/tcp_client_connection.h\<close>, \<^verbatim>\<open>include/rpc/client_rpc_common.h\<close> and \<^verbatim>\<open>include/rpc/TcpServer.h\<close>. The socket is
  modelled as for \<open>TcpInvoker\<close>: \<open>peer\<close> maps the bytes that were written to the bytes that arrive until the connection
  ends, or to \<open>None\<close> when writing fails; a read of more bytes than arrive stores what arrives and fails.
\<close>

section \<open>The client's connection\<close>

record LegacyConnection =
  lc_buffer :: Buffer
  lc_is_connected :: bool
  lc_name :: string
  lc_ec :: bool
  lc_src_con_type :: SourceConnectionType
  lc_dst_con_type :: DestinationConnectionType

text \<open>The constructors; \<open>addr_ok\<close> is whether Boost can parse the address.\<close>

definition ClientConnection_new :: "string \<Rightarrow> SourceConnectionType \<Rightarrow> DestinationConnectionType \<Rightarrow> LegacyConnection" where
  "ClientConnection_new client_name sct dct =
     \<lparr>lc_buffer = Buffer_new, lc_is_connected = False, lc_name = client_name, lc_ec = False, lc_src_con_type = sct,
      lc_dst_con_type = dct\<rparr>"

definition TcpClientConnection_new :: "bool \<Rightarrow> string \<Rightarrow> SourceConnectionType \<Rightarrow> DestinationConnectionType \<Rightarrow> LegacyConnection" where
  "TcpClientConnection_new addr_ok name_in sct dct = (ClientConnection_new name_in sct dct)\<lparr>lc_ec := \<not> addr_ok\<rparr>"

definition lc_connect :: "bool \<Rightarrow> LegacyConnection \<Rightarrow> LegacyConnection" where
  "lc_connect reached c =
     (let c = c\<lparr>lc_ec := \<not> reached\<rparr> in if \<not> lc_ec c then c\<lparr>lc_is_connected := True\<rparr> else c)"

definition lc_resize_buffer :: "nat \<Rightarrow> LegacyConnection \<Rightarrow> LegacyConnection" where
  "lc_resize_buffer new_size c = c\<lparr>lc_buffer := Buffer_resize new_size (lc_buffer c)\<rparr>"

text \<open>\<open>asio::read\<close> of \<open>n\<close> bytes into the start of the buffer; the rest of the input is returned.\<close>

definition lc_read :: "nat \<Rightarrow> byte list \<Rightarrow> LegacyConnection \<Rightarrow> (exn, byte list, LegacyConnection) sres" where
  "lc_read n inp c =
     (case Buffer_store (take n inp) (lc_buffer c) of
        Inl e \<Rightarrow> (Inl e, c)
      | Inr bu \<Rightarrow> (Inr (drop n inp), c\<lparr>lc_buffer := bu, lc_ec := (length inp < n)\<rparr>))"

text \<open>\<open>rpc_call_dispatch\<close>: the response is an argument that the code never assigns, and is returned as it was passed.\<close>

definition rpc_call_dispatch :: "wire \<Rightarrow> (byte list \<Rightarrow> byte list option) \<Rightarrow> ClientRequest \<Rightarrow> ClientResponse \<Rightarrow> LegacyConnection
    \<Rightarrow> (exn, ClientResponse, LegacyConnection) sres" where
  "rpc_call_dispatch W peer req res c =
     (let body = ser_ClientRequest W req;
          msg_size = (8 + of_nat (length body) :: uint32);
          c = (if unat msg_size > buf_size (lc_buffer c) then lc_resize_buffer (unat msg_size) c else c)
      in case Buffer_store (take (buf_size (lc_buffer c)) (WriteLittleEndian32 W 0 @ WriteLittleEndian32 W msg_size @ body)) (lc_buffer c) of
           Inl e \<Rightarrow> (Inl e, c)
         | Inr bu \<Rightarrow>
             let c = c\<lparr>lc_buffer := bu\<rparr>
             in case peer (Buffer_bytes (unat msg_size) bu) of
                  None \<Rightarrow> (Inr res, c\<lparr>lc_ec := True\<rparr>)
                | Some inp \<Rightarrow>
                    sbind (lc_read 8 inp c) (\<lambda>inp c.
                      if lc_ec c then (Inr res, c)
                      else
                        let msg_size_return = header_size W (Buffer_bytes 8 (lc_buffer c));
                            c = (if unat msg_size_return < buf_size (lc_buffer c) then lc_resize_buffer (unat msg_size_return) c else c)
                        in sbind (lc_read (unat msg_size_return) inp c) (\<lambda>inp c. (Inr res, c))))"

text \<open>The constructor of the old \<open>ClientServiceFactory\<close>: it sends hello and drops the answer.\<close>

definition LegacyFactory_new :: "wire \<Rightarrow> (HelloRequest \<Rightarrow> string) \<Rightarrow> (byte list \<Rightarrow> byte list option) \<Rightarrow> LegacyConnection
    \<Rightarrow> (exn, ClientResponse, LegacyConnection) sres" where
  "LegacyFactory_new W ser peer c =
     rpc_call_dispatch W peer
       \<lparr>cr_service_ordinal = Some 0, cr_request_ordinal = Some 0,
        cr_request_string = Some (ser \<lparr>hq_source_type = lc_src_con_type c, hq_expected_target = lc_dst_con_type c, hq_node_name = lc_name c\<rparr>)\<rparr>
       ClientResponse_Clear c"

text \<open>
  The base class of the old stubs, of which only these functions are defined: its request holds the service's ordinal, set
  from a signed number of 16 bits and read as an unsigned one.
\<close>

record ClientServiceSubscription =
  css_client_request :: ClientRequest

definition css_set_service_ordinal :: "16 word \<Rightarrow> ClientServiceSubscription \<Rightarrow> ClientServiceSubscription" where
  "css_set_service_ordinal k s =
     s\<lparr>css_client_request := (css_client_request s)\<lparr>cr_service_ordinal := Some (scast k)\<rparr>\<rparr>"

definition css_service_ordinal :: "ClientServiceSubscription \<Rightarrow> uint16" where
  "css_service_ordinal s = ucast (field_or 0 (cr_service_ordinal (css_client_request s)))"

definition css_dispatch :: "ClientServiceSubscription \<Rightarrow> bool" where
  "css_dispatch s = True"

section \<open>The server\<close>

text \<open>
  A connection of the server is named by a number; \<open>lo_connected_list\<close> is the intrusive list, \<open>lo_reads\<close> the read that
  is outstanding on each connection. Linking a node that is in the list already fails an assertion of Boost.
\<close>

datatype legacy_read = HeaderRead | MessageRead nat

record LegacyServerConnection =
  ls_data :: ClientData
  ls_buffer :: Buffer
  ls_read :: "legacy_read option"

record 'so RpcOracle =
  lo_connections :: "cid \<rightharpoonup> LegacyServerConnection"
  lo_connected_list :: "cid list"
  lo_services :: 'so
  lo_connection_type :: DestinationConnectionType

text \<open>The constructor. \<open>ServiceOracle\<close> is not in the tree: \<open>services\<close> is its initial state, \<open>RegisterService\<close> its operation.\<close>

definition RpcOracle_new :: "(ServiceDescriptor \<Rightarrow> 'so \<Rightarrow> 'so) \<Rightarrow> 'so \<Rightarrow> DestinationConnectionType \<Rightarrow> 'so RpcOracle" where
  "RpcOracle_new RegisterService services con_type =
     \<lparr>lo_connections = Map.empty, lo_connected_list = [], lo_services = RegisterService basic_protocol_descriptor services,
      lo_connection_type = con_type\<rparr>"

definition LegacyServerConnection_new :: LegacyServerConnection where
  "LegacyServerConnection_new = \<lparr>ls_data = ClientData_new, ls_buffer = Buffer_new, ls_read = None\<rparr>"

definition AddNewClient :: "cid \<Rightarrow> 'so RpcOracle \<Rightarrow> (exn, unit, 'so RpcOracle) sres" where
  "AddNewClient x o1 =
     (case lo_connections o1 x of
        None \<Rightarrow> (Inl UndefinedBehaviour, o1)
      | Some c \<Rightarrow>
          if x \<in> set (lo_connected_list o1) then (Inl AssertionFailed, o1)
          else (Inr (), o1\<lparr>lo_connected_list := lo_connected_list o1 @ [x],
                         lo_connections := (lo_connections o1)(x \<mapsto> c\<lparr>ls_read := Some HeaderRead\<rparr>)\<rparr>))"

definition lo_handle_read_header :: "wire \<Rightarrow> cid \<Rightarrow> bool \<Rightarrow> 'so RpcOracle \<Rightarrow> (exn, unit, 'so RpcOracle) sres" where
  "lo_handle_read_header W x error o1 =
     (if error then (Inr (), o1)
      else case lo_connections o1 x of
        None \<Rightarrow> (Inl UndefinedBehaviour, o1)
      | Some c \<Rightarrow>
          let header = Buffer_bytes 8 (ls_buffer c);
              msg_sz = header_size W header;
              bu = (if unat msg_sz < buf_size (ls_buffer c) then Buffer_resize (unat msg_sz) (ls_buffer c) else ls_buffer c)
          in (Inr (), o1\<lparr>lo_connections := (lo_connections o1)(x \<mapsto>
                c\<lparr>ls_data := (ls_data c)\<lparr>cd_flags := header_flags W header\<rparr>, ls_buffer := bu,
                  ls_read := Some (MessageRead (unat (msg_sz - 8)))\<rparr>)\<rparr>))"

definition lo_handle_read_message :: "wire \<Rightarrow> cid \<Rightarrow> nat \<Rightarrow> bool \<Rightarrow> 'so RpcOracle \<Rightarrow> (exn, unit, 'so RpcOracle) sres" where
  "lo_handle_read_message W x bytes_sent error o1 =
     (if error then (Inr (), o1)
      else case lo_connections o1 x of
        None \<Rightarrow> (Inl UndefinedBehaviour, o1)
      | Some c \<Rightarrow>
          (Inr (), o1\<lparr>lo_connections := (lo_connections o1)(x \<mapsto>
             c\<lparr>ls_data := (ls_data c)\<lparr>cd_request := parse_ClientRequest W (Buffer_bytes bytes_sent (ls_buffer c))\<rparr>\<rparr>)\<rparr>))"

definition lo_handle_write_response :: "cid \<Rightarrow> bool \<Rightarrow> 'so RpcOracle \<Rightarrow> (exn, unit, 'so RpcOracle) sres" where
  "lo_handle_write_response x error o1 = (Inr (), o1)"

text \<open>The end of a read of connection \<open>x\<close>: the bytes that arrived are in the buffer, and the handler runs.\<close>

definition lo_read_done :: "wire \<Rightarrow> cid \<Rightarrow> byte list \<Rightarrow> 'so RpcOracle \<Rightarrow> (exn, unit, 'so RpcOracle) sres" where
  "lo_read_done W x bs o1 =
     (case lo_connections o1 x of
        None \<Rightarrow> (Inl UndefinedBehaviour, o1)
      | Some c \<Rightarrow>
          (case Buffer_store bs (ls_buffer c) of
             Inl e \<Rightarrow> (Inl e, o1)
           | Inr bu \<Rightarrow>
               let o1 = o1\<lparr>lo_connections := (lo_connections o1)(x \<mapsto> c\<lparr>ls_buffer := bu, ls_read := None\<rparr>)\<rparr> in
               case ls_read c of
                 Some HeaderRead \<Rightarrow> lo_handle_read_header W x False o1
               | Some (MessageRead n) \<Rightarrow> lo_handle_read_message W x (length bs) False o1
               | None \<Rightarrow> (Inl UndefinedBehaviour, o1)))"

text \<open>
  The acceptor. An outstanding accept has the connection whose socket it fills and the connection its handler was bound
  to; a handler keeps the connection it is bound to alive, the socket of the other one it only refers to.
\<close>

record 'so ClientConnectionAcceptor =
  la_oracle :: "'so RpcOracle"
  la_accept :: "(cid \<times> cid) option"

definition ClientConnectionAcceptor_new :: "cid \<Rightarrow> 'so RpcOracle \<Rightarrow> 'so ClientConnectionAcceptor" where
  "ClientConnectionAcceptor_new x o1 =
     \<lparr>la_oracle = o1\<lparr>lo_connections := (lo_connections o1)(x \<mapsto> LegacyServerConnection_new)\<rparr>, la_accept = Some (x, x)\<rparr>"

text \<open>\<open>y\<close> is the address of the connection that the handler creates, and that nothing owns when it returns.\<close>

definition la_handle_accept :: "cid \<Rightarrow> cid \<Rightarrow> bool \<Rightarrow> 'so ClientConnectionAcceptor \<Rightarrow> (exn, unit, 'so ClientConnectionAcceptor) sres" where
  "la_handle_accept y ccp error a =
     (if error then (Inr (), a\<lparr>la_accept := None\<rparr>)
      else case AddNewClient ccp (la_oracle a) of
        (Inl e, o1) \<Rightarrow> (Inl e, a\<lparr>la_oracle := o1\<rparr>)
      | (Inr _, o1) \<Rightarrow> (Inr (), a\<lparr>la_oracle := o1\<lparr>lo_connections := (lo_connections o1)(y := None)\<rparr>, la_accept := Some (y, ccp)\<rparr>))"

text \<open>A client connects: the socket of the outstanding accept is used, then its handler runs.\<close>

definition la_client_arrives :: "cid \<Rightarrow> 'so ClientConnectionAcceptor \<Rightarrow> (exn, unit, 'so ClientConnectionAcceptor) sres" where
  "la_client_arrives y a =
     (case la_accept a of
        None \<Rightarrow> (Inl Blocked, a)
      | Some (sock, ccp) \<Rightarrow>
          if lo_connections (la_oracle a) sock = None then (Inl UndefinedBehaviour, a)
          else la_handle_accept y ccp False a)"

section \<open>Neither end works\<close>

text \<open>
  The old client never sees an answer. It asks for as many bytes as the whole frame has, after having read the eight of the
  header, so that the read ends with an error when the peer sends exactly one frame; it does not decode what it has read;
  and it enlarges nothing for a long answer, which overruns the buffer.
\<close>

lemma legacy_call_never_answered:
  assumes W: "wire_format W" and q: "sendable (ser_ClientRequest W req)" and b8: "8 \<le> buf_size (lc_buffer c)"
    and answer: "peer (frame W 0 (ser_ClientRequest W req)) = Some (frame W f body)" "sendable body"
  shows "\<exists>r c'. rpc_call_dispatch W peer req res c = (r, c') \<and>
    (if length body \<le> max (buf_size (lc_buffer c)) (8 + length (ser_ClientRequest W req)) then r = Inr res \<and> lc_ec c'
     else r = Inl UndefinedBehaviour)"
proof -
  let ?q = "ser_ClientRequest W req"
  let ?sz = "8 + of_nat (length ?q) :: uint32" and ?rsz = "8 + of_nat (length body) :: uint32"
  have sz: "unat ?sz = 8 + length ?q" "unat ?rsz = 8 + length body" using q answer(2) by (simp_all add: sendable_size)
  let ?c = "if unat ?sz > buf_size (lc_buffer c) then lc_resize_buffer (unat ?sz) c else c"
  have size: "buf_size (lc_buffer ?c) = max (buf_size (lc_buffer c)) (8 + length ?q)"
    using sz(1) by (simp add: lc_resize_buffer_def Buffer_resize_def)
  have fr: "WriteLittleEndian32 W 0 @ WriteLittleEndian32 W ?sz @ ?q = frame W 0 ?q" "length (frame W 0 ?q) = 8 + length ?q"
    using wire_format.write_length [OF W] by (simp_all add: frame_def)
  then have "take (buf_size (lc_buffer ?c)) (frame W 0 ?q) = frame W 0 ?q" "length (frame W 0 ?q) \<le> buf_size (lc_buffer ?c)"
    using size by simp_all
  then obtain bu where st: "Buffer_store (take (buf_size (lc_buffer ?c)) (WriteLittleEndian32 W 0 @ WriteLittleEndian32 W ?sz @ ?q)) (lc_buffer ?c) = Inr bu"
    "buf_size bu = buf_size (lc_buffer ?c)" "Buffer_bytes (unat ?sz) bu = frame W 0 ?q"
    unfolding fr(1) sz(1) by (simp add: Buffer_store_def Buffer_bytes_def fr(2))
  note hd = wire_format.frame_header(2) [OF W, of f body] wire_format.frame_split [OF W, of f body]
  have l8: "length (take 8 (frame W f body)) = 8" "\<not> length (frame W f body) < 8" using hd(4) by simp_all
  let ?b1 = "bu\<lparr>buf := take 8 (frame W f body) @ drop 8 (buf bu)\<rparr>"
  have "8 \<le> buf_size bu" using st(2) size b8 by simp
  then have read: "lc_read 8 (frame W f body) (?c\<lparr>lc_buffer := bu\<rparr>) = (Inr body, ?c\<lparr>lc_buffer := ?b1, lc_ec := False\<rparr>)"
    using l8 hd(3) by (simp add: lc_read_def Buffer_store_ok)
  have hs: "header_size W (Buffer_bytes 8 ?b1) = ?rsz" using hd(1) l8(1) by (simp add: Buffer_bytes_def)
  let ?b2 = "if 8 + length body < buf_size bu then Buffer_resize (8 + length body) ?b1 else ?b1"
  let ?c2 = "?c\<lparr>lc_buffer := ?b2, lc_ec := False\<rparr>"
  have call: "rpc_call_dispatch W peer req res c = sbind (lc_read (8 + length body) body ?c2) (\<lambda>inp c. (Inr res, c))"
    unfolding rpc_call_dispatch_def Let_def st(1) sum.case st(3) answer(1) option.case read sbind_simps
    by (cases c) (simp add: hs sz(2) lc_resize_buffer_def)
  show ?thesis
  proof (cases "length body \<le> buf_size bu")
    case True
    then have "length body \<le> buf_size ?b2" by (simp add: Buffer_resize_def)
    then obtain bu' where "lc_read (8 + length body) body ?c2 = (Inr [], ?c2\<lparr>lc_buffer := bu', lc_ec := True\<rparr>)"
      by (simp add: lc_read_def Buffer_store_ok)
    then show ?thesis unfolding call using True st(2) size by simp
  next
    case False
    then have "lc_read (8 + length body) body ?c2 = (Inl UndefinedBehaviour, ?c2)" by (simp add: lc_read_def Buffer_store_def)
    then show ?thesis unfolding call using False st(2) size by simp
  qed
qed

text \<open>
  The old stub gives back the ordinal that was set, although the request holds the number sign-extended to 32 bits.
\<close>

lemma css_ordinal_roundtrip: "css_service_ordinal (css_set_service_ordinal k s) = k"
  by (simp add: css_service_ordinal_def css_set_service_ordinal_def field_or_def bit_eq_iff bit_simps)

text \<open>
  The old server takes one client. The accept for the next one refers to a connection that is destroyed when the
  handler returns, because the handler was bound to the old connection instead of the new one.
\<close>

lemma legacy_server_takes_one_client:
  assumes "x \<notin> set (lo_connected_list o1)" "y \<noteq> x"
  shows "\<exists>a. la_client_arrives y (ClientConnectionAcceptor_new x o1) = (Inr (), a) \<and>
    lo_connected_list (la_oracle a) = lo_connected_list o1 @ [x] \<and> la_client_arrives z a = (Inl UndefinedBehaviour, a)"
  using assms
  by (simp add: la_client_arrives_def ClientConnectionAcceptor_new_def la_handle_accept_def AddNewClient_def)

text \<open>The old server has the same inverted test for the size of the buffer as the front end that replaced it.\<close>

lemma legacy_server_overrun:
  assumes "lo_connections o1 x = Some c" "ls_read c = Some HeaderRead" "8 \<le> buf_size (ls_buffer c)" "length hdr = 8"
    "sz = header_size W hdr"
  shows "\<exists>o2 c'. lo_read_done W x hdr o1 = (Inr (), o2) \<and> lo_connections o2 x = Some c' \<and> ls_read c' = Some (MessageRead (unat (sz - 8))) \<and>
    buf_size (ls_buffer c') = min (unat sz) (buf_size (ls_buffer c)) \<and>
    (\<forall>bs. buf_size (ls_buffer c') < length bs \<longrightarrow> lo_read_done W x bs o2 = (Inl UndefinedBehaviour, o2))"
  using assms
  by (auto simp: lo_read_done_def Buffer_store_def lo_handle_read_header_def Let_def Buffer_bytes_def Buffer_resize_def)

end
