(* ===== verification/Spec2Isabelle.thy ===== *)
theory Spec2Isabelle
  imports Oid_Properties Config_Properties Protocol_Properties Disconnect System_Shutdown
    Tcp_Lifecycle Tcp_Lost_Peer Client_Properties Rpc_Generator Tcp_Legacy
begin

text \<open>
  A verification development of the rubble RPC library (\<^verbatim>\<open>include/\<close> and \<^verbatim>\<open>src/\<close> of the
  repository).

  \<^bold>\<open>The program.\<close> A \<^emph>\<open>backend\<close> (\<^verbatim>\<open>BackEndBase.h\<close>, \<^verbatim>\<open>BackEndBase.cc\<close>) owns a table of services.
  A service is a class that a protobuf plugin generates (\<^verbatim>\<open>proto_rbl_rpc_generator.cc\<close>) and the
  application derives from; it has a table of methods. Both tables are \<^emph>\<open>identifier
  containers\<close> (\<^verbatim>\<open>oid_container.h\<close>): vectors with an index of names that ignores case. Service 0
  is the \<^emph>\<open>basic protocol\<close>, by which a client introduces itself, lists services and methods and
  subscribes to services. What the backend knows about a client is its \<^emph>\<open>client data\<close>
  (\<^verbatim>\<open>ClientData.h\<close>) and one \<^emph>\<open>cookie\<close> per service (\<^verbatim>\<open>ClientServiceCookies.h\<close>). A call enters
  through \<^verbatim>\<open>BackEnd::invoke\<close>, which either answers at once or posts the call's \<^emph>\<open>invoker\<close> to the
  I/O service; a thread of the pool runs the invoker, which dispatches the request to its
  service. Invokers are either in the server's process (\<^verbatim>\<open>InProcessInvoker.h\<close>: the caller waits
  on a notification object) or connections of the \<^emph>\<open>TCP front end\<close> (\<^verbatim>\<open>TcpFrontEnd.cc\<close>), to which
  the \<^emph>\<open>TCP invoker\<close> (\<^verbatim>\<open>TcpInvoker.h\<close>) of a remote client connects. On the client's side the
  generated \<^emph>\<open>stubs\<close> call through either kind of invoker. Every invoker manager
  is connected to the backend's signal, so that a shutdown can disconnect it.

  \<^bold>\<open>Failures.\<close> An operation returns a sum: \<open>Inl\<close> a failure of type \<open>exn\<close> (an exception the code
  throws with what it streams into it, \<open>AssertionFailed\<close> for a failed \<^verbatim>\<open>BOOST_ASSERT\<close>,
  \<open>UndefinedBehaviour\<close> for a null or dangling pointer or an access out of bounds, \<open>Terminate\<close> for an exception
  that leaves a thread and ends the program, \<open>Blocked\<close> for a thread that waits), \<open>Inr\<close> the returned value; the state is returned in both cases, as it is
  when the failure happens. \<open>ebind\<close> and \<open>sbind\<close> sequence such operations.

  \<^bold>\<open>Theories, in the order of the program.\<close>
  \<^item> \<open>Rbl_Prelude\<close>: results, sequencing, generic lemmas. \<open>Rbl_Errors\<close>: \<^verbatim>\<open>rpc_errors.h\<close> and
    \<^verbatim>\<open>rpc_error.cc\<close>.
  \<^item> \<open>Oid_Container\<close>: the operations of \<^verbatim>\<open>oid_container.h\<close> and \<^verbatim>\<open>oid_container-inl.h\<close> one by one, on
    the vector \<open>entries\<close> and the index. \<open>Oid_Names\<close>: the locale \<open>boost_library\<close>, the laws of the
    Boost operations the container calls (case conversion, the intrusive set), with the
    interpretation \<open>lst\<close>. \<open>Oid_Container_Correct\<close>: the representation invariant \<open>oid_inv\<close>, the
    abstraction \<open>oid_abs\<close> to a partial map, and the refinement of each operation. \<open>Oid_Table\<close>:
    the locale \<open>oid_table\<close>, the contract the tables' clients use, and the \<open>sublocale\<close> that
    provides it. \<open>Oid_Properties\<close>: the properties, and the programs that client code can write over
    one container (\<open>oid_step\<close>, \<open>oid_reachable\<close>), which keep it well-formed and never fail.
  \<^item> \<open>Basic_Protocol_Messages\<close>: the messages of \<^verbatim>\<open>BasicProtocol.proto\<close> as records; the record
    \<open>protobuf\<close> holds the generated encoders and decoders as parameters.
  \<^item> \<open>Client_Data\<close>, \<open>Client_Service_Cookies\<close> (with the locale \<open>cookie_store\<close> and its interpretation
    \<open>ck\<close>), \<open>Synchronised_State\<close>: the parts of the backend's state.
  \<^item> \<open>Service_Base\<close>: what the generated server classes do: their constructors, dispatch functions
    and method lists; the application's methods are fields of the service. \<open>Service_Facts\<close>: the
    constructors fill a table without holes.
  \<^item> \<open>Back_End\<close>: the backend, every operation, and the implementation of the basic protocol.
    \<open>Back_End_Config\<close> and \<open>Config_Properties\<close>: construction, registration, start. \<open>Invocation\<close>,
    \<open>Dispatch\<close>, \<open>Call_Properties\<close>: \<^verbatim>\<open>invoke\<close> refines the decision \<open>decide\<close> on an abstract view
    of the client, and running a posted call ends it. \<open>Protocol_Properties\<close>, \<open>Disconnect\<close>,
    \<open>Shutdown\<close>: the basic protocol, the end of a client and of the backend.
  \<^item> \<open>In_Process_Invoker\<close>: the notification object and the in-process invoker. \<open>System\<close>: the
    interleavings of any number of in-process clients with the pool as a step relation, its
    invariant \<open>sys_ok\<close>, the discipline of the clients it needs, and that waiting callers can return. \<open>System_Shutdown\<close>: the shutdown
    disconnects them all.
  \<^item> \<open>Tcp_Wire\<close>: frames, and the locale \<open>wire_format\<close> of the coded streams with its
    interpretation \<open>dw\<close>. \<open>Tcp_Front_End\<close>: the handlers of a connection and the front end.
    \<open>Tcp_Properties\<close>: framing, bounds of the buffer. \<open>Tcp_Lifecycle\<close>: the outcomes of stopping the front end.
    \<open>Tcp_Lost_Peer\<close>: the steps of the front end between starting and stopping (\<open>tcp_event\<close>) and what becomes of a lost peer.
    \<open>Tcp_Invoker\<close>: the remote client, for every behaviour of its peer.
  \<^item> \<open>Client_Stubs\<close>: the client's side: \<^verbatim>\<open>ClientBase.h\<close>, \<^verbatim>\<open>ClientServiceFactory.h\<close> and the generated client
    classes, over any invoker (\<open>InvokerOps\<close>); \<open>in_process_ops\<close> and \<open>tcp_ops\<close> are the two there are. \<open>Client_Tables\<close>: the
    method maps and the factory's table on lists of names. \<open>Client_Contract\<close>: the locale \<open>basic_server\<close>, what the factory relies on of a
    server, and what it makes of the answers. \<open>Protobuf_Codec\<close>: the locale \<open>protobuf_codec\<close> of the messages' encodings with its
    interpretation \<open>rp\<close>. \<open>In_Process_Calls\<close>, \<open>In_Process_Channel\<close>: a whole call through an in-process invoker, and the locale
    \<open>in_process_channel\<close>, in which the backend is shown to be a \<open>basic_server\<close> (a \<open>sublocale\<close>). \<open>Client_Instances\<close>: a concrete
    client. \<open>Client_Properties\<close>: the factory mirrors the backend, a stub reaches its methods by name, a remote call is the direct
    call, and what goes wrong.
  \<^item> \<open>Rpc_Generator\<close>: the plugin \<^verbatim>\<open>proto_rbl_rpc_generator.cc\<close> as a function from a file descriptor to the
    two headers, each the list of the calls made on the printer; that the texts have their variables, the
    namespaces match and the constructors register the methods that \<open>Service_Base\<close> works with.
  \<^item> \<open>Tcp_Legacy\<close>: \<^verbatim>\<open>TcpServer.h\<close>, \<^verbatim>\<open>tcp_client_connection.h\<close> and \<^verbatim>\<open>client_rpc_common.h\<close>, older versions of the front
    end, the TCP invoker and the factory that nothing builds, and why neither end worked.
  \<^item> \<open>Concrete_Instances\<close>: a service with one method and the backends made with it, on which the
    witnesses evaluate.

  \<^bold>\<open>State.\<close> A C++ class is a record with the fields of the class. Pointers to clients and
  invokers are addresses (\<open>cid\<close>, \<open>mid\<close>); pointers into the service table are ordinals; a shared
  pointer that may be null is an option. 16- and 32-bit unsigned integers are words and wrap.
  The counts of calls and managers are signed in the code and \<open>int\<close> here: they stay far below
  their bounds because each is at most the number of objects in memory. What protobuf, Boost
  and the application provide is a parameter with its documented laws: \<open>boost_library\<close>,
  \<open>wire_format\<close>, the round trip laws of \<open>protobuf\<close>, and \<open>impl_behaves\<close>, which says that a method
  of the application does not throw and does not touch the state of the library behind its back. A message whose
  required field is unset is encoded and decoded like the others, as protobuf does it when its debug assertions are off.
  The sockets report errors, and the I/O service reports that it stopped (\<open>io_service\<close>), as arguments say; whether advancing the iterator of an
  erased element of a set works, which C++ leaves undefined, is the argument \<open>intact\<close>.

  \<^bold>\<open>Bounds.\<close> The containers are limited to 65536 entries by their 16-bit ordinals, which the
  invariant \<open>table_ok\<close> records. No function of the model takes fuel: loops over tables are
  recursions over lists of ordinals, and the wait of \<^verbatim>\<open>TcpFrontEnd::disconnect_from_backend\<close>
  counts down from five as the code does; its environment is a list of what other threads do
  between two sleeps. A wait on a condition variable is one step that is \<open>Blocked\<close> until it is
  notified; that it may also wake spuriously is an argument of \<open>wait_for_notification\<close>.

  \<^bold>\<open>Threads.\<close> Operations under the mutex of the shared state are atomic. A step of \<open>sys_step\<close> is
  what one thread does between two points where others may interfere: up to the post in
  \<^verbatim>\<open>invoke\<close>, the whole handler in the pool, and from the notification on. The code does not enforce the discipline of these
  steps (a reset before each request, ordinals of 16 bits, no spurious wake-up): \<open>sys_event\<close> has all steps, and \<open>sys_run\<close> records
  whether a run kept to it. The handlers of one TCP
  connection never overlap, because each is started by the one before.

  \<^bold>\<open>Not modelled.\<close> The rendering of the printed text by protobuf's \<^verbatim>\<open>Printer\<close>, which is a library;
  the stream output operators, the output to the console and \<^verbatim>\<open>logging.h\<close>, which change no state;
  the entry point of the plugin, which only calls protobuf's \<^verbatim>\<open>PluginMain\<close>; the constructor of
  \<^verbatim>\<open>ClientServiceSubscription\<close>, which is declared and nowhere defined; the test programs.
\<close>

end
